(* ===== verification/Prelude.thy ===== *)
theory Prelude
  imports Main "HOL-Library.Word" "HOL-Library.AList"
begin

text \<open>
  What the components share: the types the Go code uses everywhere (byte strings, byte
  slices, nanosecond times, Go maps), 64-bit arithmetic, the few functions of Go's
  \<^verbatim>\<open>strings\<close> package the code calls, and the bounded FIFO both logs of the memory store
  are built on. The collections \<open>go_simps\<close> (rewriting rules of the store operations) and
  \<open>handler_defs\<close> (definitions of the handlers' building blocks) are filled by the later theories.
\<close>

named_theorems go_simps \<open>how the operations act on the abstract view of a store\<close>
named_theorems handler_defs \<open>definitions unfolded when a handler is stepped through\<close>

section \<open>Types\<close>

type_synonym time = int       \<comment> \<open>nanoseconds since the Unix epoch\<close>
type_synonym duration = int   \<comment> \<open>nanoseconds\<close>
type_synonym bytes = "8 word list"

text \<open>
  What the \<^verbatim>\<open>select\<close> of a periodic goroutine takes: the cancelled context, or a tick with its time and
  whether the context has been cancelled by then (\<^verbatim>\<open>select\<close> picks at random when both are ready).
\<close>

datatype wake = Cancelled | Ticked time bool

text \<open>
  A Go map is an association list with distinct keys. Its order stands for the order in
  which a \<^verbatim>\<open>range\<close> loop visits the map, of which Go promises nothing.
\<close>

type_synonym ('k, 'v) gomap = "('k \<times> 'v) list"

definition distinct_keys :: "('k, 'v) gomap \<Rightarrow> bool" where
  "distinct_keys m = distinct (map fst m)"

lemma map_of_update [simp]: "map_of (AList.update k v m) = (map_of m)(k \<mapsto> v)"
  by (simp add: update_conv')

lemma map_of_delete [simp]: "map_of (AList.delete k m) = (map_of m)(k := None)"
  by (simp add: delete_conv')

lemma distinct_keys_Nil [simp]: "distinct_keys []"
  by (simp add: distinct_keys_def)

lemma distinct_keys_update [simp, intro]: "distinct_keys m \<Longrightarrow> distinct_keys (AList.update k v m)"
  by (simp add: distinct_keys_def distinct_update)

lemma distinct_keys_delete [simp, intro]: "distinct_keys m \<Longrightarrow> distinct_keys (AList.delete k m)"
  by (simp add: distinct_keys_def distinct_delete)

lemma distinct_keys_filter [simp, intro]: "distinct_keys m \<Longrightarrow> distinct_keys (filter P m)"
  by (simp add: distinct_keys_def distinct_map_filter)

text \<open>Overwriting the values of a map in a \<^verbatim>\<open>range\<close> loop keeps its keys.\<close>

lemma distinct_keys_map_snd [simp]: "distinct_keys (map (\<lambda>(k, v). (k, f v)) m) = distinct_keys m"
  by (simp add: distinct_keys_def comp_def case_prod_unfold)

lemma map_of_map_snd: "map_of (map (\<lambda>(k, v). (k, f v)) m) k = map_option f (map_of m k)"
  by (induction m) auto

lemma map_of_filter_snd:
  "distinct_keys m \<Longrightarrow>
   map_of (filter (\<lambda>kv. P (snd kv)) m) k =
     (case map_of m k of None \<Rightarrow> None | Some v \<Rightarrow> if P v then Some v else None)"
proof (induction m)
  case Nil
  show ?case by simp
next
  case (Cons kv m)
  obtain k' v' where kv: "kv = (k', v')" by (cases kv)
  from Cons.prems have dm: "distinct_keys m" and nk: "k' \<notin> fst ` set m"
    by (auto simp: distinct_keys_def kv)
  from nk have none: "map_of m k' = None" by (simp add: map_of_eq_None_iff)
  from none Cons.IH [OF dm] show ?case by (auto simp: kv)
qed

lemma update_new: "k \<notin> fst ` set m \<Longrightarrow> AList.update k v m = m @ [(k, v)]"
  by (induction m) auto

lemma map_update_same:
  "map_of m k = Some v \<Longrightarrow> g (k, v') = g (k, v) \<Longrightarrow> map g (AList.update k v' m) = map g m"
  by (induction m) (auto split: if_splits)

lemma set_update_distinct:
  "distinct_keys m \<Longrightarrow> set (AList.update k v m) = insert (k, v) {kv \<in> set m. fst kv \<noteq> k}"
  by (induction m) (auto simp: distinct_keys_def rev_image_eqI)

lemma set_delete: "set (AList.delete k m) = {kv \<in> set m. fst kv \<noteq> k}"
  by (auto simp: AList.delete_eq)

lemma map_of_SomeI: "distinct_keys m \<Longrightarrow> (k, v) \<in> set m \<Longrightarrow> map_of m k = Some v"
  by (simp add: distinct_keys_def)

lemma fst_set_map_of: "fst ` set m = dom (map_of m)"
  by (simp add: dom_map_of_conv_image_fst)

section \<open>Optional overwrites\<close>

text \<open>The value of a variable after \<^verbatim>\<open>if p != nil { x = *p }\<close>.\<close>

definition opt_or :: "'a \<Rightarrow> 'a option \<Rightarrow> 'a" where
  "opt_or d p = (case p of None \<Rightarrow> d | Some x \<Rightarrow> x)"

lemma opt_or_simps [simp]: "opt_or d None = d" "opt_or d (Some x) = x"
  by (simp_all add: opt_or_def)

section \<open>64-bit integers\<close>

text \<open>
  Go's \<^verbatim>\<open>int\<close>, \<^verbatim>\<open>int64\<close> and \<^verbatim>\<open>time.Duration\<close> are 64-bit two's complement. They
  are integers here, with the wrap-around written out at the operations that can leave the range.
\<close>

definition wrap64 :: "int \<Rightarrow> int" where
  "wrap64 x = (x + 2 ^ 63) mod 2 ^ 64 - 2 ^ 63"

definition in_int64 :: "int \<Rightarrow> bool" where
  "in_int64 x = (- (2 ^ 63) \<le> x \<and> x < 2 ^ 63)"

lemma wrap64_id [simp]: "in_int64 x \<Longrightarrow> wrap64 x = x"
  by (simp add: wrap64_def in_int64_def)

lemma wrap64_in_range [simp]: "in_int64 (wrap64 x)"
  by (simp add: wrap64_def in_int64_def)

lemma wrap64_small: "0 \<le> x \<Longrightarrow> x < 2 ^ 63 \<Longrightarrow> wrap64 x = x"
  by (simp add: in_int64_def)

text \<open>\<^verbatim>\<open>Time.Sub\<close> saturates at the range of a \<^verbatim>\<open>Duration\<close>.\<close>

definition time_sub :: "time \<Rightarrow> time \<Rightarrow> duration" where
  "time_sub a b = max (- (2 ^ 63)) (min (2 ^ 63 - 1) (a - b))"

section \<open>A bounded FIFO\<close>

text \<open>
  \<open>push_capped cap xs x\<close> is the pattern of \<^verbatim>\<open>RecordClick\<close> and \<^verbatim>\<open>LogAudit\<close> in
  \<^verbatim>\<open>services/storage.go\<close>: at the cap, slide the window by one, then append.
\<close>

definition push_capped :: "nat \<Rightarrow> 'a list \<Rightarrow> 'a \<Rightarrow> 'a list" where
  "push_capped cap xs x = (if length xs \<ge> cap then tl xs @ [x] else xs @ [x])"

lemma length_push_capped: "0 < cap \<Longrightarrow> length xs \<le> cap \<Longrightarrow> length (push_capped cap xs x) = min cap (Suc (length xs))"
  by (auto simp: push_capped_def)

lemma length_push_capped_le [intro]: "0 < cap \<Longrightarrow> length xs \<le> cap \<Longrightarrow> length (push_capped cap xs x) \<le> cap"
  by (simp add: length_push_capped)

text \<open>The abstraction: the FIFO holds the last \<open>cap\<close> elements of everything ever pushed.\<close>

definition last_n :: "nat \<Rightarrow> 'a list \<Rightarrow> 'a list" where
  "last_n n xs = drop (length xs - n) xs"

lemma push_capped_last_n: "0 < cap \<Longrightarrow> push_capped cap (last_n cap h) x = last_n cap (h @ [x])"
proof -
  assume c: "0 < cap"
  show ?thesis
  proof (cases "length h < cap")
    case True
    then show ?thesis by (simp add: push_capped_def last_n_def)
  next
    case False
    then have "tl (drop (length h - cap) h) = drop (Suc (length h) - cap) h"
      by (simp add: drop_Suc [symmetric] tl_drop Suc_diff_le)
    with False c show ?thesis by (simp add: push_capped_def last_n_def Suc_diff_le)
  qed
qed

lemma length_last_n [simp]: "length (last_n n xs) = min n (length xs)"
  by (simp add: last_n_def)

end
