(* ===== verification/Models.thy ===== *)
theory Models
  imports Prelude
begin

text \<open>
  The data of \<^verbatim>\<open>models/url.go\<close>, \<^verbatim>\<open>models/click.go\<close>, \<^verbatim>\<open>models/apikey.go\<close> and
  \<^verbatim>\<open>models/audit.go\<close>: one record per struct, with the source's field names behind a
  short prefix (\<open>m_\<close> for a mapping, \<open>d_\<close> a destination, \<open>ev_\<close> a click event, \<open>k_\<close>
  an API key, \<open>a_\<close> an audit event, \<open>q_\<close> a shorten request). A nilable pointer is an
  \<open>option\<close>; a slice whose nil-ness the code never asks for is a list.
\<close>

section \<open>Mappings\<close>

record destination =
  d_URL :: string
  d_Weight :: int

record url_mapping =
  m_ID :: string
  m_OriginalURL :: string
  m_CreatedAt :: time
  m_ExpiresAt :: "time option"
  m_ClickCount :: int
  m_LastAccessed :: "time option"
  m_OwnerTokenHash :: bytes
  m_Tags :: "string list"
  m_MaxClicks :: int
  m_PasswordHash :: bytes
  m_PasswordSalt :: bytes
  m_WebhookURL :: string
  m_WebhookSecret :: bytes
  m_APIKeyID :: int
  m_PreviewTitle :: string
  m_PreviewImage :: string
  m_PreviewDescription :: string
  m_PreviewFetchedAt :: "time option"
  m_Destinations :: "destination list"

section \<open>Click events\<close>

record click_event =
  ev_At :: time
  ev_IPHash :: string
  ev_Referer :: string
  ev_UAClass :: string
  ev_Country :: string
  ev_DestinationURL :: string

section \<open>API keys and audit events\<close>

record api_key =
  k_ID :: int
  k_TokenHash :: bytes
  k_Label :: string
  k_CreatedAt :: time
  k_LastUsedAt :: "time option"

text \<open>Go's zero \<^verbatim>\<open>time.Time\<close>, which \<^verbatim>\<open>LogAudit\<close> replaces by the clock, is \<open>None\<close>.\<close>

record audit_event =
  a_ID :: int
  a_At :: "time option"
  a_ActorKind :: string
  a_ActorID :: string
  a_Action :: string
  a_TargetKind :: string
  a_TargetID :: string
  a_Metadata :: string
  a_RequestID :: string

definition AuditActionAPIKeyCreate :: string where
  "AuditActionAPIKeyCreate = ''api_key.create''"
definition AuditActionAPIKeyRevoke :: string where
  "AuditActionAPIKeyRevoke = ''api_key.revoke''"
definition AuditActionAPIKeyLabelUpdated :: string where
  "AuditActionAPIKeyLabelUpdated = ''api_key.label_updated''"
definition AuditActionURLCreate :: string where
  "AuditActionURLCreate = ''url.create''"
definition AuditActionURLDelete :: string where
  "AuditActionURLDelete = ''url.delete''"
definition AuditActionURLPatch :: string where
  "AuditActionURLPatch = ''url.patch''"
definition AuditActionURLTokenRotated :: string where
  "AuditActionURLTokenRotated = ''url.token_rotated''"

definition AuditActorAPIKey :: string where
  "AuditActorAPIKey = ''apikey''"
definition AuditActorAdminToken :: string where
  "AuditActorAdminToken = ''admin_token''"
definition AuditActorAnon :: string where
  "AuditActorAnon = ''anon''"

section \<open>Requests\<close>

text \<open>The body of \<^verbatim>\<open>POST /api/shorten\<close>, as \<^verbatim>\<open>encoding/json\<close> leaves it (absent fields are zero).\<close>

record shorten_request =
  q_URL :: string
  q_ExpirationMins :: int
  q_CustomCode :: string
  q_Tags :: "string list"
  q_MaxClicks :: int
  q_Password :: string
  q_WebhookURL :: string
  q_Destinations :: "destination list"

record shorten_response =
  p_ShortCode :: string
  p_ShortURL :: string
  p_OriginalURL :: string
  p_ExpiresAt :: "time option"
  p_AdminToken :: string
  p_Tags :: "string list"
  p_MaxClicks :: int
  p_HasPassword :: bool
  p_WebhookURL :: string
  p_WebhookSecret :: string
  p_Destinations :: "destination list"

section \<open>Analytics\<close>

record country_count =
  cc_ISO :: string
  cc_Count :: int

record analytics_response =
  ar_ShortCode :: string
  ar_OriginalURL :: string
  ar_ClickCount :: int
  ar_CreatedAt :: time
  ar_ExpiresAt :: "time option"
  ar_LastAccessed :: "time option"
  ar_Tags :: "string list"
  ar_MaxClicks :: int
  ar_HasPassword :: bool
  ar_WebhookURL :: string
  ar_PreviewTitle :: string
  ar_PreviewImage :: string
  ar_PreviewDescription :: string
  ar_PreviewFetchedAt :: "time option"
  ar_Destinations :: "destination list"
  ar_TopCountries :: "country_count list"

end
