(* ===== verification/Store_Iface.thy ===== *)
theory Store_Iface
  imports Models
begin

text \<open>
  The \<^verbatim>\<open>Store\<close> interface of \<^verbatim>\<open>services/storage.go\<close>. The Go interface is a record of
  operations over a state type \<open>'s\<close> (\<open>store_ops\<close>), so the handlers are defined once over any
  backend, as in the source. The locales \<open>url_store\<close> and \<open>key_store\<close> state what the handlers
  rely on, in terms of an abstract view of the state, \<open>cleaned_store\<close> adds the cleanup
  pass and \<open>serial_store\<close> that key IDs are not reused; a backend discharges the laws by an interpretation
  (\<^verbatim>\<open>Mem_Store\<close> does so for the memory backend). Every call of \<^verbatim>\<open>time.Now()\<close> inside an operation is
  an argument of it.
\<close>

section \<open>Errors and the patch payload\<close>

text \<open>
  The sentinel errors of \<^verbatim>\<open>services/storage.go\<close>, any other error of a backend, and a run-time
  panic inside an operation (which the \<^verbatim>\<open>Recover\<close> middleware turns into a 500).
\<close>

datatype store_err = ErrNotFound | ErrExpired | ErrCodeConflict | ErrBackend string | Panicked

text \<open>
  \<^verbatim>\<open>UpdateFields\<close>: \<open>None\<close> is "leave alone". \<^verbatim>\<open>PasswordSalt\<close> is only ever copied, so its
  nil and empty values coincide; the nil test of \<^verbatim>\<open>PasswordHash\<close> and \<^verbatim>\<open>WebhookSecret\<close> matters.
\<close>

record update_fields =
  f_OriginalURL :: "string option"
  f_ExpiresAt :: "time option"
  f_ClearExpiration :: bool
  f_Tags :: "string list option"
  f_MaxClicks :: "int option"
  f_PasswordHash :: "bytes option"
  f_PasswordSalt :: bytes
  f_ClearPassword :: bool
  f_WebhookURL :: "string option"
  f_WebhookSecret :: "bytes option"
  f_ClearWebhook :: bool
  f_APIKeyID :: "int option"
  f_PreviewTitle :: "string option"
  f_PreviewImage :: "string option"
  f_PreviewDescription :: "string option"
  f_SetPreviewFetched :: bool
  f_Destinations :: "destination list option"

text \<open>The zero value \<^verbatim>\<open>UpdateFields{}\<close>.\<close>

definition no_update :: update_fields where
  "no_update = \<lparr>f_OriginalURL = None, f_ExpiresAt = None, f_ClearExpiration = False, f_Tags = None,
     f_MaxClicks = None, f_PasswordHash = None, f_PasswordSalt = [], f_ClearPassword = False,
     f_WebhookURL = None, f_WebhookSecret = None, f_ClearWebhook = False, f_APIKeyID = None,
     f_PreviewTitle = None, f_PreviewImage = None, f_PreviewDescription = None,
     f_SetPreviewFetched = False, f_Destinations = None\<rparr>"

section \<open>The interface\<close>

record 's store_ops =
  st_Set :: "string \<Rightarrow> url_mapping \<Rightarrow> 's \<Rightarrow> 's \<times> store_err option"
  st_Get :: "time \<Rightarrow> string \<Rightarrow> 's \<Rightarrow> store_err + url_mapping"
  st_Delete :: "string \<Rightarrow> 's \<Rightarrow> 's \<times> store_err option"
  st_Exists :: "string \<Rightarrow> 's \<Rightarrow> bool"
  st_RecordClick :: "string \<Rightarrow> click_event \<Rightarrow> 's \<Rightarrow> 's \<times> store_err option"
  st_RecentClicks :: "string \<Rightarrow> int \<Rightarrow> 's \<Rightarrow> store_err + click_event list"
  st_Update :: "time \<Rightarrow> string \<Rightarrow> update_fields \<Rightarrow> 's \<Rightarrow> 's \<times> store_err option"
  st_ClicksByBucket :: "string \<Rightarrow> time \<Rightarrow> duration \<Rightarrow> int \<Rightarrow> 's \<Rightarrow> store_err + int list"
  st_RotateToken :: "string \<Rightarrow> bytes \<Rightarrow> 's \<Rightarrow> 's \<times> store_err option"
  st_CreateAPIKey :: "time \<Rightarrow> string \<Rightarrow> bytes \<Rightarrow> 's \<Rightarrow> 's \<times> (store_err + api_key)"
  st_LookupAPIKey :: "time \<Rightarrow> bytes \<Rightarrow> 's \<Rightarrow> 's \<times> (store_err + api_key)"
  st_GetAPIKey :: "int \<Rightarrow> 's \<Rightarrow> store_err + api_key"
  st_DeleteAPIKey :: "int \<Rightarrow> 's \<Rightarrow> 's \<times> store_err option"
  st_UpdateAPIKeyLabel :: "int \<Rightarrow> string \<Rightarrow> 's \<Rightarrow> 's \<times> store_err option"
  st_ListURLsByAPIKey :: "int \<Rightarrow> int \<Rightarrow> int \<Rightarrow> 's \<Rightarrow> store_err + url_mapping list"
  st_LogAudit :: "time \<Rightarrow> audit_event \<Rightarrow> 's \<Rightarrow> 's \<times> store_err option"
  st_RecentAuditEvents :: "int \<Rightarrow> int \<Rightarrow> 's \<Rightarrow> store_err + audit_event list"

section \<open>What the operations mean on one mapping\<close>

definition expired_at :: "time \<Rightarrow> url_mapping \<Rightarrow> bool" where
  "expired_at now m = (case m_ExpiresAt m of None \<Rightarrow> False | Some e \<Rightarrow> now > e)"

text \<open>The mapping \<^verbatim>\<open>shortenOne\<close> inserts: its code is its ID, and it was never clicked.\<close>

definition insertable :: "string \<Rightarrow> url_mapping \<Rightarrow> bool" where
  "insertable c m = (m_ID m = c \<and> m_ClickCount m = 0 \<and> m_LastAccessed m = None)"

text \<open>The body of \<^verbatim>\<open>Update\<close>, in the source's order; each \<open>case\<close> is one \<^verbatim>\<open>if\<close> or \<^verbatim>\<open>switch\<close>.\<close>

definition upd_url :: "update_fields \<Rightarrow> url_mapping \<Rightarrow> url_mapping" where
  "upd_url f m = (case f_OriginalURL f of None \<Rightarrow> m | Some u \<Rightarrow> m\<lparr>m_OriginalURL := u\<rparr>)"

definition upd_expiry :: "update_fields \<Rightarrow> url_mapping \<Rightarrow> url_mapping" where
  "upd_expiry f m =
     (if f_ClearExpiration f then m\<lparr>m_ExpiresAt := None\<rparr>
      else case f_ExpiresAt f of None \<Rightarrow> m | Some t \<Rightarrow> m\<lparr>m_ExpiresAt := Some t\<rparr>)"

definition upd_tags_cap :: "update_fields \<Rightarrow> url_mapping \<Rightarrow> url_mapping" where
  "upd_tags_cap f m =
     (let m1 = (case f_Tags f of None \<Rightarrow> m | Some ts \<Rightarrow> m\<lparr>m_Tags := ts\<rparr>)
      in case f_MaxClicks f of None \<Rightarrow> m1 | Some n \<Rightarrow> m1\<lparr>m_MaxClicks := n\<rparr>)"

definition upd_password :: "update_fields \<Rightarrow> url_mapping \<Rightarrow> url_mapping" where
  "upd_password f m =
     (if f_ClearPassword f then m\<lparr>m_PasswordHash := [], m_PasswordSalt := []\<rparr>
      else case f_PasswordHash f of None \<Rightarrow> m
        | Some h \<Rightarrow> m\<lparr>m_PasswordHash := h, m_PasswordSalt := f_PasswordSalt f\<rparr>)"

definition upd_webhook :: "update_fields \<Rightarrow> url_mapping \<Rightarrow> url_mapping" where
  "upd_webhook f m =
     (if f_ClearWebhook f then m\<lparr>m_WebhookURL := '''', m_WebhookSecret := []\<rparr>
      else case f_WebhookURL f of None \<Rightarrow> m
        | Some u \<Rightarrow> (let m1 = m\<lparr>m_WebhookURL := u\<rparr> in
            case f_WebhookSecret f of None \<Rightarrow> m1 | Some s \<Rightarrow> m1\<lparr>m_WebhookSecret := s\<rparr>))"

definition upd_apikey :: "update_fields \<Rightarrow> url_mapping \<Rightarrow> url_mapping" where
  "upd_apikey f m = (case f_APIKeyID f of None \<Rightarrow> m | Some i \<Rightarrow> m\<lparr>m_APIKeyID := i\<rparr>)"

definition upd_title :: "update_fields \<Rightarrow> url_mapping \<Rightarrow> url_mapping" where
  "upd_title f m = (case f_PreviewTitle f of None \<Rightarrow> m | Some x \<Rightarrow> m\<lparr>m_PreviewTitle := x\<rparr>)"

definition upd_image :: "update_fields \<Rightarrow> url_mapping \<Rightarrow> url_mapping" where
  "upd_image f m = (case f_PreviewImage f of None \<Rightarrow> m | Some x \<Rightarrow> m\<lparr>m_PreviewImage := x\<rparr>)"

definition upd_description :: "time \<Rightarrow> update_fields \<Rightarrow> url_mapping \<Rightarrow> url_mapping" where
  "upd_description now f m =
     (let m1 = (case f_PreviewDescription f of None \<Rightarrow> m | Some x \<Rightarrow> m\<lparr>m_PreviewDescription := x\<rparr>)
      in if f_SetPreviewFetched f then m1\<lparr>m_PreviewFetchedAt := Some now\<rparr> else m1)"

definition upd_destinations :: "update_fields \<Rightarrow> url_mapping \<Rightarrow> url_mapping" where
  "upd_destinations f m = (case f_Destinations f of None \<Rightarrow> m | Some ds \<Rightarrow> m\<lparr>m_Destinations := ds\<rparr>)"

definition apply_update :: "time \<Rightarrow> update_fields \<Rightarrow> url_mapping \<Rightarrow> url_mapping" where
  "apply_update now f m =
     upd_destinations f (upd_description now f (upd_image f (upd_title f (upd_apikey f
       (upd_webhook f (upd_password f (upd_tags_cap f (upd_expiry f (upd_url f m)))))))))"

text \<open>
  Each stage as one record update of the fields it may write, and from these the whole of
  \<^verbatim>\<open>Update\<close> as one record update: a field outside it is left alone.
\<close>

lemma upd_url_eq: "upd_url f m = m\<lparr>m_OriginalURL := opt_or (m_OriginalURL m) (f_OriginalURL f)\<rparr>"
  by (simp add: upd_url_def split: option.split)

lemma upd_expiry_eq: "upd_expiry f m = m\<lparr>m_ExpiresAt :=
    if f_ClearExpiration f then None else if f_ExpiresAt f = None then m_ExpiresAt m else f_ExpiresAt f\<rparr>"
  by (simp add: upd_expiry_def split: option.split)

lemma upd_tags_cap_eq: "upd_tags_cap f m = m\<lparr>m_Tags := opt_or (m_Tags m) (f_Tags f),
    m_MaxClicks := opt_or (m_MaxClicks m) (f_MaxClicks f)\<rparr>"
  by (simp add: upd_tags_cap_def Let_def split: option.split)

lemma upd_password_eq: "upd_password f m = m\<lparr>
    m_PasswordHash := if f_ClearPassword f then [] else opt_or (m_PasswordHash m) (f_PasswordHash f),
    m_PasswordSalt := if f_ClearPassword f then []
      else opt_or (m_PasswordSalt m) (map_option (\<lambda>_. f_PasswordSalt f) (f_PasswordHash f))\<rparr>"
  by (simp add: upd_password_def split: option.split)

lemma upd_webhook_eq: "upd_webhook f m = m\<lparr>
    m_WebhookURL := if f_ClearWebhook f then '''' else opt_or (m_WebhookURL m) (f_WebhookURL f),
    m_WebhookSecret := if f_ClearWebhook f then []
      else opt_or (m_WebhookSecret m) (if f_WebhookURL f = None then None else f_WebhookSecret f)\<rparr>"
  by (simp add: upd_webhook_def Let_def split: option.split)

lemma upd_apikey_eq: "upd_apikey f m = m\<lparr>m_APIKeyID := opt_or (m_APIKeyID m) (f_APIKeyID f)\<rparr>"
  by (simp add: upd_apikey_def split: option.split)

lemma upd_title_eq: "upd_title f m = m\<lparr>m_PreviewTitle := opt_or (m_PreviewTitle m) (f_PreviewTitle f)\<rparr>"
  by (simp add: upd_title_def split: option.split)

lemma upd_image_eq: "upd_image f m = m\<lparr>m_PreviewImage := opt_or (m_PreviewImage m) (f_PreviewImage f)\<rparr>"
  by (simp add: upd_image_def split: option.split)

lemma upd_description_eq: "upd_description now f m = m\<lparr>
    m_PreviewDescription := opt_or (m_PreviewDescription m) (f_PreviewDescription f),
    m_PreviewFetchedAt := if f_SetPreviewFetched f then Some now else m_PreviewFetchedAt m\<rparr>"
  by (simp add: upd_description_def Let_def split: option.split)

lemma upd_destinations_eq: "upd_destinations f m = m\<lparr>m_Destinations := opt_or (m_Destinations m) (f_Destinations f)\<rparr>"
  by (simp add: upd_destinations_def split: option.split)

lemmas upd_stages = upd_url_eq upd_expiry_eq upd_tags_cap_eq upd_password_eq upd_webhook_eq
  upd_apikey_eq upd_title_eq upd_image_eq upd_description_eq upd_destinations_eq

text \<open>What \<^verbatim>\<open>Update\<close> never touches: the identity, the creation time, the owner and the counters.\<close>

lemma apply_update_frame [simp]:
  "m_ID (apply_update t f m) = m_ID m"
  "m_CreatedAt (apply_update t f m) = m_CreatedAt m"
  "m_OwnerTokenHash (apply_update t f m) = m_OwnerTokenHash m"
  "m_ClickCount (apply_update t f m) = m_ClickCount m"
  "m_LastAccessed (apply_update t f m) = m_LastAccessed m"
  by (simp_all add: apply_update_def upd_stages)

text \<open>What each field of the payload leads to.\<close>

lemma apply_update_fields:
  "m_OriginalURL (apply_update t f m) = opt_or (m_OriginalURL m) (f_OriginalURL f)"
  "m_ExpiresAt (apply_update t f m) =
     (if f_ClearExpiration f then None else if f_ExpiresAt f = None then m_ExpiresAt m else f_ExpiresAt f)"
  "m_Tags (apply_update t f m) = opt_or (m_Tags m) (f_Tags f)"
  "m_MaxClicks (apply_update t f m) = opt_or (m_MaxClicks m) (f_MaxClicks f)"
  "m_PasswordHash (apply_update t f m) =
     (if f_ClearPassword f then [] else opt_or (m_PasswordHash m) (f_PasswordHash f))"
  "m_PasswordSalt (apply_update t f m) = (if f_ClearPassword f then []
     else opt_or (m_PasswordSalt m) (map_option (\<lambda>_. f_PasswordSalt f) (f_PasswordHash f)))"
  "m_APIKeyID (apply_update t f m) = opt_or (m_APIKeyID m) (f_APIKeyID f)"
  "m_Destinations (apply_update t f m) = opt_or (m_Destinations m) (f_Destinations f)"
  by (simp_all add: apply_update_def upd_stages)

lemma apply_update_webhook:
  "m_WebhookURL (apply_update t f m) =
     (if f_ClearWebhook f then '''' else opt_or (m_WebhookURL m) (f_WebhookURL f))"
  "m_WebhookSecret (apply_update t f m) = (if f_ClearWebhook f then []
     else opt_or (m_WebhookSecret m) (if f_WebhookURL f = None then None else f_WebhookSecret f))"
  by (simp_all add: apply_update_def upd_stages)

lemma apply_update_preview:
  "m_PreviewTitle (apply_update t f m) = opt_or (m_PreviewTitle m) (f_PreviewTitle f)"
  "m_PreviewImage (apply_update t f m) = opt_or (m_PreviewImage m) (f_PreviewImage f)"
  "m_PreviewDescription (apply_update t f m) = opt_or (m_PreviewDescription m) (f_PreviewDescription f)"
  "m_PreviewFetchedAt (apply_update t f m) = (if f_SetPreviewFetched f then Some t else m_PreviewFetchedAt m)"
  by (simp_all add: apply_update_def upd_stages)

text \<open>Two mappings with the same fields are the same.\<close>

lemma mapping_eqI:
  assumes "m_ID m = m_ID n" "m_OriginalURL m = m_OriginalURL n" "m_CreatedAt m = m_CreatedAt n" "m_ExpiresAt m = m_ExpiresAt n"
    "m_ClickCount m = m_ClickCount n" "m_LastAccessed m = m_LastAccessed n" "m_OwnerTokenHash m = m_OwnerTokenHash n"
    "m_Tags m = m_Tags n" "m_MaxClicks m = m_MaxClicks n" "m_PasswordHash m = m_PasswordHash n"
    "m_PasswordSalt m = m_PasswordSalt n" "m_WebhookURL m = m_WebhookURL n" "m_WebhookSecret m = m_WebhookSecret n"
    "m_APIKeyID m = m_APIKeyID n" "m_PreviewTitle m = m_PreviewTitle n" "m_PreviewImage m = m_PreviewImage n"
    "m_PreviewDescription m = m_PreviewDescription n" "m_PreviewFetchedAt m = m_PreviewFetchedAt n"
    "m_Destinations m = m_Destinations n"
  shows "m = (n :: url_mapping)"
  using assms by simp

lemma apply_no_update: "apply_update t no_update m = m"
  by (simp add: apply_update_def upd_stages no_update_def)

text \<open>
  The effect of one click on a mapping. The counter is an \<^verbatim>\<open>int64\<close> that only ever grows by
  one, so it stays below \<open>2 ^ 63\<close> in any run and is not wrapped.
\<close>

definition click_mapping :: "click_event \<Rightarrow> url_mapping \<Rightarrow> url_mapping" where
  "click_mapping ev m = m\<lparr>m_ClickCount := m_ClickCount m + 1, m_LastAccessed := Some (ev_At ev)\<rparr>"

section \<open>What a backend keeps of a time\<close>

text \<open>
  A backend may keep less of a time than the program has: the SQL backends store nanoseconds in
  64-bit columns. \<open>norm\<close> is what is left of a time that was stored and read back, and
  \<open>norm_mapping norm m\<close> the mapping that is read back for \<open>m\<close>.
\<close>

definition norm_mapping :: "(time \<Rightarrow> time) \<Rightarrow> url_mapping \<Rightarrow> url_mapping" where
  "norm_mapping norm m = m\<lparr>m_CreatedAt := norm (m_CreatedAt m), m_ExpiresAt := map_option norm (m_ExpiresAt m),
     m_LastAccessed := map_option norm (m_LastAccessed m), m_PreviewFetchedAt := map_option norm (m_PreviewFetchedAt m)\<rparr>"

lemma norm_mapping_id: "norm_mapping (\<lambda>t. t) m = m"
  by (simp add: norm_mapping_def option.map_ident)

lemma norm_mapping_sel [simp]:
  "m_ID (norm_mapping norm m) = m_ID m" "m_OwnerTokenHash (norm_mapping norm m) = m_OwnerTokenHash m"
  "m_APIKeyID (norm_mapping norm m) = m_APIKeyID m" "m_OriginalURL (norm_mapping norm m) = m_OriginalURL m"
  "m_ClickCount (norm_mapping norm m) = m_ClickCount m" "m_MaxClicks (norm_mapping norm m) = m_MaxClicks m"
  "m_Destinations (norm_mapping norm m) = m_Destinations m" "m_PasswordHash (norm_mapping norm m) = m_PasswordHash m"
  "m_ExpiresAt (norm_mapping norm m) = map_option norm (m_ExpiresAt m)"
  by (simp_all add: norm_mapping_def)

text \<open>
  A payload sets the webhook's URL together with its secret, as the comment on \<^verbatim>\<open>UpdateFields\<close>
  asks; the backends differ on a payload that does not.
\<close>

definition paired :: "update_fields \<Rightarrow> bool" where
  "paired f = (f_ClearWebhook f \<or> f_WebhookURL f = None \<or> f_WebhookSecret f \<noteq> None)"

section \<open>The contract of the mapping operations\<close>

locale url_store =
  fixes ops :: "'s store_ops"
    and valid :: "'s \<Rightarrow> bool"
    and view :: "'s \<Rightarrow> string \<Rightarrow> url_mapping option"
    and norm :: "time \<Rightarrow> time"
  assumes set_fresh: "valid s \<Longrightarrow> insertable c m \<Longrightarrow> view s c = None \<Longrightarrow>
      snd (st_Set ops c m s) = None \<and> view (fst (st_Set ops c m s)) = (view s)(c \<mapsto> norm_mapping norm m)"
    and set_conflict: "valid s \<Longrightarrow> view s c = Some m' \<Longrightarrow> st_Set ops c m s = (s, Some ErrCodeConflict)"
    and set_valid: "valid s \<Longrightarrow> insertable c m \<Longrightarrow> valid (fst (st_Set ops c m s))"
    and get_spec: "valid s \<Longrightarrow> st_Get ops t c s =
      (case view s c of None \<Rightarrow> Inl ErrNotFound
        | Some m \<Rightarrow> if expired_at t m then Inl ErrExpired else Inr m)"
    and exists_spec: "valid s \<Longrightarrow> st_Exists ops c s = (view s c \<noteq> None)"
    and delete_view: "valid s \<Longrightarrow> view (fst (st_Delete ops c s)) = (view s)(c := None)"
    and delete_result: "valid s \<Longrightarrow> snd (st_Delete ops c s) = (if view s c = None then Some ErrNotFound else None)"
    and delete_valid: "valid s \<Longrightarrow> valid (fst (st_Delete ops c s))"
    and click_view: "valid s \<Longrightarrow> view (fst (st_RecordClick ops c ev s)) =
      (case view s c of None \<Rightarrow> view s | Some m \<Rightarrow> (view s)(c \<mapsto> norm_mapping norm (click_mapping ev m)))"
    and click_result: "valid s \<Longrightarrow> snd (st_RecordClick ops c ev s) = (if view s c = None then Some ErrNotFound else None)"
    and click_valid: "valid s \<Longrightarrow> valid (fst (st_RecordClick ops c ev s))"
    and update_view: "valid s \<Longrightarrow> paired f \<Longrightarrow> view (fst (st_Update ops t c f s)) =
      (case view s c of None \<Rightarrow> view s | Some m \<Rightarrow> (view s)(c \<mapsto> norm_mapping norm (apply_update t f m)))"
    and update_result: "valid s \<Longrightarrow> snd (st_Update ops t c f s) = (if view s c = None then Some ErrNotFound else None)"
    and update_valid: "valid s \<Longrightarrow> valid (fst (st_Update ops t c f s))"
    and rotate_view: "valid s \<Longrightarrow> view (fst (st_RotateToken ops c h s)) =
      (case view s c of None \<Rightarrow> view s | Some m \<Rightarrow> (view s)(c \<mapsto> m\<lparr>m_OwnerTokenHash := h\<rparr>))"
    and rotate_result: "valid s \<Longrightarrow> snd (st_RotateToken ops c h s) = (if view s c = None then Some ErrNotFound else None)"
    and rotate_valid: "valid s \<Longrightarrow> valid (fst (st_RotateToken ops c h s))"
    and audit_view: "valid s \<Longrightarrow> view (fst (st_LogAudit ops t e s)) = view s"
    and audit_valid: "valid s \<Longrightarrow> valid (fst (st_LogAudit ops t e s))"
begin

lemmas view_laws = delete_view delete_result click_view click_result update_view update_result
  rotate_view rotate_result audit_view

lemmas valid_laws = set_valid delete_valid click_valid update_valid rotate_valid audit_valid

text \<open>\<^verbatim>\<open>Set\<close> is not an upsert: it succeeds exactly on a free code, and otherwise changes nothing.\<close>

lemma set_result: "valid s \<Longrightarrow> insertable c m \<Longrightarrow>
    snd (st_Set ops c m s) = (if view s c = None then None else Some ErrCodeConflict)"
  by (cases "view s c") (simp_all add: set_fresh set_conflict)

lemma set_view: "valid s \<Longrightarrow> insertable c m \<Longrightarrow> view (fst (st_Set ops c m s)) =
    (case view s c of None \<Rightarrow> (view s)(c \<mapsto> norm_mapping norm m) | Some m' \<Rightarrow> view s)"
  by (cases "view s c") (simp_all add: set_fresh set_conflict)

lemma get_Inr: "valid s \<Longrightarrow> st_Get ops t c s = Inr m \<Longrightarrow> view s c = Some m \<and> \<not> expired_at t m"
  by (simp add: get_spec split: option.splits if_splits)

lemma get_Inl: "valid s \<Longrightarrow> st_Get ops t c s = Inl e \<Longrightarrow> e = ErrNotFound \<or> e = ErrExpired"
  by (auto simp: get_spec split: option.splits if_splits)

end

section \<open>The contract of the API-key operations\<close>

text \<open>
  \<open>owner s h\<close> is the ID of the live key whose token hash is \<open>h\<close>. A key ID is positive, so the
  zero of \<^verbatim>\<open>APIKeyID\<close> never names a key.
\<close>

locale key_store = url_store ops valid view norm
  for ops :: "'s store_ops" and valid view norm +
  fixes owner :: "'s \<Rightarrow> bytes \<Rightarrow> int option"
  assumes owner_pos: "valid s \<Longrightarrow> owner s h = Some i \<Longrightarrow> 0 < i"
    and lookup_miss: "valid s \<Longrightarrow> owner s h = None \<Longrightarrow> st_LookupAPIKey ops t h s = (s, Inl ErrNotFound)"
    and lookup_hit: "valid s \<Longrightarrow> owner s h = Some i \<Longrightarrow>
      \<exists>s' k. st_LookupAPIKey ops t h s = (s', Inr k) \<and> k_ID k = i \<and> k_TokenHash k = h"
    and lookup_view: "valid s \<Longrightarrow> view (fst (st_LookupAPIKey ops t h s)) = view s"
    and lookup_owner: "valid s \<Longrightarrow> owner (fst (st_LookupAPIKey ops t h s)) = owner s"
    and lookup_valid: "valid s \<Longrightarrow> valid (fst (st_LookupAPIKey ops t h s))"
    and set_owner: "valid s \<Longrightarrow> insertable c m \<Longrightarrow> owner (fst (st_Set ops c m s)) = owner s"
    and delete_owner: "valid s \<Longrightarrow> owner (fst (st_Delete ops c s)) = owner s"
    and click_owner: "valid s \<Longrightarrow> owner (fst (st_RecordClick ops c ev s)) = owner s"
    and update_owner: "valid s \<Longrightarrow> owner (fst (st_Update ops t c f s)) = owner s"
    and rotate_owner: "valid s \<Longrightarrow> owner (fst (st_RotateToken ops c h s)) = owner s"
    and audit_owner: "valid s \<Longrightarrow> owner (fst (st_LogAudit ops t e s)) = owner s"
    and create_key: "valid s \<Longrightarrow> owner s h = None \<Longrightarrow>
      \<exists>s' k. st_CreateAPIKey ops t l h s = (s', Inr k) \<and> valid s' \<and> view s' = view s
        \<and> owner s' = (owner s)(h \<mapsto> k_ID k) \<and> k_ID k \<notin> ran (owner s) \<and> k_Label k = l
        \<and> k_CreatedAt k = t"
    and delete_key: "valid s \<Longrightarrow> owner s h = Some i \<Longrightarrow>
      \<exists>s'. st_DeleteAPIKey ops i s = (s', None) \<and> valid s' \<and> owner s' = (owner s)(h := None)
        \<and> view s' = (\<lambda>c. map_option (\<lambda>m. if m_APIKeyID m = i then m\<lparr>m_APIKeyID := 0\<rparr> else m) (view s c))"
    and label_key: "valid s \<Longrightarrow> owner s h = Some i \<Longrightarrow>
      \<exists>s'. st_UpdateAPIKeyLabel ops i l s = (s', None) \<and> valid s' \<and> owner s' = owner s \<and> view s' = view s"
begin

lemmas owner_laws = lookup_view lookup_owner delete_owner click_owner update_owner rotate_owner audit_owner

text \<open>A lookup answers with the owner's ID, whatever else it writes.\<close>

lemma lookup_result: "valid s \<Longrightarrow>
    (case snd (st_LookupAPIKey ops t h s) of Inl e \<Rightarrow> None | Inr k \<Rightarrow> Some (k_ID k)) = owner s h"
  by (cases "owner s h") (auto simp: lookup_miss dest: lookup_hit [where t = t])

lemma lookup_Inr: "valid s \<Longrightarrow> st_LookupAPIKey ops t h s = (s', Inr k) \<Longrightarrow> owner s h = Some (k_ID k)"
  using lookup_result [of s t h] by simp

lemma lookup_Inl: "valid s \<Longrightarrow> st_LookupAPIKey ops t h s = (s', Inl e) \<Longrightarrow> owner s h = None"
  using lookup_result [of s t h] by simp

lemma lookup_frame: "valid s \<Longrightarrow> st_LookupAPIKey ops t h s = (s', r) \<Longrightarrow>
    view s' = view s \<and> owner s' = owner s \<and> valid s'"
  using lookup_view [of s t h] lookup_owner [of s t h] lookup_valid [of s t h] by simp

end

section \<open>The contract of the cleanup pass\<close>

text \<open>
  A pass of the cleanup goroutine at time \<open>t\<close> removes exactly the mappings that have expired, as far
  as the backend can tell the time. What a backend holds is what it would read back again.
\<close>

locale cleaned_store = key_store ops valid view norm owner
  for ops :: "'s store_ops" and valid view norm owner +
  fixes cleanup :: "time \<Rightarrow> 's \<Rightarrow> 's"
  assumes cleanup_valid: "valid s \<Longrightarrow> valid (cleanup t s)"
    and cleanup_view: "valid s \<Longrightarrow> view (cleanup t s) c =
      (case view s c of None \<Rightarrow> None | Some m \<Rightarrow> if expired_at (norm t) m then None else Some m)"
    and stored_normal: "valid s \<Longrightarrow> view s c = Some m \<Longrightarrow> norm_mapping norm m = m"
begin

lemma cleanup_subset: "valid s \<Longrightarrow> view (cleanup t s) c = None \<or> view (cleanup t s) c = view s c"
  by (simp add: cleanup_view split: option.split)

lemma cleanup_keeps: "valid s \<Longrightarrow> \<not> (case view s c of None \<Rightarrow> False | Some m \<Rightarrow> expired_at (norm t) m) \<Longrightarrow>
    view (cleanup t s) c = view s c"
  by (cases "view s c") (simp_all add: cleanup_view)

end

section \<open>The contract on key IDs\<close>

text \<open>
  \<open>issued\<close> is the last key ID handed out. IDs are never reused, a key that is gone can be neither
  revoked nor renamed, and the cleanup pass leaves the keys alone.
\<close>

locale serial_store = cleaned_store ops valid view norm owner cleanup
  for ops :: "'s store_ops" and valid view norm owner cleanup +
  fixes issued :: "'s \<Rightarrow> int"
  assumes owner_issued: "valid s \<Longrightarrow> owner s h = Some i \<Longrightarrow> i \<le> issued s"
    and create_issued: "valid s \<Longrightarrow> owner s h = None \<Longrightarrow> st_CreateAPIKey ops t l h s = (s', Inr k) \<Longrightarrow>
      issued s < k_ID k \<and> k_ID k \<le> issued s'"
    and delete_key_gone: "valid s \<Longrightarrow> i \<notin> ran (owner s) \<Longrightarrow> fst (st_DeleteAPIKey ops i s) = s"
    and label_key_gone: "valid s \<Longrightarrow> i \<notin> ran (owner s) \<Longrightarrow> fst (st_UpdateAPIKeyLabel ops i l s) = s"
    and cleanup_owner: "valid s \<Longrightarrow> owner (cleanup t s) = owner s"
    and set_issued: "issued (fst (st_Set ops c m s)) = issued s"
    and delete_issued: "issued (fst (st_Delete ops c s)) = issued s"
    and click_issued: "issued (fst (st_RecordClick ops c ev s)) = issued s"
    and update_issued: "issued (fst (st_Update ops t c f s)) = issued s"
    and rotate_issued: "issued (fst (st_RotateToken ops c h s)) = issued s"
    and audit_issued: "issued (fst (st_LogAudit ops t e s)) = issued s"
    and lookup_issued: "issued (fst (st_LookupAPIKey ops t h s)) = issued s"
    and delete_key_issued: "issued (fst (st_DeleteAPIKey ops i s)) = issued s"
    and label_key_issued: "issued (fst (st_UpdateAPIKeyLabel ops i l s)) = issued s"
    and cleanup_issued: "issued (cleanup t s) = issued s"
begin

lemmas issued_frame = set_issued delete_issued click_issued update_issued rotate_issued audit_issued lookup_issued
  delete_key_issued label_key_issued cleanup_issued

end

end
