(* ===== verification/Mem_Store.thy ===== *)
theory Mem_Store
  imports Store_Iface
begin

text \<open>
  The memory backend of \<^verbatim>\<open>services/storage.go\<close> (\<^verbatim>\<open>MemoryStore\<close>). Each method holds the
  store's mutex for its whole body, so a method is one function on the state; \<open>mem_ops\<close> is the
  method table. The invariant \<open>mem_inv\<close> is kept by every operation, and the interpretation at
  the end shows that the store meets the contract of the \<^verbatim>\<open>Store\<close> interface.
\<close>

section \<open>State\<close>

record mem_store =
  s_urls :: "(string, url_mapping) gomap"
  s_events :: "(string, click_event list) gomap"
  s_apiKeys :: "(int, api_key) gomap"
  s_nextKeyID :: int
  s_audit :: "audit_event list"
  s_nextAuditID :: int

definition memoryClickCapPerCode :: nat where
  "memoryClickCapPerCode = 1000"

definition memoryAuditCap :: nat where
  "memoryAuditCap = 1000"

definition NewMemoryStore :: mem_store where
  "NewMemoryStore = \<lparr>s_urls = [], s_events = [], s_apiKeys = [], s_nextKeyID = 0,
     s_audit = [], s_nextAuditID = 0\<rparr>"

text \<open>Reading a Go map of slices at an absent key gives the nil slice.\<close>

definition events_of :: "mem_store \<Rightarrow> string \<Rightarrow> click_event list" where
  "events_of s code = opt_or [] (map_of (s_events s) code)"

section \<open>Mappings\<close>

definition mem_Set :: "string \<Rightarrow> url_mapping \<Rightarrow> mem_store \<Rightarrow> mem_store \<times> store_err option" where
  "mem_Set code m s =
     (case map_of (s_urls s) code of
        Some _ \<Rightarrow> (s, Some ErrCodeConflict)
      | None \<Rightarrow> (s\<lparr>s_urls := AList.update code m (s_urls s)\<rparr>, None))"

definition mem_Get :: "time \<Rightarrow> string \<Rightarrow> mem_store \<Rightarrow> store_err + url_mapping" where
  "mem_Get now code s =
     (case map_of (s_urls s) code of
        None \<Rightarrow> Inl ErrNotFound
      | Some snap \<Rightarrow> if expired_at now snap then Inl ErrExpired else Inr snap)"

definition mem_Delete :: "string \<Rightarrow> mem_store \<Rightarrow> mem_store \<times> store_err option" where
  "mem_Delete code s =
     (case map_of (s_urls s) code of
        None \<Rightarrow> (s, Some ErrNotFound)
      | Some _ \<Rightarrow> (s\<lparr>s_urls := AList.delete code (s_urls s), s_events := AList.delete code (s_events s)\<rparr>, None))"

definition mem_Exists :: "string \<Rightarrow> mem_store \<Rightarrow> bool" where
  "mem_Exists code s = (map_of (s_urls s) code \<noteq> None)"

definition mem_RotateToken :: "string \<Rightarrow> bytes \<Rightarrow> mem_store \<Rightarrow> mem_store \<times> store_err option" where
  "mem_RotateToken code newHash s =
     (case map_of (s_urls s) code of
        None \<Rightarrow> (s, Some ErrNotFound)
      | Some m \<Rightarrow> (s\<lparr>s_urls := AList.update code (m\<lparr>m_OwnerTokenHash := newHash\<rparr>) (s_urls s)\<rparr>, None))"

definition mem_Update :: "time \<Rightarrow> string \<Rightarrow> update_fields \<Rightarrow> mem_store \<Rightarrow> mem_store \<times> store_err option" where
  "mem_Update now code f s =
     (case map_of (s_urls s) code of
        None \<Rightarrow> (s, Some ErrNotFound)
      | Some m \<Rightarrow> (s\<lparr>s_urls := AList.update code (apply_update now f m) (s_urls s)\<rparr>, None))"

definition mem_cleanupExpired :: "time \<Rightarrow> mem_store \<Rightarrow> mem_store" where
  "mem_cleanupExpired now s = s\<lparr>s_urls := filter (\<lambda>kv. \<not> expired_at now (snd kv)) (s_urls s)\<rparr>"

section \<open>Clicks\<close>

definition mem_RecordClick :: "string \<Rightarrow> click_event \<Rightarrow> mem_store \<Rightarrow> mem_store \<times> store_err option" where
  "mem_RecordClick code ev s =
     (case map_of (s_urls s) code of
        None \<Rightarrow> (s, Some ErrNotFound)
      | Some m \<Rightarrow>
          (s\<lparr>s_urls := AList.update code (click_mapping ev m) (s_urls s),
             s_events := AList.update code (push_capped memoryClickCapPerCode (events_of s code) ev) (s_events s)\<rparr>,
           None))"

definition mem_RecentClicks :: "string \<Rightarrow> int \<Rightarrow> mem_store \<Rightarrow> store_err + click_event list" where
  "mem_RecentClicks code limit s =
     (case map_of (s_urls s) code of
        None \<Rightarrow> Inl ErrNotFound
      | Some _ \<Rightarrow>
          (let list = events_of s code;
               l1 = (if limit \<le> 0 then 50 else limit);
               l2 = (if l1 > int (length list) then int (length list) else l1)
           in Inr (map (\<lambda>i. list ! (length list - 1 - i)) [0..<nat l2])))"

text \<open>
  \<^verbatim>\<open>ClicksByBucket\<close>: the loop increments one counter per event inside the window
  \<open>[windowStart, until)\<close>. For \<open>count <= 0\<close> the code returns the nil slice.
\<close>

definition bucket_step :: "time \<Rightarrow> time \<Rightarrow> duration \<Rightarrow> int \<Rightarrow> click_event \<Rightarrow> int list \<Rightarrow> int list" where
  "bucket_step windowStart until bucket count ev out =
     (if ev_At ev < windowStart \<or> \<not> ev_At ev < until then out
      else (let idx = time_sub (ev_At ev) windowStart div bucket in
        if 0 \<le> idx \<and> idx < count then out[nat idx := out ! nat idx + 1] else out))"

definition mem_ClicksByBucket :: "string \<Rightarrow> time \<Rightarrow> duration \<Rightarrow> int \<Rightarrow> mem_store \<Rightarrow> store_err + int list" where
  "mem_ClicksByBucket code until bucket count s =
     (if count \<le> 0 \<or> bucket \<le> 0 then Inr []
      else case map_of (s_urls s) code of
        None \<Rightarrow> Inl ErrNotFound
      | Some _ \<Rightarrow>
          (let windowStart = until + wrap64 (- count * bucket)
           in Inr (fold (bucket_step windowStart until bucket count) (events_of s code)
                (replicate (nat count) 0))))"

section \<open>API keys\<close>

text \<open>The constant-time comparison: the loop ORs the differences of the bytes.\<close>

definition bytesEqualConstTime :: "bytes \<Rightarrow> bytes \<Rightarrow> bool" where
  "bytesEqualConstTime a b =
     (if length a \<noteq> length b then False
      else fold (\<lambda>(x, y) v. or v (xor x y)) (zip a b) 0 = 0)"

definition mem_CreateAPIKey :: "time \<Rightarrow> string \<Rightarrow> bytes \<Rightarrow> mem_store \<Rightarrow> mem_store \<times> (store_err + api_key)" where
  "mem_CreateAPIKey now label tokenHash s =
     (let n = s_nextKeyID s + 1;
          k = \<lparr>k_ID = n, k_TokenHash = tokenHash, k_Label = label, k_CreatedAt = now, k_LastUsedAt = None\<rparr>
      in (s\<lparr>s_nextKeyID := n, s_apiKeys := AList.update n k (s_apiKeys s)\<rparr>, Inr k))"

text \<open>The \<^verbatim>\<open>range\<close> loop of \<^verbatim>\<open>LookupAPIKey\<close>: the first visited key whose hash matches.\<close>

fun find_key :: "bytes \<Rightarrow> (int, api_key) gomap \<Rightarrow> (int \<times> api_key) option" where
  "find_key h [] = None"
| "find_key h ((i, k) # ks) = (if bytesEqualConstTime (k_TokenHash k) h then Some (i, k) else find_key h ks)"

definition mem_LookupAPIKey :: "time \<Rightarrow> bytes \<Rightarrow> mem_store \<Rightarrow> mem_store \<times> (store_err + api_key)" where
  "mem_LookupAPIKey now tokenHash s =
     (case find_key tokenHash (s_apiKeys s) of
        None \<Rightarrow> (s, Inl ErrNotFound)
      | Some (i, k) \<Rightarrow>
          (let k' = k\<lparr>k_LastUsedAt := Some now\<rparr>
           in (s\<lparr>s_apiKeys := AList.update i k' (s_apiKeys s)\<rparr>, Inr k')))"

definition mem_GetAPIKey :: "int \<Rightarrow> mem_store \<Rightarrow> store_err + api_key" where
  "mem_GetAPIKey i s = (case map_of (s_apiKeys s) i of None \<Rightarrow> Inl ErrNotFound | Some k \<Rightarrow> Inr k)"

definition release_key :: "int \<Rightarrow> url_mapping \<Rightarrow> url_mapping" where
  "release_key i u = (if m_APIKeyID u = i then u\<lparr>m_APIKeyID := 0\<rparr> else u)"

definition mem_DeleteAPIKey :: "int \<Rightarrow> mem_store \<Rightarrow> mem_store \<times> store_err option" where
  "mem_DeleteAPIKey i s =
     (case map_of (s_apiKeys s) i of
        None \<Rightarrow> (s, Some ErrNotFound)
      | Some _ \<Rightarrow>
          (s\<lparr>s_apiKeys := AList.delete i (s_apiKeys s),
             s_urls := map (\<lambda>(c, u). (c, release_key i u)) (s_urls s)\<rparr>, None))"

definition mem_UpdateAPIKeyLabel :: "int \<Rightarrow> string \<Rightarrow> mem_store \<Rightarrow> mem_store \<times> store_err option" where
  "mem_UpdateAPIKeyLabel i label s =
     (case map_of (s_apiKeys s) i of
        None \<Rightarrow> (s, Some ErrNotFound)
      | Some k \<Rightarrow> (s\<lparr>s_apiKeys := AList.update i (k\<lparr>k_Label := label\<rparr>) (s_apiKeys s)\<rparr>, None))"

text \<open>
  \<^verbatim>\<open>sort.Slice\<close> by \<^verbatim>\<open>CreatedAt\<close>, newest first. The order of mappings created at the same
  instant is whatever the sort leaves; here it is the order the map was visited in.
\<close>

definition sortByCreatedAtDesc :: "url_mapping list \<Rightarrow> url_mapping list" where
  "sortByCreatedAtDesc = sort_key (\<lambda>u. - m_CreatedAt u)"

definition mem_ListURLsByAPIKey :: "int \<Rightarrow> int \<Rightarrow> int \<Rightarrow> mem_store \<Rightarrow> store_err + url_mapping list" where
  "mem_ListURLsByAPIKey i limit offset s =
     (let l1 = (if limit \<le> 0 then 50 else limit);
          matched = sortByCreatedAtDesc (filter (\<lambda>u. m_APIKeyID u = i) (map snd (s_urls s)));
          o1 = (if offset < 0 then 0 else offset);
          n = int (length matched)
      in if o1 \<ge> n then Inr []
         else (let e = wrap64 (o1 + l1); e1 = (if e > n then n else e)
           in if e1 < o1 then Inl Panicked
              else Inr (take (nat (e1 - o1)) (drop (nat o1) matched))))"

section \<open>Audit log\<close>

definition mem_LogAudit :: "time \<Rightarrow> audit_event \<Rightarrow> mem_store \<Rightarrow> mem_store \<times> store_err option" where
  "mem_LogAudit now ev s =
     (let n = s_nextAuditID s + 1;
          ev1 = ev\<lparr>a_ID := n, a_At := (case a_At ev of None \<Rightarrow> Some now | Some t \<Rightarrow> Some t)\<rparr>
      in (s\<lparr>s_nextAuditID := n, s_audit := push_capped memoryAuditCap (s_audit s) ev1\<rparr>, None))"

definition mem_RecentAuditEvents :: "int \<Rightarrow> int \<Rightarrow> mem_store \<Rightarrow> store_err + audit_event list" where
  "mem_RecentAuditEvents limit offset s =
     (let l1 = (if limit \<le> 0 then 50 else limit);
          o1 = (if offset < 0 then 0 else offset);
          total = int (length (s_audit s))
      in if o1 \<ge> total then Inr []
         else (let e = total - o1; start = (if e - l1 < 0 then 0 else e - l1)
           in Inr (map (\<lambda>i. s_audit s ! nat i) (rev [start..e - 1]))))"

section \<open>The method table\<close>

definition mem_ops :: "mem_store store_ops" where
  "mem_ops = \<lparr>st_Set = mem_Set, st_Get = mem_Get, st_Delete = mem_Delete, st_Exists = mem_Exists,
     st_RecordClick = mem_RecordClick, st_RecentClicks = mem_RecentClicks, st_Update = mem_Update,
     st_ClicksByBucket = mem_ClicksByBucket, st_RotateToken = mem_RotateToken,
     st_CreateAPIKey = mem_CreateAPIKey, st_LookupAPIKey = mem_LookupAPIKey, st_GetAPIKey = mem_GetAPIKey,
     st_DeleteAPIKey = mem_DeleteAPIKey, st_UpdateAPIKeyLabel = mem_UpdateAPIKeyLabel,
     st_ListURLsByAPIKey = mem_ListURLsByAPIKey, st_LogAudit = mem_LogAudit,
     st_RecentAuditEvents = mem_RecentAuditEvents\<rparr>"

lemma mem_ops_sel [simp]:
  "st_Set mem_ops = mem_Set" "st_Get mem_ops = mem_Get" "st_Delete mem_ops = mem_Delete"
  "st_Exists mem_ops = mem_Exists" "st_RecordClick mem_ops = mem_RecordClick"
  "st_RecentClicks mem_ops = mem_RecentClicks" "st_Update mem_ops = mem_Update"
  "st_ClicksByBucket mem_ops = mem_ClicksByBucket" "st_RotateToken mem_ops = mem_RotateToken"
  "st_CreateAPIKey mem_ops = mem_CreateAPIKey" "st_LookupAPIKey mem_ops = mem_LookupAPIKey"
  "st_GetAPIKey mem_ops = mem_GetAPIKey" "st_DeleteAPIKey mem_ops = mem_DeleteAPIKey"
  "st_UpdateAPIKeyLabel mem_ops = mem_UpdateAPIKeyLabel"
  "st_ListURLsByAPIKey mem_ops = mem_ListURLsByAPIKey" "st_LogAudit mem_ops = mem_LogAudit"
  "st_RecentAuditEvents mem_ops = mem_RecentAuditEvents"
  by (simp_all add: mem_ops_def)

lemmas mem_url_defs = mem_Set_def mem_Get_def mem_Delete_def mem_Exists_def mem_RotateToken_def
  mem_Update_def mem_RecordClick_def

lemmas mem_key_defs = mem_CreateAPIKey_def mem_LookupAPIKey_def mem_DeleteAPIKey_def
  mem_UpdateAPIKeyLabel_def

section \<open>The invariant\<close>

lemma xor_word_eq_0: "xor x y = 0 \<longleftrightarrow> x = (y :: 8 word)"
proof
  assume "xor x y = 0"
  then have "xor (xor x y) y = y" by simp
  then show "x = y" by (simp add: xor.assoc)
qed simp

lemma fold_or_xor_eq_0:
  "length a = length b \<Longrightarrow>
   fold (\<lambda>(x, y) v. or v (xor x y)) (zip a b) (v :: 8 word) = 0 \<longleftrightarrow> v = 0 \<and> a = b"
proof (induction a b arbitrary: v rule: list_induct2)
  case Nil
  show ?case by simp
next
  case (Cons x xs y ys)
  show ?case using Cons.IH [of "or v (xor x y)"] by (auto simp: or_eq_0_iff xor_word_eq_0)
qed

lemma bytesEqualConstTime_eq [simp]: "bytesEqualConstTime a b = (a = b)"
  by (auto simp: bytesEqualConstTime_def fold_or_xor_eq_0)

definition urls_inv :: "mem_store \<Rightarrow> bool" where
  "urls_inv s = (distinct_keys (s_urls s) \<and> (\<forall>c m. map_of (s_urls s) c = Some m \<longrightarrow> m_ID m = c))"

definition keys_inv :: "mem_store \<Rightarrow> bool" where
  "keys_inv s = (distinct_keys (s_apiKeys s) \<and> distinct (map (\<lambda>ik. k_TokenHash (snd ik)) (s_apiKeys s))
     \<and> (\<forall>(i, k) \<in> set (s_apiKeys s). k_ID k = i \<and> 0 < i \<and> i \<le> s_nextKeyID s) \<and> 0 \<le> s_nextKeyID s)"

definition events_inv :: "mem_store \<Rightarrow> bool" where
  "events_inv s = (distinct_keys (s_events s) \<and> (\<forall>c. length (events_of s c) \<le> memoryClickCapPerCode))"

definition audit_inv :: "mem_store \<Rightarrow> bool" where
  "audit_inv s = (length (s_audit s) \<le> memoryAuditCap
     \<and> map a_ID (s_audit s) = [s_nextAuditID s - int (length (s_audit s)) + 1..s_nextAuditID s])"

definition mem_inv :: "mem_store \<Rightarrow> bool" where
  "mem_inv s = (urls_inv s \<and> keys_inv s \<and> events_inv s \<and> audit_inv s)"

lemma mem_inv_new: "mem_inv NewMemoryStore"
  by (simp add: mem_inv_def urls_inv_def keys_inv_def events_inv_def audit_inv_def NewMemoryStore_def
      events_of_def)

text \<open>Each part of the invariant reads its own part of the state.\<close>

lemma inv_frames [simp]:
  "urls_inv (s\<lparr>s_events := e\<rparr>) = urls_inv s" "urls_inv (s\<lparr>s_apiKeys := k\<rparr>) = urls_inv s"
  "urls_inv (s\<lparr>s_nextKeyID := n\<rparr>) = urls_inv s" "urls_inv (s\<lparr>s_audit := a\<rparr>) = urls_inv s"
  "urls_inv (s\<lparr>s_nextAuditID := n\<rparr>) = urls_inv s"
  "keys_inv (s\<lparr>s_urls := u\<rparr>) = keys_inv s" "keys_inv (s\<lparr>s_events := e\<rparr>) = keys_inv s"
  "keys_inv (s\<lparr>s_audit := a\<rparr>) = keys_inv s" "keys_inv (s\<lparr>s_nextAuditID := n\<rparr>) = keys_inv s"
  "events_inv (s\<lparr>s_urls := u\<rparr>) = events_inv s" "events_inv (s\<lparr>s_apiKeys := k\<rparr>) = events_inv s"
  "events_inv (s\<lparr>s_nextKeyID := n\<rparr>) = events_inv s" "events_inv (s\<lparr>s_audit := a\<rparr>) = events_inv s"
  "events_inv (s\<lparr>s_nextAuditID := n\<rparr>) = events_inv s"
  "audit_inv (s\<lparr>s_urls := u\<rparr>) = audit_inv s" "audit_inv (s\<lparr>s_events := e\<rparr>) = audit_inv s"
  "audit_inv (s\<lparr>s_apiKeys := k\<rparr>) = audit_inv s" "audit_inv (s\<lparr>s_nextKeyID := n\<rparr>) = audit_inv s"
  by (simp_all add: urls_inv_def keys_inv_def events_inv_def audit_inv_def events_of_def)

lemma urls_inv_put: "urls_inv s \<Longrightarrow> m_ID m = c \<Longrightarrow> urls_inv (s\<lparr>s_urls := AList.update c m (s_urls s)\<rparr>)"
  by (auto simp: urls_inv_def split: if_splits)

lemma urls_inv_del: "urls_inv s \<Longrightarrow> urls_inv (s\<lparr>s_urls := AList.delete c (s_urls s)\<rparr>)"
  by (auto simp: urls_inv_def split: if_splits)

lemma urls_inv_ID: "urls_inv s \<Longrightarrow> map_of (s_urls s) c = Some m \<Longrightarrow> m_ID m = c"
  by (simp add: urls_inv_def)

lemma events_inv_push:
  "events_inv s \<Longrightarrow>
   events_inv (s\<lparr>s_events := AList.update c (push_capped memoryClickCapPerCode (events_of s c) e) (s_events s)\<rparr>)"
  by (auto simp: events_inv_def events_of_def memoryClickCapPerCode_def length_push_capped)

lemma events_inv_del: "events_inv s \<Longrightarrow> events_inv (s\<lparr>s_events := AList.delete c (s_events s)\<rparr>)"
  by (auto simp: events_inv_def events_of_def)

lemma keys_inv_put:
  assumes "keys_inv s" and "map_of (s_apiKeys s) i = Some k"
    and "k_ID k' = k_ID k" and "k_TokenHash k' = k_TokenHash k"
  shows "keys_inv (s\<lparr>s_apiKeys := AList.update i k' (s_apiKeys s)\<rparr>)"
proof -
  have mem: "(i, k) \<in> set (s_apiKeys s)" using assms(2) by (rule map_of_SomeD)
  have hashes: "map (\<lambda>ik. k_TokenHash (snd ik)) (AList.update i k' (s_apiKeys s))
      = map (\<lambda>ik. k_TokenHash (snd ik)) (s_apiKeys s)"
    using assms(2,4) by (intro map_update_same [where v = k]) simp_all
  show ?thesis
    using assms mem unfolding keys_inv_def
    by (auto simp: hashes set_update_distinct)
qed

lemma audit_inv_push:
  assumes "audit_inv s" and "a_ID e = s_nextAuditID s + 1"
  shows "audit_inv (s\<lparr>s_nextAuditID := s_nextAuditID s + 1, s_audit := push_capped memoryAuditCap (s_audit s) e\<rparr>)"
proof -
  let ?n = "s_nextAuditID s" and ?k = "length (s_audit s)"
  have ids: "map a_ID (s_audit s) = [?n - int ?k + 1..?n]" and le: "?k \<le> memoryAuditCap"
    using assms(1) by (simp_all add: audit_inv_def)
  have tl_ids: "map a_ID (tl (s_audit s)) = [(?n - int ?k + 1) + 1..?n]" if "0 < ?k"
  proof -
    have "[?n - int ?k + 1..?n] = (?n - int ?k + 1) # [(?n - int ?k + 1) + 1..?n]"
      using that by (intro upto_rec1) linarith
    then show ?thesis by (simp only: map_tl ids list.sel)
  qed
  have snoc: "[a..?n + 1] = [a..?n] @ [?n + 1]" if "a \<le> ?n + 1" for a
    using upto_rec2 [of a "?n + 1"] that by simp
  show ?thesis
  proof (cases "?k \<ge> memoryAuditCap")
    case True
    with le have k: "?k = memoryAuditCap" by simp
    then have pos: "0 < ?k" by (simp add: memoryAuditCap_def)
    have "map a_ID (tl (s_audit s) @ [e]) = [(?n - int ?k + 1) + 1..?n + 1]"
      using tl_ids [OF pos] assms(2) snoc [of "(?n - int ?k + 1) + 1"] pos by (simp del: upto.simps)
    moreover have "length (tl (s_audit s) @ [e]) = ?k" using pos by simp
    ultimately show ?thesis using True k by (simp add: audit_inv_def push_capped_def add.commute)
  next
    case False
    have "map a_ID (s_audit s @ [e]) = [?n - int ?k + 1..?n + 1]"
      using ids assms(2) snoc [of "?n - int ?k + 1"] by simp
    then show ?thesis using False by (simp add: audit_inv_def push_capped_def)
  qed
qed

section \<open>The operations on the abstract view\<close>

definition mem_view :: "mem_store \<Rightarrow> string \<Rightarrow> url_mapping option" where
  "mem_view s = map_of (s_urls s)"

definition mem_owner :: "mem_store \<Rightarrow> bytes \<Rightarrow> int option" where
  "mem_owner s = map_of (map (\<lambda>ik. (k_TokenHash (snd ik), fst ik)) (s_apiKeys s))"

lemma find_key_owner:
  "map_of (map (\<lambda>ik. (k_TokenHash (snd ik), fst ik)) ks) h = map_option fst (find_key h ks)"
  by (induction h ks rule: find_key.induct) auto

lemma find_key_Some: "find_key h ks = Some (i, k) \<Longrightarrow> k_TokenHash k = h \<and> (i, k) \<in> set ks"
  by (induction h ks rule: find_key.induct) (auto split: if_splits)

lemma mem_owner_iff: "keys_inv s \<Longrightarrow> mem_owner s h = Some i \<longleftrightarrow>
    (\<exists>k. map_of (s_apiKeys s) i = Some k \<and> k_TokenHash k = h)"
proof -
  assume inv: "keys_inv s"
  then have d: "distinct_keys (map (\<lambda>ik. (k_TokenHash (snd ik), fst ik)) (s_apiKeys s))"
    by (simp add: keys_inv_def distinct_keys_def comp_def)
  have d': "distinct_keys (s_apiKeys s)" using inv by (simp add: keys_inv_def)
  have "mem_owner s h = Some i \<longleftrightarrow> (h, i) \<in> set (map (\<lambda>ik. (k_TokenHash (snd ik), fst ik)) (s_apiKeys s))"
    using d unfolding mem_owner_def distinct_keys_def by simp
  also have "\<dots> \<longleftrightarrow> (\<exists>k. (i, k) \<in> set (s_apiKeys s) \<and> k_TokenHash k = h)" by force
  also have "\<dots> \<longleftrightarrow> (\<exists>k. map_of (s_apiKeys s) i = Some k \<and> k_TokenHash k = h)"
    using d' by (simp add: distinct_keys_def)
  finally show ?thesis .
qed

lemma hash_unique:
  assumes "keys_inv s" and "map_of (s_apiKeys s) i = Some k" and "map_of (s_apiKeys s) j = Some k'"
    and "k_TokenHash k' = k_TokenHash k"
  shows "j = i"
proof -
  have "mem_owner s (k_TokenHash k) = Some i" "mem_owner s (k_TokenHash k) = Some j"
    using assms by (auto simp: mem_owner_iff)
  then show ?thesis by simp
qed

lemma keys_inv_key: "keys_inv s \<Longrightarrow> map_of (s_apiKeys s) i = Some k \<Longrightarrow>
    k_ID k = i \<and> 0 < i \<and> i \<le> s_nextKeyID s"
  by (auto simp: keys_inv_def dest!: map_of_SomeD)

text \<open>The outcome of a lookup does not depend on the order the map is visited in.\<close>

lemma find_key_map_of: "keys_inv s \<Longrightarrow> find_key h (s_apiKeys s) = Some (i, k) \<longleftrightarrow>
    map_of (s_apiKeys s) i = Some k \<and> k_TokenHash k = h"
proof
  assume inv: "keys_inv s" and f: "find_key h (s_apiKeys s) = Some (i, k)"
  then show "map_of (s_apiKeys s) i = Some k \<and> k_TokenHash k = h"
    using find_key_Some [OF f] by (auto simp: keys_inv_def distinct_keys_def)
next
  assume inv: "keys_inv s" and k: "map_of (s_apiKeys s) i = Some k \<and> k_TokenHash k = h"
  then have "mem_owner s h = Some i" by (auto simp: mem_owner_iff)
  then have "map_option fst (find_key h (s_apiKeys s)) = Some i"
    by (simp only: find_key_owner [symmetric] mem_owner_def)
  then obtain k2 where f: "find_key h (s_apiKeys s) = Some (i, k2)" by auto
  then have "(i, k2) \<in> set (s_apiKeys s)" using find_key_Some by blast
  with k inv have "k2 = k" by (auto simp: keys_inv_def distinct_keys_def)
  with f show "find_key h (s_apiKeys s) = Some (i, k)" by simp
qed

text \<open>Views of the updated states: one equation per field update.\<close>

lemma mem_view_put [simp]: "mem_view (s\<lparr>s_urls := AList.update c m (s_urls s)\<rparr>) = (mem_view s)(c \<mapsto> m)"
  by (simp add: mem_view_def)

lemma mem_view_frames [simp]:
  "mem_view (s\<lparr>s_events := e\<rparr>) = mem_view s" "mem_view (s\<lparr>s_apiKeys := k\<rparr>) = mem_view s"
  "mem_view (s\<lparr>s_nextKeyID := n\<rparr>) = mem_view s" "mem_view (s\<lparr>s_audit := a\<rparr>) = mem_view s"
  "mem_view (s\<lparr>s_nextAuditID := n\<rparr>) = mem_view s"
  by (simp_all add: mem_view_def)

lemma mem_owner_frames [simp]:
  "mem_owner (s\<lparr>s_urls := u\<rparr>) = mem_owner s" "mem_owner (s\<lparr>s_events := e\<rparr>) = mem_owner s"
  "mem_owner (s\<lparr>s_nextKeyID := n\<rparr>) = mem_owner s" "mem_owner (s\<lparr>s_audit := a\<rparr>) = mem_owner s"
  "mem_owner (s\<lparr>s_nextAuditID := n\<rparr>) = mem_owner s"
  by (simp_all add: mem_owner_def)

lemma mem_owner_put:
  "map_of (s_apiKeys s) i = Some k \<Longrightarrow> k_TokenHash k' = k_TokenHash k \<Longrightarrow>
   mem_owner (s\<lparr>s_apiKeys := AList.update i k' (s_apiKeys s)\<rparr>) = mem_owner s"
  by (simp add: mem_owner_def map_update_same [where v = k])

text \<open>Setting the fields of both logs at once is setting them one after the other.\<close>

lemma record_click_state:
  "s\<lparr>s_urls := u, s_events := e\<rparr> = (s\<lparr>s_urls := u\<rparr>)\<lparr>s_events := e\<rparr>"
  by simp

lemma mem_Set_inv: "mem_inv s \<Longrightarrow> m_ID m = c \<Longrightarrow> mem_inv (fst (mem_Set c m s))"
  by (auto simp: mem_Set_def mem_inv_def urls_inv_put split: option.split)

lemma mem_Delete_inv: "mem_inv s \<Longrightarrow> mem_inv (fst (mem_Delete c s))"
  using urls_inv_del [of s c] events_inv_del [of "s\<lparr>s_urls := AList.delete c (s_urls s)\<rparr>" c]
  by (auto simp: mem_Delete_def mem_inv_def split: option.split)

lemma mem_RotateToken_inv: "mem_inv s \<Longrightarrow> mem_inv (fst (mem_RotateToken c h s))"
  by (auto simp: mem_RotateToken_def mem_inv_def urls_inv_put urls_inv_ID split: option.split)

lemma mem_Update_inv: "mem_inv s \<Longrightarrow> mem_inv (fst (mem_Update t c f s))"
  by (auto simp: mem_Update_def mem_inv_def urls_inv_put urls_inv_ID split: option.split)

lemma click_mapping_frame [simp]:
  "m_ID (click_mapping ev m) = m_ID m" "m_MaxClicks (click_mapping ev m) = m_MaxClicks m"
  "m_ClickCount (click_mapping ev m) = m_ClickCount m + 1"
  "m_OwnerTokenHash (click_mapping ev m) = m_OwnerTokenHash m"
  "m_APIKeyID (click_mapping ev m) = m_APIKeyID m" "m_ExpiresAt (click_mapping ev m) = m_ExpiresAt m"
  by (simp_all add: click_mapping_def)

lemma mem_RecordClick_inv: "mem_inv s \<Longrightarrow> mem_inv (fst (mem_RecordClick c ev s))"
proof (cases "map_of (s_urls s) c")
  case None
  then show "mem_inv s \<Longrightarrow> ?thesis" by (simp add: mem_RecordClick_def)
next
  case (Some m)
  assume inv: "mem_inv s"
  let ?s1 = "s\<lparr>s_urls := AList.update c (click_mapping ev m) (s_urls s)\<rparr>"
  have "urls_inv ?s1" using inv urls_inv_ID [OF _ Some] by (simp add: mem_inv_def urls_inv_put)
  moreover have "events_inv (?s1\<lparr>s_events := AList.update c
      (push_capped memoryClickCapPerCode (events_of ?s1 c) ev) (s_events ?s1)\<rparr>)"
    using inv by (intro events_inv_push) (simp add: mem_inv_def)
  ultimately show ?thesis
    using inv Some by (simp add: mem_RecordClick_def mem_inv_def events_of_def)
qed

lemma mem_cleanup_inv: "mem_inv s \<Longrightarrow> mem_inv (mem_cleanupExpired t s)"
  by (auto simp: mem_cleanupExpired_def mem_inv_def urls_inv_def
      map_of_filter_snd [where P = "\<lambda>u. \<not> expired_at t u"] split: option.splits if_splits)

lemma mem_LogAudit_inv: "mem_inv s \<Longrightarrow> mem_inv (fst (mem_LogAudit t e s))"
  by (simp add: mem_LogAudit_def mem_inv_def Let_def audit_inv_push)

lemma mem_LookupAPIKey_inv: "mem_inv s \<Longrightarrow> mem_inv (fst (mem_LookupAPIKey t h s))"
  by (auto simp: mem_LookupAPIKey_def mem_inv_def Let_def find_key_map_of intro!: keys_inv_put
      split: option.split)

lemma mem_UpdateAPIKeyLabel_inv: "mem_inv s \<Longrightarrow> mem_inv (fst (mem_UpdateAPIKeyLabel i l s))"
  by (auto simp: mem_UpdateAPIKeyLabel_def mem_inv_def intro!: keys_inv_put split: option.split)

lemma keys_inv_fresh: "keys_inv s \<Longrightarrow> s_nextKeyID s + 1 \<notin> fst ` set (s_apiKeys s)"
  by (force simp: keys_inv_def)

lemma mem_CreateAPIKey_inv:
  assumes "mem_inv s" and "mem_owner s h = None"
  shows "mem_inv (fst (mem_CreateAPIKey t l h s))"
proof -
  have inv: "keys_inv s" using assms(1) by (simp add: mem_inv_def)
  have "h \<notin> (\<lambda>ik. k_TokenHash (snd ik)) ` set (s_apiKeys s)"
    using assms(2) by (force simp: mem_owner_def map_of_eq_None_iff)
  then have "keys_inv (fst (mem_CreateAPIKey t l h s))"
    using inv keys_inv_fresh [OF inv]
    by (auto simp: mem_CreateAPIKey_def Let_def update_new keys_inv_def distinct_keys_def)
  then show ?thesis
    using assms(1) by (simp add: mem_inv_def mem_CreateAPIKey_def Let_def)
qed

lemma mem_DeleteAPIKey_inv: "mem_inv s \<Longrightarrow> mem_inv (fst (mem_DeleteAPIKey i s))"
proof -
  assume inv: "mem_inv s"
  have "urls_inv (s\<lparr>s_urls := map (\<lambda>(c, u). (c, release_key i u)) (s_urls s)\<rparr>)"
    using inv by (auto simp: mem_inv_def urls_inv_def map_of_map_snd release_key_def)
  moreover have "keys_inv (s\<lparr>s_apiKeys := AList.delete i (s_apiKeys s)\<rparr>)"
    using inv by (auto simp: mem_inv_def keys_inv_def AList.delete_eq distinct_map_filter)
  ultimately show ?thesis
    using inv by (auto simp: mem_DeleteAPIKey_def mem_inv_def keys_inv_def urls_inv_def split: option.split)
qed

lemmas mem_op_invs = mem_Set_inv mem_Delete_inv mem_RotateToken_inv mem_Update_inv mem_RecordClick_inv
  mem_cleanup_inv mem_LogAudit_inv mem_LookupAPIKey_inv mem_UpdateAPIKeyLabel_inv mem_CreateAPIKey_inv
  mem_DeleteAPIKey_inv

section \<open>The store meets the contract\<close>

lemma mem_view_delete: "mem_view (fst (mem_Delete c s)) = (mem_view s)(c := None)"
  by (auto simp: mem_Delete_def mem_view_def split: option.split)

lemma mem_owner_lookup: "mem_inv s \<Longrightarrow> mem_owner (fst (mem_LookupAPIKey t h s)) = mem_owner s"
  by (auto simp: mem_LookupAPIKey_def mem_inv_def Let_def find_key_map_of mem_owner_put split: option.split)

lemma mem_lookup_miss: "mem_owner s h = None \<Longrightarrow> mem_LookupAPIKey t h s = (s, Inl ErrNotFound)"
  by (simp add: mem_LookupAPIKey_def mem_owner_def find_key_owner)

lemma mem_lookup_hit:
  assumes "mem_inv s" and "mem_owner s h = Some i"
  shows "\<exists>s' k. mem_LookupAPIKey t h s = (s', Inr k) \<and> k_ID k = i \<and> k_TokenHash k = h"
proof -
  from assms(2) obtain k where f: "find_key h (s_apiKeys s) = Some (i, k)"
    by (auto simp: mem_owner_def find_key_owner)
  have inv: "keys_inv s" using assms(1) by (simp add: mem_inv_def)
  then have "map_of (s_apiKeys s) i = Some k \<and> k_TokenHash k = h" using f by (simp add: find_key_map_of)
  with inv have "k_ID k = i \<and> k_TokenHash k = h" using keys_inv_key by blast
  then show ?thesis by (simp add: mem_LookupAPIKey_def f Let_def)
qed

lemma mem_create_key:
  assumes "mem_inv s" and "mem_owner s h = None"
  shows "\<exists>s' k. mem_CreateAPIKey t l h s = (s', Inr k) \<and> mem_inv s' \<and> mem_view s' = mem_view s
    \<and> mem_owner s' = (mem_owner s)(h \<mapsto> k_ID k) \<and> k_ID k \<notin> ran (mem_owner s) \<and> k_Label k = l
    \<and> k_CreatedAt k = t"
proof -
  have inv: "keys_inv s" using assms(1) by (simp add: mem_inv_def)
  let ?r = "mem_CreateAPIKey t l h s"
  obtain k where k: "snd ?r = Inr k" "k_ID k = s_nextKeyID s + 1" "k_Label k = l" "k_CreatedAt k = t"
    by (simp add: mem_CreateAPIKey_def Let_def)
  have fresh: "k_ID k \<notin> ran (mem_owner s)"
    using inv keys_inv_fresh [OF inv] by (auto simp: ran_def mem_owner_iff k(2) fst_set_map_of)
  have "mem_owner (fst ?r) = (mem_owner s)(h \<mapsto> k_ID k)"
    using keys_inv_fresh [OF inv] assms(2)
    by (auto simp: mem_CreateAPIKey_def Let_def update_new mem_owner_def map_add_def fun_eq_iff k(2)
        split: option.split)
  moreover have "mem_view (fst ?r) = mem_view s" by (simp add: mem_CreateAPIKey_def Let_def)
  ultimately show ?thesis
    using mem_CreateAPIKey_inv [OF assms, of t l] k fresh by (intro exI [of _ "fst ?r"] exI [of _ k]) (simp add: prod_eq_iff)
qed

lemma mem_delete_key:
  assumes "mem_inv s" and "mem_owner s h = Some i"
  shows "\<exists>s'. mem_DeleteAPIKey i s = (s', None) \<and> mem_inv s' \<and> mem_owner s' = (mem_owner s)(h := None)
    \<and> mem_view s' = (\<lambda>c. map_option (\<lambda>m. if m_APIKeyID m = i then m\<lparr>m_APIKeyID := 0\<rparr> else m) (mem_view s c))"
proof -
  let ?r = "mem_DeleteAPIKey i s"
  have inv: "keys_inv s" and inv': "keys_inv (fst ?r)"
    using assms(1) mem_DeleteAPIKey_inv [OF assms(1), of i] by (simp_all add: mem_inv_def)
  obtain k where k: "map_of (s_apiKeys s) i = Some k" "k_TokenHash k = h"
    using assms(2) inv by (auto simp: mem_owner_iff)
  have keys': "map_of (s_apiKeys (fst ?r)) = (map_of (s_apiKeys s))(i := None)"
    by (simp add: mem_DeleteAPIKey_def k(1))
  have "mem_owner (fst ?r) h' = Some j \<longleftrightarrow> ((mem_owner s)(h := None)) h' = Some j" for h' j
  proof -
    have same: "k_TokenHash k' = h \<longleftrightarrow> j = i" if "map_of (s_apiKeys s) j = Some k'" for k'
    proof
      assume "k_TokenHash k' = h"
      then show "j = i" using hash_unique [OF inv k(1) that] k(2) by simp
    next
      assume "j = i"
      then show "k_TokenHash k' = h" using that k by simp
    qed
    have "mem_owner (fst ?r) h' = Some j \<longleftrightarrow> j \<noteq> i \<and> (\<exists>k'. map_of (s_apiKeys s) j = Some k' \<and> k_TokenHash k' = h')"
      by (simp add: mem_owner_iff [OF inv'] keys')
    also have "\<dots> \<longleftrightarrow> h' \<noteq> h \<and> (\<exists>k'. map_of (s_apiKeys s) j = Some k' \<and> k_TokenHash k' = h')"
      using same by blast
    finally show ?thesis by (simp add: mem_owner_iff [OF inv])
  qed
  then have "mem_owner (fst ?r) = (mem_owner s)(h := None)"
    by (intro ext) (metis option.exhaust)
  moreover have "mem_view (fst ?r) = (\<lambda>c. map_option (\<lambda>m. if m_APIKeyID m = i then m\<lparr>m_APIKeyID := 0\<rparr> else m) (mem_view s c))"
    by (simp add: mem_DeleteAPIKey_def k(1) mem_view_def map_of_map_snd release_key_def [abs_def] fun_eq_iff)
  moreover have "snd ?r = None" by (simp add: mem_DeleteAPIKey_def k(1))
  ultimately show ?thesis
    using mem_DeleteAPIKey_inv [OF assms(1), of i] by (intro exI [of _ "fst ?r"]) (simp add: prod_eq_iff)
qed

lemma mem_label_key:
  assumes "mem_inv s" and "mem_owner s h = Some i"
  shows "\<exists>s'. mem_UpdateAPIKeyLabel i l s = (s', None) \<and> mem_inv s' \<and> mem_owner s' = mem_owner s \<and> mem_view s' = mem_view s"
proof -
  have "keys_inv s" using assms(1) by (simp add: mem_inv_def)
  then obtain k where "map_of (s_apiKeys s) i = Some k" using assms(2) by (auto simp: mem_owner_iff)
  then show ?thesis
    using mem_UpdateAPIKeyLabel_inv [OF assms(1), of i l] by (simp add: mem_UpdateAPIKeyLabel_def mem_owner_put)
qed

lemma mem_owner_issued: "mem_inv s \<Longrightarrow> mem_owner s h = Some i \<Longrightarrow> i \<le> s_nextKeyID s"
  by (auto simp: mem_inv_def mem_owner_iff keys_inv_def dest!: map_of_SomeD)

lemma mem_key_gone: "mem_inv s \<Longrightarrow> i \<notin> ran (mem_owner s) \<Longrightarrow> mem_DeleteAPIKey i s = (s, Some ErrNotFound)
    \<and> mem_UpdateAPIKeyLabel i l s = (s, Some ErrNotFound)"
  by (cases "map_of (s_apiKeys s) i") (auto simp: mem_inv_def mem_owner_iff ran_def mem_DeleteAPIKey_def mem_UpdateAPIKeyLabel_def)

lemma mem_cleanup_view: "mem_inv s \<Longrightarrow> mem_view (mem_cleanupExpired t s) c =
    (case mem_view s c of None \<Rightarrow> None | Some m \<Rightarrow> if expired_at t m then None else Some m)"
  by (auto simp: mem_cleanupExpired_def mem_view_def mem_inv_def urls_inv_def map_of_filter_snd [where P = "\<lambda>u. \<not> expired_at t u"]
      split: option.split)

text \<open>The goroutine of \<^verbatim>\<open>StartCleanupRoutine\<close>, and whether it has returned.\<close>

fun mem_cleanup_routine :: "wake list \<Rightarrow> mem_store \<Rightarrow> mem_store \<times> bool" where
  "mem_cleanup_routine [] s = (s, False)"
| "mem_cleanup_routine (Cancelled # ws) s = (s, True)"
| "mem_cleanup_routine (Ticked now c # ws) s = mem_cleanup_routine ws (mem_cleanupExpired now s)"

lemma mem_cleanup_routine_inv: "mem_inv s \<Longrightarrow> mem_inv (fst (mem_cleanup_routine ws s))"
  by (induction ws s rule: mem_cleanup_routine.induct) (simp_all add: mem_cleanup_inv)

interpretation mem: serial_store mem_ops mem_inv mem_view "\<lambda>t. t" mem_owner mem_cleanupExpired s_nextKeyID
  rewrites "\<And>m. norm_mapping (\<lambda>t. t) m = m"
proof (unfold_locales, goal_cases)
  case (1 s c m) then show ?case by (simp add: mem_Set_def mem_view_def norm_mapping_id split: option.split)
next
  case (2 s c m' m) then show ?case by (simp add: mem_Set_def mem_view_def)
next
  case (3 s c m) then show ?case by (simp add: mem_Set_inv insertable_def)
next
  case (4 s t c) then show ?case by (simp add: mem_Get_def mem_view_def)
next
  case (5 s c) then show ?case by (simp add: mem_Exists_def mem_view_def)
next
  case (6 s c) then show ?case by (simp add: mem_view_delete)
next
  case (7 s c) then show ?case by (simp add: mem_Delete_def mem_view_def split: option.split)
next
  case (8 s c) then show ?case by (simp add: mem_Delete_inv)
next
  case (9 s c ev) then show ?case
    by (cases "map_of (s_urls s) c") (simp_all add: mem_RecordClick_def mem_view_def norm_mapping_id)
next
  case (10 s c ev) then show ?case by (simp add: mem_RecordClick_def mem_view_def split: option.split)
next
  case (11 s c ev) then show ?case by (simp add: mem_RecordClick_inv)
next
  case (12 s f t c) then show ?case
    by (cases "map_of (s_urls s) c") (simp_all add: mem_Update_def mem_view_def norm_mapping_id)
next
  case (13 s t c f) then show ?case by (simp add: mem_Update_def mem_view_def split: option.split)
next
  case (14 s t c f) then show ?case by (simp add: mem_Update_inv)
next
  case (15 s c h) then show ?case
    by (cases "map_of (s_urls s) c") (simp_all add: mem_RotateToken_def mem_view_def)
next
  case (16 s c h) then show ?case by (simp add: mem_RotateToken_def mem_view_def split: option.split)
next
  case (17 s c h) then show ?case by (simp add: mem_RotateToken_inv)
next
  case (18 s t e) then show ?case by (simp add: mem_LogAudit_def Let_def)
next
  case (19 s t e) then show ?case by (simp add: mem_LogAudit_inv)
next
  case (20 s h i) then show ?case using keys_inv_key by (auto simp: mem_inv_def mem_owner_iff)
next
  case (21 s h t) then show ?case by (simp add: mem_lookup_miss)
next
  case (22 s h i t) then show ?case by (simp add: mem_lookup_hit)
next
  case (23 s t h) then show ?case by (auto simp: mem_LookupAPIKey_def Let_def split: option.split)
next
  case (24 s t h) then show ?case by (simp add: mem_owner_lookup)
next
  case (25 s t h) then show ?case by (simp add: mem_LookupAPIKey_inv)
next
  case (26 s c m) then show ?case by (simp add: mem_Set_def split: option.split)
next
  case (27 s c) then show ?case by (simp add: mem_Delete_def split: option.split)
next
  case (28 s c ev) then show ?case by (simp add: mem_RecordClick_def split: option.split)
next
  case (29 s t c f) then show ?case by (simp add: mem_Update_def split: option.split)
next
  case (30 s c h) then show ?case by (simp add: mem_RotateToken_def split: option.split)
next
  case (31 s t e) then show ?case by (simp add: mem_LogAudit_def Let_def)
next
  case (32 s h t l) then show ?case by (simp add: mem_create_key)
next
  case (33 s h i) then show ?case using mem_delete_key by simp
next
  case (34 s h i l) then show ?case using mem_label_key by simp
next
  case (35 s t) then show ?case by (rule mem_cleanup_inv)
next
  case (36 s t c) then show ?case by (rule mem_cleanup_view)
next
  case (37 s c m) then show ?case by (simp add: norm_mapping_id)
next
  case (38 s h i) then show ?case by (rule mem_owner_issued)
next
  case (39 s h t l s' k) then show ?case by (auto simp: mem_CreateAPIKey_def Let_def)
next
  case (40 s i) then show ?case by (simp add: mem_key_gone)
next
  case (41 s i l) then show ?case by (simp add: mem_key_gone)
next
  case (42 s t) then show ?case by (simp add: mem_cleanupExpired_def mem_owner_def)
next
  case (43 c m s) then show ?case by (simp add: mem_Set_def split: option.split)
next
  case (44 c s) then show ?case by (simp add: mem_Delete_def split: option.split)
next
  case (45 c ev s) then show ?case by (simp add: mem_RecordClick_def split: option.split)
next
  case (46 t c f s) then show ?case by (simp add: mem_Update_def split: option.split)
next
  case (47 c h s) then show ?case by (simp add: mem_RotateToken_def split: option.split)
next
  case (48 t e s) then show ?case by (simp add: mem_LogAudit_def Let_def)
next
  case (49 t h s) then show ?case by (simp add: mem_LookupAPIKey_def Let_def split: option.split)
next
  case (50 i s) then show ?case by (simp add: mem_DeleteAPIKey_def split: option.split)
next
  case (51 i l s) then show ?case by (simp add: mem_UpdateAPIKeyLabel_def split: option.split)
next
  case (52 t s) then show ?case by (simp add: mem_cleanupExpired_def)
next
  case (53 m) then show ?case by (rule norm_mapping_id)
qed

end
