(* ===== verification/Go_Strings.thy ===== *)
theory Go_Strings
  imports Prelude "HOL-Library.Sublist" "HOL-Library.Char_ord"
begin

text \<open>
  The functions of Go's \<^verbatim>\<open>strings\<close> and \<^verbatim>\<open>net\<close> packages the code calls, on byte strings:
  \<^verbatim>\<open>TrimSpace\<close> (over the UTF-8 encodings of Unicode white space), \<^verbatim>\<open>ToLower\<close>,
  \<^verbatim>\<open>HasPrefix\<close>/\<^verbatim>\<open>TrimPrefix\<close>, and the predicates of \<^verbatim>\<open>net.IP\<close>.
\<close>

section \<open>strings.TrimSpace\<close>

definition spaces :: "string list" where
  "spaces = [[CHR 0x20], [CHR 0x09], [CHR 0x0A], [CHR 0x0B], [CHR 0x0C], [CHR 0x0D],
     [CHR 0xC2, CHR 0x85], [CHR 0xC2, CHR 0xA0], [CHR 0xE1, CHR 0x9A, CHR 0x80],
     [CHR 0xE2, CHR 0x80, CHR 0x80], [CHR 0xE2, CHR 0x80, CHR 0x81], [CHR 0xE2, CHR 0x80, CHR 0x82],
     [CHR 0xE2, CHR 0x80, CHR 0x83], [CHR 0xE2, CHR 0x80, CHR 0x84], [CHR 0xE2, CHR 0x80, CHR 0x85],
     [CHR 0xE2, CHR 0x80, CHR 0x86], [CHR 0xE2, CHR 0x80, CHR 0x87], [CHR 0xE2, CHR 0x80, CHR 0x88],
     [CHR 0xE2, CHR 0x80, CHR 0x89], [CHR 0xE2, CHR 0x80, CHR 0x8A], [CHR 0xE2, CHR 0x80, CHR 0xA8],
     [CHR 0xE2, CHR 0x80, CHR 0xA9], [CHR 0xE2, CHR 0x80, CHR 0xAF], [CHR 0xE2, CHR 0x81, CHR 0x9F],
     [CHR 0xE3, CHR 0x80, CHR 0x80]]"

text \<open>The next rune of \<open>s\<close> to drop, if \<open>s\<close> starts with one of \<open>ws\<close>.\<close>

definition leading :: "string list \<Rightarrow> string \<Rightarrow> string option" where
  "leading ws s = find (\<lambda>w. w \<noteq> [] \<and> take (length w) s = w) ws"

lemma leading_Some: "leading ws s = Some w \<Longrightarrow> w \<noteq> [] \<and> take (length w) s = w \<and> w \<in> set ws"
  by (auto simp: leading_def find_Some_iff)

lemma leading_nonempty: "leading ws s = Some w \<Longrightarrow> 0 < length w \<and> 0 < length s"
  using leading_Some [of ws s w] by (cases s) auto

function strip_left :: "string list \<Rightarrow> string \<Rightarrow> string" where
  "strip_left ws s = (case leading ws s of None \<Rightarrow> s | Some w \<Rightarrow> strip_left ws (drop (length w) s))"
  by pat_completeness auto
termination
  by (relation "measure (\<lambda>(ws, s). length s)") (auto dest: leading_nonempty)

declare strip_left.simps [simp del]

definition TrimSpace :: "string \<Rightarrow> string" where
  "TrimSpace s = rev (strip_left (map rev spaces) (rev (strip_left spaces s)))"

lemma strip_left_none: "leading ws (strip_left ws s) = None"
proof (induction ws s rule: strip_left.induct)
  case (1 ws s)
  then show ?case by (subst strip_left.simps) (simp split: option.split)
qed

lemma strip_left_id: "leading ws s = None \<Longrightarrow> strip_left ws s = s"
  by (simp add: strip_left.simps [of ws s])

lemma strip_left_suffix: "\<exists>p. s = p @ strip_left ws s"
proof (induction ws s rule: strip_left.induct)
  case (1 ws s)
  show ?case
  proof (cases "leading ws s")
    case None
    then show ?thesis by (simp add: strip_left_id)
  next
    case (Some w)
    then obtain p where "drop (length w) s = p @ strip_left ws (drop (length w) s)" using 1 by blast
    moreover have "s = w @ drop (length w) s"
      using leading_Some [OF Some] by (metis append_take_drop_id)
    ultimately have "s = (w @ p) @ strip_left ws (drop (length w) s)" by simp
    moreover have "strip_left ws s = strip_left ws (drop (length w) s)"
      using Some by (simp add: strip_left.simps [of ws s])
    ultimately show ?thesis by metis
  qed
qed

lemma TrimSpace_Nil [simp]: "TrimSpace [] = []"
  by (simp add: TrimSpace_def strip_left.simps leading_def spaces_def)

text \<open>A string that neither begins nor ends with white space is left alone.\<close>

lemma TrimSpace_id: "leading spaces s = None \<Longrightarrow> leading (map rev spaces) (rev s) = None \<Longrightarrow> TrimSpace s = s"
  by (simp add: TrimSpace_def strip_left_id)

lemma TrimSpace_length: "length (TrimSpace s) \<le> length s"
proof -
  have le: "length (strip_left ws t) \<le> length t" for ws t
    using strip_left_suffix [of t ws] by (metis length_append le_add2)
  have "length (TrimSpace s) \<le> length (strip_left spaces s)"
    using le [of "map rev spaces" "rev (strip_left spaces s)"] by (simp add: TrimSpace_def)
  then show ?thesis using le [of spaces s] by simp
qed

section \<open>strings.ToLower\<close>

definition is_ascii :: "char \<Rightarrow> bool" where
  "is_ascii c = (of_char c < (128 :: nat))"

definition lower_char :: "char \<Rightarrow> char" where
  "lower_char c = (if (65 :: nat) \<le> of_char c \<and> of_char c \<le> (90 :: nat) then char_of (of_char c + (32 :: nat)) else c)"

text \<open>
  On ASCII strings \<^verbatim>\<open>ToLower\<close> maps the bytes; on others it applies Go's Unicode tables, the
  parameter \<open>ulower\<close>.
\<close>

definition ToLower :: "(string \<Rightarrow> string) \<Rightarrow> string \<Rightarrow> string" where
  "ToLower ulower s = (if list_all is_ascii s then map lower_char s else ulower s)"

lemma lower_char_idem [simp]: "lower_char (lower_char c) = lower_char c"
  by (simp add: lower_char_def)

lemma lower_char_ascii: "is_ascii c \<Longrightarrow> is_ascii (lower_char c)"
  by (simp add: lower_char_def is_ascii_def)

lemma ToLower_Nil [simp]: "ToLower ul [] = []"
  by (simp add: ToLower_def)

lemma ToLower_ascii: "list_all is_ascii s \<Longrightarrow> ToLower ul s = map lower_char s"
  by (simp add: ToLower_def)

section \<open>Prefixes\<close>

definition HasPrefix :: "string \<Rightarrow> string \<Rightarrow> bool" where
  "HasPrefix s p = (take (length p) s = p)"

definition HasSuffix :: "string \<Rightarrow> string \<Rightarrow> bool" where
  "HasSuffix s p = (length p \<le> length s \<and> drop (length s - length p) s = p)"

definition TrimPrefix :: "string \<Rightarrow> string \<Rightarrow> string" where
  "TrimPrefix s p = (if HasPrefix s p then drop (length p) s else s)"

lemma HasPrefix_iff: "HasPrefix s p \<longleftrightarrow> (\<exists>t. s = p @ t)"
  by (metis HasPrefix_def append_eq_conv_conj append_take_drop_id)

lemma HasSuffix_iff: "HasSuffix s p \<longleftrightarrow> (\<exists>t. s = t @ p)"
proof
  assume "HasSuffix s p"
  then have "s = take (length s - length p) s @ p" by (metis HasSuffix_def append_take_drop_id)
  then show "\<exists>t. s = t @ p" by blast
qed (auto simp: HasSuffix_def)

section \<open>strings.Split\<close>

text \<open>For a separator of one byte; the result is never empty.\<close>

fun Split :: "char \<Rightarrow> string \<Rightarrow> string list" where
  "Split d [] = [[]]"
| "Split d (c # cs) =
     (if c = d then [] # Split d cs
      else case Split d cs of [] \<Rightarrow> [[c]] | w # ws \<Rightarrow> (c # w) # ws)"

section \<open>net.IP\<close>

text \<open>An address is its byte slice, of length 4 or 16 when it is valid.\<close>

definition To4 :: "bytes \<Rightarrow> bytes option" where
  "To4 ip = (if length ip = 4 then Some ip
     else if length ip = 16 \<and> take 10 ip = replicate 10 0 \<and> ip ! 10 = 0xff \<and> ip ! 11 = 0xff
       then Some (drop 12 ip) else None)"

definition v4_mapped :: "bytes \<Rightarrow> bytes" where
  "v4_mapped ip4 = replicate 10 0 @ [0xff, 0xff] @ ip4"

definition ip_equal :: "bytes \<Rightarrow> bytes \<Rightarrow> bool" where
  "ip_equal a b =
     (if length a = length b then a = b
      else if length a = 4 \<and> length b = 16 then b = v4_mapped a
      else if length a = 16 \<and> length b = 4 then a = v4_mapped b
      else False)"

definition IsUnspecified :: "bytes \<Rightarrow> bool" where
  "IsUnspecified ip = (ip_equal ip (v4_mapped [0, 0, 0, 0]) \<or> ip_equal ip (replicate 16 0))"

definition IsLoopback :: "bytes \<Rightarrow> bool" where
  "IsLoopback ip = (case To4 ip of Some ip4 \<Rightarrow> ip4 ! 0 = 127 | None \<Rightarrow> ip_equal ip (replicate 15 0 @ [1]))"

definition IsPrivate :: "bytes \<Rightarrow> bool" where
  "IsPrivate ip = (case To4 ip of
       Some ip4 \<Rightarrow> ip4 ! 0 = 10 \<or> (ip4 ! 0 = 172 \<and> and (ip4 ! 1) 0xf0 = 16) \<or> (ip4 ! 0 = 192 \<and> ip4 ! 1 = 168)
     | None \<Rightarrow> length ip = 16 \<and> and (ip ! 0) 0xfe = 0xfc)"

definition IsMulticast :: "bytes \<Rightarrow> bool" where
  "IsMulticast ip = (case To4 ip of
       Some ip4 \<Rightarrow> and (ip4 ! 0) 0xf0 = 0xe0
     | None \<Rightarrow> length ip = 16 \<and> ip ! 0 = 0xff)"

definition IsLinkLocalUnicast :: "bytes \<Rightarrow> bool" where
  "IsLinkLocalUnicast ip = (case To4 ip of
       Some ip4 \<Rightarrow> ip4 ! 0 = 169 \<and> ip4 ! 1 = 254
     | None \<Rightarrow> length ip = 16 \<and> ip ! 0 = 0xfe \<and> and (ip ! 1) 0xc0 = 0x80)"

end
