(* ===== verification/Deny_List.thy ===== *)
theory Deny_List
  imports Go_Strings
begin

text \<open>
  The host deny list of \<^verbatim>\<open>services/denylist.go\<close>: building it from feed lines, merging lists,
  and the lookup that walks up the labels of a host. A list is the set of its entries;
  \<open>None\<close> is the nil \<^verbatim>\<open>*DenyList\<close>. The parameter \<open>ul\<close> is the Unicode case mapping of
  \<^verbatim>\<open>strings.ToLower\<close>.
\<close>

section \<open>Building a list\<close>

type_synonym deny_list = "string set option"

definition normalizeHost :: "(string \<Rightarrow> string) \<Rightarrow> string \<Rightarrow> string" where
  "normalizeHost ul raw =
     (let h = TrimSpace raw in
        if h = '''' \<or> HasPrefix h ''#'' then ''''
        else TrimPrefix (TrimPrefix (ToLower ul h) ''*.'') ''.'')"

fun add_entries :: "(string \<Rightarrow> string) \<Rightarrow> string list \<Rightarrow> string set \<Rightarrow> string set" where
  "add_entries ul [] acc = acc"
| "add_entries ul (raw # rest) acc =
     (let h = normalizeHost ul raw in add_entries ul rest (if h = '''' then acc else insert h acc))"

definition NewDenyList :: "(string \<Rightarrow> string) \<Rightarrow> string list \<Rightarrow> deny_list" where
  "NewDenyList ul entries =
     (if entries = [] then None
      else let dl = add_entries ul entries {} in if dl = {} then None else Some dl)"

fun merge_sets :: "deny_list list \<Rightarrow> string set \<Rightarrow> string set" where
  "merge_sets [] acc = acc"
| "merge_sets (None # rest) acc = merge_sets rest acc"
| "merge_sets (Some dl # rest) acc = merge_sets rest (acc \<union> dl)"

definition MergeDenyLists :: "deny_list list \<Rightarrow> deny_list" where
  "MergeDenyLists ls = (let merged = merge_sets ls {} in if merged = {} then None else Some merged)"

definition deny_Size :: "deny_list \<Rightarrow> nat" where
  "deny_Size d = (case d of None \<Rightarrow> 0 | Some dl \<Rightarrow> card dl)"

text \<open>\<^verbatim>\<open>LoadDenyListFile\<close>, with the outcome of reading the lines of the file as an argument.\<close>

definition LoadDenyListFile :: "(string \<Rightarrow> string) \<Rightarrow> string \<Rightarrow> (string + string list) \<Rightarrow> string + deny_list" where
  "LoadDenyListFile ul path contents =
     (if path = '''' then Inr None
      else case contents of
        Inl e \<Rightarrow> Inl (''deny-list file: '' @ e)
      | Inr entries \<Rightarrow> Inr (NewDenyList ul entries))"

section \<open>Lookup\<close>

text \<open>The loop of \<^verbatim>\<open>Contains\<close>: cut the host after its first dot and look the rest up.\<close>

fun after_dot :: "string \<Rightarrow> string option" where
  "after_dot [] = None"
| "after_dot (c # s) = (if c = CHR ''.'' then Some s else after_dot s)"

lemma after_dot_shorter: "after_dot s = Some r \<Longrightarrow> length r < length s"
  by (induction s) (auto split: if_splits)

function walk_labels :: "string set \<Rightarrow> string \<Rightarrow> bool" where
  "walk_labels dl host =
     (case after_dot host of
        None \<Rightarrow> False
      | Some rest \<Rightarrow> if rest \<in> dl then True else walk_labels dl rest)"
  by pat_completeness auto
termination
  by (relation "measure (\<lambda>(dl, host). length host)") (auto dest: after_dot_shorter)

declare walk_labels.simps [simp del]

definition deny_contains :: "(string \<Rightarrow> string) \<Rightarrow> deny_list \<Rightarrow> string \<Rightarrow> bool" where
  "deny_contains ul d host =
     (case d of
        None \<Rightarrow> False
      | Some dl \<Rightarrow>
          if dl = {} then False
          else let h = ToLower ul (TrimSpace host) in
            if h = '''' then False
            else if h \<in> dl then True
            else walk_labels dl h)"

section \<open>What a list blocks\<close>

lemma add_entries_set:
  "add_entries ul es acc = acc \<union> {h. h \<noteq> '''' \<and> (\<exists>raw \<in> set es. h = normalizeHost ul raw)}"
  by (induction ul es acc rule: add_entries.induct) (auto simp: Let_def)

lemma merge_sets_set: "merge_sets ls acc = acc \<union> \<Union> {dl. Some dl \<in> set ls}"
  by (induction ls acc rule: merge_sets.induct) auto

lemma after_dot_None: "after_dot s = None \<longleftrightarrow> CHR ''.'' \<notin> set s"
  by (induction s) auto

lemma after_dot_split: "after_dot s = Some r \<Longrightarrow> \<exists>p. s = p @ ''.'' @ r \<and> CHR ''.'' \<notin> set p"
proof (induction s)
  case (Cons c s)
  show ?case
  proof (cases "c = CHR ''.''")
    case True
    then show ?thesis using Cons.prems by (intro exI [of _ "[]"]) simp
  next
    case False
    then obtain p where "s = p @ ''.'' @ r" "CHR ''.'' \<notin> set p" using Cons by auto
    with False show ?thesis by (intro exI [of _ "c # p"]) simp
  qed
qed simp

text \<open>A suffix at a label boundary is one at the next boundary or a suffix after it.\<close>

lemma suffix_at_dot:
  assumes "s = p @ ''.'' @ r" and "CHR ''.'' \<notin> set p"
  shows "(\<exists>q. s = q @ ''.'' @ e) \<longleftrightarrow> r = e \<or> (\<exists>q. r = q @ ''.'' @ e)"
proof
  assume "\<exists>q. s = q @ ''.'' @ e"
  then obtain q where q: "p @ CHR ''.'' # r = q @ CHR ''.'' # e" using assms(1) by auto
  then obtain us where "p = q @ us \<and> us @ CHR ''.'' # r = CHR ''.'' # e
      \<or> p @ us = q \<and> CHR ''.'' # r = us @ CHR ''.'' # e"
    by (auto simp: append_eq_append_conv2)
  then show "r = e \<or> (\<exists>q. r = q @ ''.'' @ e)"
  proof
    assume "p = q @ us \<and> us @ CHR ''.'' # r = CHR ''.'' # e"
    then show ?thesis using assms(2) by (cases us) auto
  next
    assume "p @ us = q \<and> CHR ''.'' # r = us @ CHR ''.'' # e"
    then show ?thesis by (cases us) auto
  qed
next
  assume "r = e \<or> (\<exists>q. r = q @ ''.'' @ e)"
  then show "\<exists>q. s = q @ ''.'' @ e"
  proof
    assume "r = e" then show ?thesis using assms(1) by blast
  next
    assume "\<exists>q. r = q @ ''.'' @ e"
    then obtain q where "r = q @ ''.'' @ e" ..
    then have "s = (p @ ''.'' @ q) @ ''.'' @ e" using assms(1) by simp
    then show ?thesis by blast
  qed
qed

lemma walk_labels_iff: "walk_labels dl s \<longleftrightarrow> (\<exists>e \<in> dl. \<exists>q. s = q @ ''.'' @ e)"
proof (induction dl s rule: walk_labels.induct)
  case (1 dl s)
  show ?case
  proof (cases "after_dot s")
    case None
    then have "CHR ''.'' \<notin> set s" by (simp add: after_dot_None)
    then have "s \<noteq> q @ ''.'' @ e" for q e by auto
    then show ?thesis using None by (simp add: walk_labels.simps [of dl s])
  next
    case (Some r)
    then obtain p where p: "s = p @ ''.'' @ r" "CHR ''.'' \<notin> set p" using after_dot_split [OF Some] by blast
    have "walk_labels dl s \<longleftrightarrow> r \<in> dl \<or> walk_labels dl r"
      using Some by (simp add: walk_labels.simps [of dl s])
    also have "\<dots> \<longleftrightarrow> r \<in> dl \<or> (\<exists>e \<in> dl. \<exists>q. r = q @ ''.'' @ e)"
      using 1 [OF Some] by blast
    also have "\<dots> \<longleftrightarrow> (\<exists>e \<in> dl. \<exists>q. s = q @ ''.'' @ e)"
      by (simp only: suffix_at_dot [OF p]) blast
    finally show ?thesis .
  qed
qed

text \<open>The specification: \<open>host\<close> is an entry or a subdomain of one.\<close>

definition blocked_by :: "string \<Rightarrow> string \<Rightarrow> bool" where
  "blocked_by entry host = (host = entry \<or> (\<exists>q. host = q @ ''.'' @ entry))"

lemma deny_contains_iff:
  "deny_contains ul (Some dl) host \<longleftrightarrow>
   (let h = ToLower ul (TrimSpace host) in h \<noteq> '''' \<and> (\<exists>e \<in> dl. blocked_by e h))"
  by (simp add: deny_contains_def Let_def walk_labels_iff blocked_by_def) blast

text \<open>
  A deny list built from feed lines blocks a host exactly if the host, trimmed and lowered,
  is one of the normalised lines or a subdomain (at a label boundary) of one; blank and comment
  lines block nothing. So the label walk of \<^verbatim>\<open>Contains\<close> computes the suffix specification.
\<close>
theorem deny_list_blocks:
  "deny_contains ul (NewDenyList ul lines) host \<longleftrightarrow>
   (let h = ToLower ul (TrimSpace host) in h \<noteq> '''' \<and>
     (\<exists>raw \<in> set lines. normalizeHost ul raw \<noteq> '''' \<and> blocked_by (normalizeHost ul raw) h))"
proof (cases "NewDenyList ul lines")
  case None
  then have "add_entries ul lines {} = {}" by (auto simp: NewDenyList_def Let_def split: if_splits)
  then have "normalizeHost ul raw = ''''" if "raw \<in> set lines" for raw
    using that by (auto simp: add_entries_set)
  then show ?thesis using None by (auto simp: deny_contains_def Let_def)
next
  case (Some dl)
  then have "dl = {h. h \<noteq> '''' \<and> (\<exists>raw \<in> set lines. h = normalizeHost ul raw)}"
    by (auto simp: NewDenyList_def Let_def add_entries_set split: if_splits)
  then show ?thesis unfolding Some deny_contains_iff by (auto simp: Let_def)
qed

text \<open>
  Merging lists loses no entry and adds none: the merged list blocks a host exactly if one
  of the lists does, nil lists included.
\<close>
theorem merge_blocks: "deny_contains ul (MergeDenyLists ls) host \<longleftrightarrow> (\<exists>d \<in> set ls. deny_contains ul d host)"
proof -
  let ?h = "ToLower ul (TrimSpace host)"
  have one: "deny_contains ul d host \<longleftrightarrow> (\<exists>dl. d = Some dl \<and> ?h \<noteq> '''' \<and> (\<exists>e \<in> dl. blocked_by e ?h))" for d
    by (cases d) (simp_all add: deny_contains_iff Let_def deny_contains_def [of _ None])
  have "deny_contains ul (MergeDenyLists ls) host
      \<longleftrightarrow> ?h \<noteq> '''' \<and> (\<exists>e \<in> merge_sets ls {}. blocked_by e ?h)"
    by (auto simp: MergeDenyLists_def Let_def one)
  then show ?thesis by (auto simp: merge_sets_set one)
qed

text \<open>
  A host written with the trailing dot of a fully qualified name is never on a list whose
  entries have none, although it names the same host: \<^verbatim>\<open>evil.com.\<close> passes a list that blocks
  \<^verbatim>\<open>evil.com\<close>.
\<close>
theorem trailing_dot_not_denied:
  assumes "\<forall>e \<in> dl. e \<noteq> '''' \<and> last e \<noteq> CHR ''.''"
    and "ToLower ul (TrimSpace host) = h @ ''.''"
  shows "\<not> deny_contains ul (Some dl) host"
proof -
  have "\<not> blocked_by e (h @ ''.'')" if "e \<in> dl" for e
  proof
    assume "blocked_by e (h @ ''.'')"
    moreover have e: "e \<noteq> ''''" "last e \<noteq> CHR ''.''" using assms(1) that by simp_all
    ultimately obtain q where "h @ ''.'' = q @ e" by (auto simp: blocked_by_def)
    then have "last (h @ ''.'') = last e" using e(1) by simp
    then show False using e(2) by simp
  qed
  then show ?thesis using assms(2) by (simp add: deny_contains_iff Let_def)
qed

theorem trailing_dot_not_denied_witness:
  "deny_contains id (Some {''evil.com''}) ''evil.com'' \<and> \<not> deny_contains id (Some {''evil.com''}) ''evil.com.''"
proof -
  have trim: "TrimSpace ''evil.com'' = ''evil.com''" "TrimSpace ''evil.com.'' = ''evil.com.''"
    by code_simp+
  have low: "ToLower id ''evil.com'' = ''evil.com''" "ToLower id ''evil.com.'' = ''evil.com'' @ ''.''"
    by code_simp+
  have "deny_contains id (Some {''evil.com''}) ''evil.com''"
    by (simp add: deny_contains_iff Let_def trim low blocked_by_def)
  moreover have "\<not> deny_contains id (Some {''evil.com''}) ''evil.com.''"
    by (rule trailing_dot_not_denied [where h = "''evil.com''"]) (simp_all add: trim low)
  ultimately show ?thesis by simp
qed

end
