(* ===== verification/Validation.thy ===== *)
theory Validation
  imports Deny_List Models
begin

text \<open>
  The input checks of \<^verbatim>\<open>services/validation.go\<close>: tags, custom codes, destination URLs (scheme,
  credentials, deny list, SSRF guard) and destination pools. What the code asks of Go's URL and
  IP parsers, of DNS and of the Unicode tables is the record \<open>net_env\<close>; a value of it is what
  those answer during one request.
\<close>

section \<open>The environment\<close>

record url_parts =
  u_Scheme :: string
  u_HasUser :: bool
  u_Hostname :: string

record net_env =
  n_parse :: "string \<Rightarrow> url_parts option"   \<comment> \<open>\<^verbatim>\<open>url.Parse\<close>; \<open>None\<close> is an error\<close>
  n_ip :: "string \<Rightarrow> bytes option"           \<comment> \<open>\<^verbatim>\<open>net.ParseIP\<close>; \<open>None\<close> is nil\<close>
  n_dns :: "string \<Rightarrow> bytes list option"     \<comment> \<open>\<^verbatim>\<open>LookupIPAddr\<close>; \<open>None\<close> is an error or the timeout\<close>
  n_lower :: "string \<Rightarrow> string"              \<comment> \<open>the Unicode tables of \<^verbatim>\<open>strings.ToLower\<close>\<close>

section \<open>Errors and limits\<close>

text \<open>The sentinel errors; the two that are wrapped carry what the wrapping message adds.\<close>

datatype valid_err = ErrInvalidURL | ErrInvalidScheme | ErrURLTooLong | ErrUserInfo | ErrInvalidHost
  | ErrPrivateAddress string | ErrInvalidCustomCode | ErrReservedCode | ErrInvalidTag | ErrTooManyTags
  | ErrInvalidDestination | ErrTooManyDestinations | ErrDeniedHost string

definition MaxURLLength :: nat where "MaxURLLength = 2048"
definition MaxDestinationsPerURL :: nat where "MaxDestinationsPerURL = 10"
definition MaxDestinationWeight :: int where "MaxDestinationWeight = 100"
definition MaxTagLength :: nat where "MaxTagLength = 32"
definition MaxTagsPerURL :: nat where "MaxTagsPerURL = 16"

section \<open>Tags\<close>

text \<open>The loop of \<^verbatim>\<open>NormalizeTags\<close>; \<open>out\<close> holds the elements of \<open>seen\<close> in order.\<close>

fun normalize_loop :: "string list \<Rightarrow> string list \<Rightarrow> valid_err + string list" where
  "normalize_loop [] out = Inr out"
| "normalize_loop (raw # rest) out =
     (let t = TrimSpace raw in
        if t = '''' then normalize_loop rest out
        else if length t > MaxTagLength then Inl ErrInvalidTag
        else if t \<in> set out then normalize_loop rest out
        else normalize_loop rest (out @ [t]))"

definition NormalizeTags :: "string list \<Rightarrow> valid_err + string list" where
  "NormalizeTags xs =
     (if xs = [] then Inr []
      else case normalize_loop xs [] of
        Inl e \<Rightarrow> Inl e
      | Inr out \<Rightarrow> if length out > MaxTagsPerURL then Inl ErrTooManyTags else Inr out)"

section \<open>Hosts\<close>

definition categorizeIP :: "bytes \<Rightarrow> string" where
  "categorizeIP ip =
     (if IsLoopback ip then ''loopback''
      else if IsLinkLocalUnicast ip then ''link-local''
      else if IsMulticast ip then ''multicast''
      else if IsPrivate ip then ''private''
      else if IsUnspecified ip then ''unspecified''
      else case To4 ip of
        Some ip4 \<Rightarrow> if ip4 ! 0 = 100 \<and> and (ip4 ! 1) 0xC0 = 64 then ''cgnat'' else ''''
      | None \<Rightarrow> '''')"

fun check_resolved :: "bytes list \<Rightarrow> valid_err option" where
  "check_resolved [] = None"
| "check_resolved (ip # ips) =
     (if categorizeIP ip \<noteq> '''' then Some (ErrPrivateAddress (categorizeIP ip)) else check_resolved ips)"

definition ValidateHostAtRuntime :: "net_env \<Rightarrow> string \<Rightarrow> valid_err option" where
  "ValidateHostAtRuntime env host =
     (if host = '''' then Some ErrInvalidHost
      else let lower = ToLower (n_lower env) host in
        if lower = ''localhost'' \<or> HasSuffix lower ''.localhost'' then Some (ErrPrivateAddress ''loopback hostname'')
        else case n_ip env host of
          Some ip \<Rightarrow> if categorizeIP ip \<noteq> '''' then Some (ErrPrivateAddress (categorizeIP ip)) else None
        | None \<Rightarrow>
            (case n_dns env host of
               None \<Rightarrow> Some ErrInvalidHost
             | Some ips \<Rightarrow> if ips = [] then Some ErrInvalidHost else check_resolved ips))"

section \<open>Destination URLs and pools\<close>

definition ValidateDestinationURL :: "net_env \<Rightarrow> deny_list \<Rightarrow> string \<Rightarrow> valid_err option" where
  "ValidateDestinationURL env deny raw =
     (if length raw > MaxURLLength then Some ErrURLTooLong
      else case n_parse env raw of
        None \<Rightarrow> Some ErrInvalidURL
      | Some u \<Rightarrow>
          if u_Scheme u \<noteq> ''http'' \<and> u_Scheme u \<noteq> ''https'' then Some ErrInvalidScheme
          else if u_HasUser u then Some ErrUserInfo
          else let host = u_Hostname u in
            if deny_contains (n_lower env) deny host then Some (ErrDeniedHost host)
            else ValidateHostAtRuntime env host)"

fun destinations_loop :: "net_env \<Rightarrow> deny_list \<Rightarrow> destination list \<Rightarrow> destination list \<Rightarrow> valid_err + destination list" where
  "destinations_loop env deny [] out = Inr out"
| "destinations_loop env deny (d # ds) out =
     (if d_Weight d < 1 \<or> d_Weight d > MaxDestinationWeight then Inl ErrInvalidDestination
      else case ValidateDestinationURL env deny (d_URL d) of
        Some e \<Rightarrow> Inl e
      | None \<Rightarrow> destinations_loop env deny ds (out @ [\<lparr>d_URL = d_URL d, d_Weight = d_Weight d\<rparr>]))"

definition ValidateDestinations :: "net_env \<Rightarrow> deny_list \<Rightarrow> destination list \<Rightarrow> valid_err + destination list" where
  "ValidateDestinations env deny xs =
     (if xs = [] then Inr []
      else if length xs > MaxDestinationsPerURL then Inl ErrTooManyDestinations
      else destinations_loop env deny xs [])"

section \<open>Custom codes\<close>

definition code_char :: "char \<Rightarrow> bool" where
  "code_char c = (let n = of_char c :: nat in
     (65 \<le> n \<and> n \<le> 90) \<or> (97 \<le> n \<and> n \<le> 122) \<or> (48 \<le> n \<and> n \<le> 57) \<or> n = 95 \<or> n = 45)"

definition customCodeRegex :: "string \<Rightarrow> bool" where
  "customCodeRegex s = (3 \<le> length s \<and> length s \<le> 32 \<and> list_all code_char s)"

definition reservedCodes :: "string list" where
  "reservedCodes = [''api'', ''static'', ''healthz'', ''favicon.ico'', ''robots.txt'']"

definition ValidateCustomCode :: "(string \<Rightarrow> string) \<Rightarrow> string \<Rightarrow> valid_err option" where
  "ValidateCustomCode ul code =
     (if ToLower ul code \<in> set reservedCodes then Some ErrReservedCode
      else if \<not> customCodeRegex code then Some ErrInvalidCustomCode
      else None)"

end
