(* ===== verification/Http.thy ===== *)
theory Http
  imports Mem_Store Validation
begin

text \<open>
  Requests and replies of the handlers, as far as they are looked at, and what the handlers ask
  of the outside world. A handler is a function from a request and the store to the new store
  and one reply; the body of a request is the outcome of decoding it.
\<close>

section \<open>Requests and replies\<close>

record request =
  r_Method :: string
  r_Code :: string                       \<comment> \<open>\<^verbatim>\<open>r.PathValue("code")\<close>\<close>
  r_Header :: "string \<Rightarrow> string"          \<comment> \<open>\<^verbatim>\<open>r.Header.Get\<close>, empty when absent\<close>
  r_Query :: "string \<Rightarrow> string"           \<comment> \<open>\<^verbatim>\<open>r.URL.Query().Get\<close>\<close>
  r_RemoteAddr :: string
  r_RequestID :: string

text \<open>
  The ways the code answers: \<^verbatim>\<open>writeError\<close> (a JSON error), \<^verbatim>\<open>http.Error\<close>, \<^verbatim>\<open>http.NotFound\<close>, a
  status with a text body, a bare status, and a status with a payload.
\<close>

datatype 'a reply =
    WriteError int string
  | HttpError int string
  | NotFoundPage
  | Plain int string
  | Bare int
  | Payload int 'a

fun status_of :: "'a reply \<Rightarrow> int" where
  "status_of (WriteError n msg) = n"
| "status_of (HttpError n msg) = n"
| "status_of NotFoundPage = 404"
| "status_of (Plain n msg) = n"
| "status_of (Bare n) = n"
| "status_of (Payload n x) = n"

text \<open>The switch on the error of \<^verbatim>\<open>storage.Get\<close>, which most handlers share word for word.\<close>

definition get_error :: "store_err \<Rightarrow> 'a reply" where
  "get_error e =
     (case e of
        ErrNotFound \<Rightarrow> NotFoundPage
      | ErrExpired \<Rightarrow> Plain 410 ''This URL has expired''
      | _ \<Rightarrow> HttpError 500 ''Internal server error'')"

lemma get_error_status: "status_of (get_error e) \<in> {404, 410, 500}"
  by (cases e) (simp_all add: get_error_def)

lemma get_error_not_ok [simp]: "status_of (get_error e) \<noteq> 200" "status_of (get_error e) \<noteq> 204"
  "status_of (get_error e) \<noteq> 302"
  by (cases e; simp add: get_error_def)+

section \<open>The environment\<close>

record env = net_env +
  e_sha256 :: "string \<Rightarrow> bytes"
  e_pbkdf2 :: "string \<Rightarrow> bytes \<Rightarrow> bytes option"  \<comment> \<open>password, salt, at the fixed cost; \<open>None\<close> is an error\<close>

section \<open>Decimal numbers\<close>

fun digits :: "nat \<Rightarrow> string" where
  "digits n = (if n < 10 then [char_of (48 + n)] else digits (n div 10) @ [char_of (48 + n mod 10)])"

declare digits.simps [simp del]

text \<open>\<^verbatim>\<open>fmt.Sprintf("%d", i)\<close>.\<close>

definition show_int :: "int \<Rightarrow> string" where
  "show_int i = (if i < 0 then CHR ''-'' # digits (nat (- i)) else digits (nat i))"

end
