(* ===== verification/Click_Info.thy ===== *)
theory Click_Info
  imports Validation
begin

text \<open>
  What is stored about a click besides its time (\<^verbatim>\<open>services/clicks.go\<close>): the truncated
  referer, the class of the user agent, the salted hash of the client address. The regular
  expressions are case-insensitive alternations of literals; Go folds \<^verbatim>\<open>s\<close> and \<^verbatim>\<open>k\<close> with one
  non-ASCII rune each, which \<open>match_char\<close> takes into account.
\<close>

section \<open>Referer and address\<close>

definition MaxRefererLength :: nat where "MaxRefererLength = 512"

definition TruncateReferer :: "string \<Rightarrow> string" where
  "TruncateReferer r = (if length r > MaxRefererLength then take MaxRefererLength r else r)"

definition hex_digit :: "nat \<Rightarrow> char" where
  "hex_digit n = ''0123456789abcdef'' ! (n mod 16)"

text \<open>\<^verbatim>\<open>hex.EncodeToString\<close>.\<close>

definition hex_encode :: "bytes \<Rightarrow> string" where
  "hex_encode bs = concat (map (\<lambda>b. [hex_digit (unat b div 16), hex_digit (unat b)]) bs)"

text \<open>
  The salt \<^verbatim>\<open>SetClickSalt\<close> installs (\<open>rnd\<close> are the 16 random bytes of the fallback), and the
  hash of an address under it; SHA-256 is the argument \<open>sha\<close>, on the bytes as characters.
\<close>

definition SetClickSalt :: "string \<Rightarrow> string \<Rightarrow> string" where
  "SetClickSalt salt rnd = (if salt \<noteq> '''' then salt else rnd)"

definition HashIP :: "(string \<Rightarrow> bytes) \<Rightarrow> string \<Rightarrow> string \<Rightarrow> string" where
  "HashIP sha salt ip = (if ip = '''' then '''' else hex_encode (sha (salt @ ip)))"

section \<open>User agents\<close>

text \<open>One pattern letter (lower case) against the front of the text: the number of bytes it takes.\<close>

definition match_char :: "char \<Rightarrow> string \<Rightarrow> nat option" where
  "match_char p s =
     (if s = [] then None
      else if lower_char (hd s) = p then Some 1
      else if p = CHR ''s'' \<and> take 2 s = [CHR 0xC5, CHR 0xBF] then Some 2
      else if p = CHR ''k'' \<and> take 3 s = [CHR 0xE2, CHR 0x84, CHR 0xAA] then Some 3
      else None)"

text \<open>A literal against the front of the text: what is left of the text after it.\<close>

fun match_lit :: "string \<Rightarrow> string \<Rightarrow> string option" where
  "match_lit [] s = Some s"
| "match_lit (p # ps) s = (case match_char p s of None \<Rightarrow> None | Some n \<Rightarrow> match_lit ps (drop n s))"

fun find_lit :: "string \<Rightarrow> string \<Rightarrow> bool" where
  "find_lit p [] = (match_lit p [] \<noteq> None)"
| "find_lit p (c # s) = (match_lit p (c # s) \<noteq> None \<or> find_lit p s)"

text \<open>\<^verbatim>\<open>.*lit\<close> from the front of the text: the dot does not match a newline.\<close>

fun find_lit_line :: "string \<Rightarrow> string \<Rightarrow> bool" where
  "find_lit_line p [] = (match_lit p [] \<noteq> None)"
| "find_lit_line p (c # s) = (match_lit p (c # s) \<noteq> None \<or> (c \<noteq> CHR 0x0A \<and> find_lit_line p s))"

fun find_seq :: "string \<Rightarrow> string \<Rightarrow> string \<Rightarrow> bool" where
  "find_seq p q [] = (case match_lit p [] of None \<Rightarrow> False | Some r \<Rightarrow> find_lit_line q r)"
| "find_seq p q (c # s) =
     ((case match_lit p (c # s) of None \<Rightarrow> False | Some r \<Rightarrow> find_lit_line q r) \<or> find_seq p q s)"

definition uaBotRE :: "string \<Rightarrow> bool" where
  "uaBotRE ua = list_ex (\<lambda>p. find_lit p ua)
     [''bot'', ''crawler'', ''spider'', ''scraper'', ''slurp'', ''duckduckbot'', ''baiduspider'', ''yandexbot'',
      ''sogou'', ''exabot'', ''ia_archiver'', ''curl'', ''wget'', ''python-requests'']"

definition uaTabletRE :: "string \<Rightarrow> bool" where
  "uaTabletRE ua = list_ex (\<lambda>p. find_lit p ua) [''ipad'', ''tablet'']"

definition uaMobileRE :: "string \<Rightarrow> bool" where
  "uaMobileRE ua = (find_seq ''android'' ''mobile'' ua \<or>
     list_ex (\<lambda>p. find_lit p ua) [''iphone'', ''ipod'', ''windows phone'', ''mobile safari'', ''opera mini''])"

text \<open>\<^verbatim>\<open>strings.Contains\<close>.\<close>

fun contains :: "string \<Rightarrow> string \<Rightarrow> bool" where
  "contains [] p = (p = [])"
| "contains (c # s) p = (HasPrefix (c # s) p \<or> contains s p)"

definition ClassifyUserAgent :: "(string \<Rightarrow> string) \<Rightarrow> string \<Rightarrow> string" where
  "ClassifyUserAgent ul ua =
     (if ua = '''' then ''unknown''
      else if uaBotRE ua then ''bot''
      else if uaTabletRE ua then ''tablet''
      else if uaMobileRE ua then ''mobile''
      else if contains (ToLower ul ua) ''mozilla'' then ''desktop''
      else ''unknown'')"

lemma TruncateReferer_length: "length (TruncateReferer r) \<le> MaxRefererLength"
  by (simp add: TruncateReferer_def)

end
