(* ===== verification/Middleware.thy ===== *)
theory Middleware
  imports Http Click_Info
begin

text \<open>
  The middleware stack (\<^verbatim>\<open>middleware/requestid.go\<close>, \<^verbatim>\<open>logging.go\<close>, \<^verbatim>\<open>metrics.go\<close>,
  \<^verbatim>\<open>recover.go\<close>, \<^verbatim>\<open>security.go\<close>, \<^verbatim>\<open>csrf.go\<close>) and the chain \<^verbatim>\<open>app.go\<close> builds of it. What a
  handler does to its \<^verbatim>\<open>ResponseWriter\<close> is a list of actions; a middleware transforms handlers
  over the state of one response and of the observability registers.
\<close>

section \<open>Responses\<close>

text \<open>
  Header names are case-insensitive: they are kept in lower case. The status line and the headers
  are fixed by the first \<^verbatim>\<open>WriteHeader\<close>, or by the first \<^verbatim>\<open>Write\<close> with status 200; a later
  \<^verbatim>\<open>WriteHeader\<close> has no effect on the wire. \<open>x_code\<close> and \<open>x_bytes\<close> are what the wrapping
  \<^verbatim>\<open>responseWriter\<close>s of Logger and Metrics see, which note every \<^verbatim>\<open>WriteHeader\<close>; the two wrap
  each other directly, so they see the same calls.
\<close>

type_synonym headers = "string \<Rightarrow> string option"

record log_line =
  l_Method :: string
  l_Route :: string
  l_Status :: int
  l_Bytes :: int
  l_RequestID :: string

record exchange =
  x_headers :: headers                    \<comment> \<open>\<^verbatim>\<open>w.Header()\<close>\<close>
  x_sent :: "(int \<times> headers) option"      \<comment> \<open>status and headers on the wire\<close>
  x_body :: string
  x_code :: int
  x_bytes :: int
  x_pattern :: string                     \<comment> \<open>\<^verbatim>\<open>r.Pattern\<close>, set by the mux\<close>
  x_inFlight :: int
  x_requests :: "(string \<times> string, int) gomap"
  x_panics :: int
  x_log :: "log_line list"

definition header_name :: "string \<Rightarrow> string" where
  "header_name = map lower_char"

datatype action =
    SetHeader string string
  | WriteHeader int
  | Write string
  | Panic

definition set_header :: "string \<Rightarrow> string \<Rightarrow> exchange \<Rightarrow> exchange" where
  "set_header k v x = x\<lparr>x_headers := (x_headers x)(header_name k \<mapsto> v)\<rparr>"

definition send_status :: "int \<Rightarrow> exchange \<Rightarrow> exchange" where
  "send_status n x = (if x_sent x = None then x\<lparr>x_sent := Some (n, x_headers x)\<rparr> else x)"

definition write_header :: "int \<Rightarrow> exchange \<Rightarrow> exchange" where
  "write_header n x = send_status n (x\<lparr>x_code := n\<rparr>)"

definition write_body :: "string \<Rightarrow> exchange \<Rightarrow> exchange" where
  "write_body b x = (let y = send_status 200 x in y\<lparr>x_body := x_body y @ b, x_bytes := x_bytes y + int (length b)\<rparr>)"

text \<open>The actions of a handler in order, and whether it panicked.\<close>

fun run_actions :: "action list \<Rightarrow> exchange \<Rightarrow> exchange \<times> bool" where
  "run_actions [] x = (x, False)"
| "run_actions (SetHeader k v # as) x = run_actions as (set_header k v x)"
| "run_actions (WriteHeader n # as) x = run_actions as (write_header n x)"
| "run_actions (Write b # as) x = run_actions as (write_body b x)"
| "run_actions (Panic # as) x = (x, True)"

type_synonym handler = "request \<Rightarrow> exchange \<Rightarrow> exchange \<times> bool"

text \<open>A routed application: the pattern the mux sets and what the matched handler does.\<close>

definition mux_handler :: "(request \<Rightarrow> string \<times> action list) \<Rightarrow> handler" where
  "mux_handler app r x = (case app r of (pat, as) \<Rightarrow> run_actions as (x\<lparr>x_pattern := pat\<rparr>))"

section \<open>The middlewares\<close>

definition http_error :: "string \<Rightarrow> int \<Rightarrow> action list" where
  "http_error msg code = [SetHeader ''Content-Type'' ''text/plain; charset=utf-8'',
     SetHeader ''X-Content-Type-Options'' ''nosniff'', WriteHeader code, Write (msg @ [CHR 0x0A])]"

definition RequireXRequestedWith :: "handler \<Rightarrow> handler" where
  "RequireXRequestedWith next_handler r x =
     (if r_Header r ''X-Requested-With'' \<noteq> ''XMLHttpRequest''
      then run_actions (http_error ''missing required header X-Requested-With'' 403) x
      else next_handler r x)"

text \<open>\<open>rnd\<close> is what \<^verbatim>\<open>rand.Read\<close> leaves in the eight-byte buffer.\<close>

definition newRequestID :: "bytes \<Rightarrow> string" where
  "newRequestID rnd = hex_encode rnd"

definition request_id :: "bytes \<Rightarrow> request \<Rightarrow> string" where
  "request_id rnd r =
     (let i = r_Header r ''X-Request-ID'' in if i = '''' \<or> length i > 64 then newRequestID rnd else i)"

definition RequestID :: "bytes \<Rightarrow> handler \<Rightarrow> handler" where
  "RequestID rnd next_handler r x =
     next_handler (r\<lparr>r_RequestID := request_id rnd r\<rparr>) (set_header ''X-Request-ID'' (request_id rnd r) x)"

definition csp :: string where
  "csp = ''default-src 'self'; img-src 'self' data:; style-src 'self'; script-src 'self'; base-uri 'self'; form-action 'self'; frame-ancestors '' @ [CHR 0x27] @ ''none'' @ [CHR 0x27]"

definition security_headers :: "bool \<Rightarrow> (string \<times> string) list" where
  "security_headers tls =
     [(''X-Content-Type-Options'', ''nosniff''), (''X-Frame-Options'', ''DENY''),
      (''Referrer-Policy'', ''no-referrer''), (''Content-Security-Policy'', csp)]
     @ (if tls then [(''Strict-Transport-Security'', ''max-age=31536000; includeSubDomains'')] else [])"

definition SecurityHeaders :: "bool \<Rightarrow> handler \<Rightarrow> handler" where
  "SecurityHeaders tls next_handler r x = next_handler r (fold (\<lambda>(k, v). set_header k v) (security_headers tls) x)"

definition Recover :: "handler \<Rightarrow> handler" where
  "Recover next_handler r x =
     (case next_handler r x of
        (y, False) \<Rightarrow> (y, False)
      | (y, True) \<Rightarrow> (write_body ''internal server error'' (write_header 500 (y\<lparr>x_panics := x_panics y + 1\<rparr>)), False))"

definition routeLabel :: "string \<Rightarrow> string" where
  "routeLabel pattern = (if pattern = '''' then ''unmatched'' else pattern)"

text \<open>\<^verbatim>\<open>strconv.Itoa(statusCode/100) + "xx"\<close>; a status is positive.\<close>

definition status_class :: "int \<Rightarrow> string" where
  "status_class n = show_int (n div 100) @ ''xx''"

text \<open>
  The registry of \<^verbatim>\<open>/metrics\<close>: a metric of the service with its labels, or one of the two
  collectors of the Prometheus library. The \<^verbatim>\<open>init\<close> of \<^verbatim>\<open>metrics.go\<close> registers the counter of
  \<open>x_requests\<close>, the latency histogram, the gauge of \<open>x_inFlight\<close> and both library collectors, that
  of \<^verbatim>\<open>recover.go\<close> then the counter of \<open>x_panics\<close>. Registering a name twice would panic.
\<close>

datatype collector =
    Metric string "string list"
  | ProcessCollector
  | GoCollector

definition metricsRegistry :: "collector list" where
  "metricsRegistry =
     [Metric ''tinyurl_http_requests_total'' [''route'', ''status_class''],
      Metric ''tinyurl_http_request_duration_seconds'' [''route'', ''status_class''],
      Metric ''tinyurl_http_requests_in_flight'' [],
      ProcessCollector, GoCollector]"

definition panicsTotal :: "collector list \<Rightarrow> collector list" where
  "panicsTotal registry = registry @ [Metric ''tinyurl_panics_total'' []]"

fun metric_name :: "collector \<Rightarrow> string option" where
  "metric_name (Metric name labels) = Some name"
| "metric_name _ = None"

lemma registry_distinct: "distinct (List.map_filter metric_name (panicsTotal metricsRegistry))"
  by (simp add: metricsRegistry_def panicsTotal_def List.map_filter_def)

text \<open>A panic of the inner handler would skip what follows the call.\<close>

definition Metrics :: "handler \<Rightarrow> handler" where
  "Metrics next_handler r x =
     (case next_handler r (x\<lparr>x_inFlight := x_inFlight x + 1, x_code := 200, x_bytes := 0\<rparr>) of
        (y, True) \<Rightarrow> (y, True)
      | (y, False) \<Rightarrow>
          (let k = (routeLabel (x_pattern y), status_class (x_code y))
           in (y\<lparr>x_inFlight := x_inFlight y - 1,
                 x_requests := AList.update k (opt_or 0 (map_of (x_requests y) k) + 1) (x_requests y)\<rparr>, False)))"

definition probeRoutes :: "string list" where
  "probeRoutes = [''GET /healthz'', ''GET /readyz'', ''GET /metrics'', ''GET /favicon.ico'']"

definition Logger :: "handler \<Rightarrow> handler" where
  "Logger next_handler r x =
     (case next_handler r (x\<lparr>x_code := 200, x_bytes := 0\<rparr>) of
        (y, True) \<Rightarrow> (y, True)
      | (y, False) \<Rightarrow>
          if x_pattern y \<in> set probeRoutes \<and> x_code y < 400 then (y, False)
          else (y\<lparr>x_log := x_log y @ [\<lparr>l_Method = r_Method r, l_Route = x_pattern y, l_Status = x_code y,
                  l_Bytes = x_bytes y, l_RequestID = r_RequestID r\<rparr>]\<rparr>, False))"

text \<open>The gate of \<^verbatim>\<open>/metrics\<close>: whether the exposition is served.\<close>

definition metrics_allowed :: "string \<Rightarrow> request \<Rightarrow> bool" where
  "metrics_allowed token r =
     (if token = '''' then True
      else let auth = r_Header r ''Authorization''
           in HasPrefix auth ''Bearer '' \<and> TrimSpace (drop (length ''Bearer '') auth) = token)"

definition GatedMetricsHandler :: "string \<Rightarrow> (request \<Rightarrow> action list) \<Rightarrow> request \<Rightarrow> action list" where
  "GatedMetricsHandler token inner r =
     (if metrics_allowed token r then inner r
      else SetHeader ''WWW-Authenticate'' ''Bearer realm=\"metrics\"'' # http_error ''unauthorized'' 401)"

text \<open>The chain of \<^verbatim>\<open>buildHandler\<close>, and the server's flush of a response nothing was written to.\<close>

definition core_chain :: "bytes \<Rightarrow> bool \<Rightarrow> handler \<Rightarrow> handler" where
  "core_chain rnd tls outer = RequestID rnd (Logger (Metrics (Recover (SecurityHeaders tls outer))))"

definition serve :: "bytes \<Rightarrow> bool \<Rightarrow> handler \<Rightarrow> request \<Rightarrow> exchange \<Rightarrow> exchange" where
  "serve rnd tls outer r x =
     send_status 200 (fst (core_chain rnd tls outer r (x\<lparr>x_headers := Map.empty, x_sent := None, x_body := ''''\<rparr>)))"

section \<open>Headers that stay\<close>

text \<open>The headers every reply is to carry, as a map from lower-case names.\<close>

definition protected_headers :: "bool \<Rightarrow> string \<Rightarrow> headers" where
  "protected_headers tls rid = map_of (map (\<lambda>(k, v). (header_name k, v)) ((''X-Request-ID'', rid) # security_headers tls))"

text \<open>A handler honours them if it sets none of them to another value.\<close>

fun honours :: "headers \<Rightarrow> action \<Rightarrow> bool" where
  "honours P (SetHeader k v) = (P (header_name k) = None \<or> P (header_name k) = Some v)"
| "honours P a = True"

definition carries :: "headers \<Rightarrow> exchange \<Rightarrow> bool" where
  "carries P x = (P \<subseteq>\<^sub>m x_headers x \<and> (case x_sent x of None \<Rightarrow> True | Some (n, h) \<Rightarrow> P \<subseteq>\<^sub>m h))"

lemma send_status_carries: "carries P x \<Longrightarrow> carries P (send_status n x)"
  by (auto simp: carries_def send_status_def)

lemma set_header_carries: "carries P x \<Longrightarrow> honours P (SetHeader k v) \<Longrightarrow> carries P (set_header k v x)"
  by (auto simp: carries_def set_header_def map_le_def dom_def)

lemma carries_frame [simp]:
  "carries P (x\<lparr>x_code := n\<rparr>) = carries P x" "carries P (x\<lparr>x_body := b, x_bytes := m\<rparr>) = carries P x"
  "carries P (x\<lparr>x_panics := i\<rparr>) = carries P x" "carries P (x\<lparr>x_pattern := s\<rparr>) = carries P x"
  by (simp_all add: carries_def)

lemma write_carries: "carries P x \<Longrightarrow> carries P (write_header n x)" "carries P x \<Longrightarrow> carries P (write_body b x)"
  by (simp_all add: write_header_def write_body_def Let_def send_status_carries)

lemma run_actions_carries: "carries P x \<Longrightarrow> list_all (honours P) as \<Longrightarrow> carries P (fst (run_actions as x))"
  by (induction as x rule: run_actions.induct) (simp_all add: set_header_carries write_carries del: honours.simps(1))

section \<open>What the writes of a handler leave alone\<close>

definition quiet :: "exchange \<Rightarrow> exchange \<Rightarrow> bool" where
  "quiet x y = (x_pattern y = x_pattern x \<and> x_inFlight y = x_inFlight x \<and> x_requests y = x_requests x
    \<and> x_panics y = x_panics x \<and> x_log y = x_log x)"

lemma quiet_refl: "quiet x x"
  by (simp add: quiet_def)

lemma quiet_trans: "quiet x y \<Longrightarrow> quiet y z \<Longrightarrow> quiet x z"
  by (simp add: quiet_def)

lemma quiet_steps: "quiet x (set_header k v x)" "quiet x (write_header n x)" "quiet x (write_body b x)" "quiet x (send_status n x)"
  by (simp_all add: quiet_def set_header_def write_header_def write_body_def send_status_def Let_def)

lemma run_actions_quiet: "quiet x (fst (run_actions as x))"
proof (induction as x rule: run_actions.induct)
  case (2 k v as x)
  then show ?case using quiet_trans [OF quiet_steps(1)] by simp
next
  case (3 n as x)
  then show ?case using quiet_trans [OF quiet_steps(2)] by simp
next
  case (4 b as x)
  then show ?case using quiet_trans [OF quiet_steps(3)] by simp
qed (simp_all add: quiet_refl)

lemma fold_set_header_quiet: "quiet x (fold (\<lambda>(k, v). set_header k v) hs x)"
proof (induction hs arbitrary: x)
  case (Cons h hs)
  show ?case by (cases h) (use quiet_trans [OF quiet_steps(1) Cons.IH] in simp)
qed (simp add: quiet_refl)

text \<open>When a handler panics, and whether it has started its reply by then.\<close>

lemma run_actions_panics: "snd (run_actions as x) = (Panic \<in> set as)"
  by (induction as x rule: run_actions.induct) simp_all

fun first_status :: "action list \<Rightarrow> int option" where
  "first_status [] = None"
| "first_status (SetHeader k v # as) = first_status as"
| "first_status (WriteHeader n # as) = Some n"
| "first_status (Write b # as) = Some 200"
| "first_status (Panic # as) = None"

fun written :: "action list \<Rightarrow> string" where
  "written [] = []"
| "written (SetHeader k v # as) = written as"
| "written (WriteHeader n # as) = written as"
| "written (Write b # as) = b @ written as"
| "written (Panic # as) = []"

lemma run_actions_sent: "x_sent x = Some w \<Longrightarrow> x_sent (fst (run_actions as x)) = Some w"
  by (induction as x rule: run_actions.induct)
    (simp_all add: set_header_def write_header_def write_body_def send_status_def Let_def)

lemma run_actions_first: "x_sent x = None \<Longrightarrow> map_option fst (x_sent (fst (run_actions as x))) = first_status as"
proof (induction as x rule: run_actions.induct)
  case (3 n as x)
  have "x_sent (write_header n x) = Some (n, x_headers x)" using 3 by (simp add: write_header_def send_status_def)
  from run_actions_sent [OF this, of as] show ?case by simp
next
  case (4 b as x)
  have "x_sent (write_body b x) = Some (200, x_headers x)" using 4 by (simp add: write_body_def send_status_def Let_def)
  from run_actions_sent [OF this, of as] show ?case by simp
qed (simp_all add: set_header_def)

lemma run_actions_written: "x_body (fst (run_actions as x)) = x_body x @ written as"
  by (induction as x rule: run_actions.induct)
    (simp_all add: set_header_def write_header_def write_body_def send_status_def Let_def)

section \<open>The chain\<close>

text \<open>The protected names are distinct, so setting the headers one after the other sets them all.\<close>

lemma protected_distinct: "distinct (map (\<lambda>(k, v). header_name k) ((''X-Request-ID'', rid) # security_headers tls))"
proof -
  have "list_all (\<lambda>tls. distinct (map (\<lambda>(k, v). header_name k) ((''X-Request-ID'', []) # security_headers tls))) [False, True]"
    by code_simp
  then show ?thesis by (cases tls) simp_all
qed

lemma fold_set_header:
  "distinct (map (\<lambda>(k, v). header_name k) hs) \<Longrightarrow>
    x_headers (fold (\<lambda>(k, v). set_header k v) hs x) = x_headers x ++ map_of (map (\<lambda>(k, v). (header_name k, v)) hs)"
proof (induction hs arbitrary: x)
  case (Cons h hs)
  obtain k v where h: "h = (k, v)" by (cases h)
  have "map_of (map (\<lambda>(k, v). (header_name k, v)) hs) (header_name k) = None"
    using Cons.prems by (auto simp: h map_of_eq_None_iff image_iff case_prod_unfold)
  then show ?case
    using Cons by (auto simp: h set_header_def map_add_def fun_eq_iff split: option.split)
qed simp

lemma protected_set:
  "protected_headers tls rid \<subseteq>\<^sub>m
     x_headers (fold (\<lambda>(k, v). set_header k v) (security_headers tls) (set_header ''X-Request-ID'' rid x))"
proof -
  have hs: "fold (\<lambda>(k, v). set_header k v) (security_headers tls) (set_header ''X-Request-ID'' rid x)
      = fold (\<lambda>(k, v). set_header k v) ((''X-Request-ID'', rid) # security_headers tls) x" by simp
  show ?thesis unfolding hs fold_set_header [OF protected_distinct] protected_headers_def by (rule map_le_map_add)
qed

text \<open>
  What happens under the recovering middleware: the reply of the handler, or the 500 if it
  panicked; the registers except the count of panics are those of before.
\<close>

definition guarded_run :: "action list \<Rightarrow> exchange \<Rightarrow> exchange" where
  "guarded_run as x =
     (let y = fst (run_actions as x) in
      if Panic \<in> set as then write_body ''internal server error'' (write_header 500 (y\<lparr>x_panics := x_panics y + 1\<rparr>)) else y)"

lemma guarded_run_registers:
  "x_pattern (guarded_run as x) = x_pattern x \<and> x_inFlight (guarded_run as x) = x_inFlight x
    \<and> x_requests (guarded_run as x) = x_requests x \<and> x_log (guarded_run as x) = x_log x
    \<and> x_panics (guarded_run as x) = x_panics x + (if Panic \<in> set as then 1 else 0)"
  using run_actions_quiet [of x as] quiet_steps(2) [of "fst (run_actions as x)\<lparr>x_panics := x_panics (fst (run_actions as x)) + 1\<rparr>" 500]
  by (simp add: guarded_run_def Let_def quiet_def write_body_def write_header_def send_status_def)

lemma guarded_run_carries: "carries P x \<Longrightarrow> list_all (honours P) as \<Longrightarrow> carries P (guarded_run as x)"
  by (simp add: guarded_run_def Let_def run_actions_carries write_carries)

lemma guarded_run_code: "Panic \<in> set as \<Longrightarrow> x_code (guarded_run as x) = 500"
  by (simp add: guarded_run_def Let_def write_body_def write_header_def send_status_def)

lemma guarded_run_reply:
  assumes "x_sent x = None"
  shows "map_option fst (x_sent (guarded_run as x))
      = (case first_status as of Some n \<Rightarrow> Some n | None \<Rightarrow> if Panic \<in> set as then Some 500 else None)"
    and "x_body (guarded_run as x) = x_body x @ written as @ (if Panic \<in> set as then ''internal server error'' else [])"
  using run_actions_first [OF assms, of as] run_actions_written [of as x]
  by (auto simp: guarded_run_def Let_def write_body_def write_header_def send_status_def split: option.split)

text \<open>The chain, unwound: the headers, the guarded run of the routed handler, the count, the log line.\<close>

definition chain_start :: "bool \<Rightarrow> string \<Rightarrow> string \<Rightarrow> exchange \<Rightarrow> exchange" where
  "chain_start tls rid pat x =
     (fold (\<lambda>(k, v). set_header k v) (security_headers tls)
        (set_header ''X-Request-ID'' rid (x\<lparr>x_headers := Map.empty, x_sent := None, x_body := ''''\<rparr>)
          \<lparr>x_inFlight := x_inFlight x + 1, x_code := 200, x_bytes := 0\<rparr>))\<lparr>x_pattern := pat\<rparr>"

definition counted :: "exchange \<Rightarrow> exchange" where
  "counted y = (let k = (routeLabel (x_pattern y), status_class (x_code y)) in
     y\<lparr>x_inFlight := x_inFlight y - 1, x_requests := AList.update k (opt_or 0 (map_of (x_requests y) k) + 1) (x_requests y)\<rparr>)"

definition logged :: "string \<Rightarrow> string \<Rightarrow> exchange \<Rightarrow> exchange" where
  "logged meth rid y =
     (if x_pattern y \<in> set probeRoutes \<and> x_code y < 400 then y
      else y\<lparr>x_log := x_log y @ [\<lparr>l_Method = meth, l_Route = x_pattern y, l_Status = x_code y, l_Bytes = x_bytes y,
        l_RequestID = rid\<rparr>]\<rparr>)"

lemma set_header_frame: "set_header k v x\<lparr>x_inFlight := i, x_code := c, x_bytes := b\<rparr>
    = set_header k v (x\<lparr>x_inFlight := i, x_code := c, x_bytes := b\<rparr>)"
  by (simp add: set_header_def)

lemma serve_eq:
  assumes "app (r\<lparr>r_RequestID := request_id rnd r\<rparr>) = (pat, as)"
  shows "serve rnd tls (mux_handler app) r x = send_status 200 (logged (r_Method r) (request_id rnd r)
    (counted (guarded_run as (chain_start tls (request_id rnd r) pat x))))"
proof -
  obtain y p where y: "run_actions as (chain_start tls (request_id rnd r) pat x) = (y, p)" by fastforce
  then have p: "p = (Panic \<in> set as)" using run_actions_panics [of as] by (metis snd_conv)
  have "Recover (SecurityHeaders tls (mux_handler app)) (r\<lparr>r_RequestID := request_id rnd r\<rparr>)
      (set_header ''X-Request-ID'' (request_id rnd r) (x\<lparr>x_headers := Map.empty, x_sent := None, x_body := ''''\<rparr>)
          \<lparr>x_inFlight := x_inFlight x + 1, x_code := 200, x_bytes := 0\<rparr>)
    = (guarded_run as (chain_start tls (request_id rnd r) pat x), False)"
    using y p by (cases p) (simp_all add: Recover_def SecurityHeaders_def mux_handler_def assms guarded_run_def chain_start_def Let_def)
  then show ?thesis
    by (simp add: serve_def core_chain_def RequestID_def Logger_def Metrics_def counted_def logged_def Let_def set_header_def)
qed

lemma chain_start_carries: "carries (protected_headers tls rid) (chain_start tls rid pat x)"
proof -
  have "x_sent (fold (\<lambda>(k, v). set_header k v) hs y) = x_sent y" for hs y
    by (induction hs arbitrary: y) (auto simp: set_header_def)
  then show ?thesis
    using protected_set by (simp add: carries_def chain_start_def set_header_frame) (simp add: set_header_def)
qed

lemma request_id_length: "length rnd = 8 \<Longrightarrow> 0 < length (request_id rnd r) \<and> length (request_id rnd r) \<le> 64"
proof -
  assume "length rnd = 8"
  then have "length (newRequestID rnd) = 16"
    by (simp add: newRequestID_def hex_encode_def length_concat comp_def sum_list_triv)
  then show ?thesis by (auto simp: request_id_def Let_def)
qed

text \<open>
  C34. Under the chain of middlewares a handler that gives no protected header another value (as the
  probes and every header name the handlers of the repository set, theory Probes) has a reply with
  every security header (HSTS exactly under TLS) and a request ID of 1 to 64 bytes, the client's own
  when it sent one of that length. The status is the one the handler started its reply with, also
  when it panics after that; it is 500 for a panic before the reply was started and 200 when it
  never started one. The body is what the handler wrote, followed by the fixed text after a panic.
\<close>

theorem response_hardened:
  assumes "length rnd = 8"
    and "app (r\<lparr>r_RequestID := request_id rnd r\<rparr>) = (pat, as)"
    and "list_all (honours (protected_headers tls (request_id rnd r))) as"
  shows "\<exists>n h. x_sent (serve rnd tls (mux_handler app) r x) = Some (n, h)
    \<and> protected_headers tls (request_id rnd r) \<subseteq>\<^sub>m h
    \<and> 0 < length (request_id rnd r) \<and> length (request_id rnd r) \<le> 64
    \<and> (0 < length (r_Header r ''X-Request-ID'') \<and> length (r_Header r ''X-Request-ID'') \<le> 64
         \<longrightarrow> request_id rnd r = r_Header r ''X-Request-ID'')
    \<and> n = (case first_status as of Some code \<Rightarrow> code | None \<Rightarrow> if Panic \<in> set as then 500 else 200)
    \<and> x_body (serve rnd tls (mux_handler app) r x)
        = written as @ (if Panic \<in> set as then ''internal server error'' else [])"
proof -
  let ?rid = "request_id rnd r" and ?x = "chain_start tls (request_id rnd r) pat x"
  let ?y = "guarded_run as ?x" and ?z = "serve rnd tls (mux_handler app) r x"
  have start: "x_sent ?x = None" "x_body ?x = []"
  proof -
    have "x_sent (fold (\<lambda>(k, v). set_header k v) hs w) = x_sent w \<and> x_body (fold (\<lambda>(k, v). set_header k v) hs w) = x_body w" for hs w
      by (induction hs arbitrary: w) (auto simp: set_header_def)
    then show "x_sent ?x = None" "x_body ?x = []" by (simp_all add: chain_start_def set_header_def)
  qed
  have "carries (protected_headers tls ?rid) ?y"
    using chain_start_carries assms(3) by (rule guarded_run_carries)
  moreover have z: "x_sent ?z = x_sent (send_status 200 ?y)" "x_body ?z = x_body ?y"
    by (simp_all add: serve_eq [where app = app and r = r, OF assms(2)] send_status_def logged_def counted_def Let_def)
  ultimately obtain n h where nh: "x_sent ?z = Some (n, h)" "protected_headers tls ?rid \<subseteq>\<^sub>m h"
    by (cases "x_sent ?y") (auto simp: carries_def send_status_def)
  have "n = (case first_status as of Some code \<Rightarrow> code | None \<Rightarrow> if Panic \<in> set as then 500 else 200)"
    using guarded_run_reply(1) [OF start(1), of as] nh(1) z(1)
    by (cases "x_sent ?y") (auto simp: send_status_def split: option.splits if_splits)
  then show ?thesis
    using nh request_id_length [OF assms(1), of r] guarded_run_reply(2) [OF start(1), of as] start(2) z(2)
    by (auto simp: request_id_def Let_def)
qed

lemma serve_registers:
  assumes "app (r\<lparr>r_RequestID := request_id rnd r\<rparr>) = (pat, as)"
    and "z = serve rnd tls (mux_handler app) r x" and "k = (routeLabel pat, status_class (x_code z))"
  shows "x_inFlight z = x_inFlight x
    \<and> x_requests z = AList.update k (opt_or 0 (map_of (x_requests x) k) + 1) (x_requests x)
    \<and> x_panics z = x_panics x + (if Panic \<in> set as then 1 else 0) \<and> (Panic \<in> set as \<longrightarrow> x_code z = 500)
    \<and> x_log z = x_log x @ (if pat \<in> set probeRoutes \<and> x_code z < 400 then []
        else [\<lparr>l_Method = r_Method r, l_Route = pat, l_Status = x_code z, l_Bytes = x_bytes z, l_RequestID = request_id rnd r\<rparr>])"
proof -
  let ?x = "chain_start tls (request_id rnd r) pat x" and ?y = "guarded_run as (chain_start tls (request_id rnd r) pat x)"
  have start: "x_pattern ?x = pat" "x_inFlight ?x = x_inFlight x + 1" "x_requests ?x = x_requests x" "x_log ?x = x_log x" "x_panics ?x = x_panics x"
  proof -
    let ?s = "set_header ''X-Request-ID'' (request_id rnd r) (x\<lparr>x_headers := Map.empty, x_sent := None, x_body := []\<rparr>)
        \<lparr>x_inFlight := x_inFlight x + 1, x_code := 200, x_bytes := 0\<rparr>"
    show "x_pattern ?x = pat" by (simp add: chain_start_def)
    show "x_inFlight ?x = x_inFlight x + 1" "x_requests ?x = x_requests x" "x_log ?x = x_log x" "x_panics ?x = x_panics x"
      using fold_set_header_quiet [of ?s "security_headers tls"] by (simp_all add: chain_start_def quiet_def) (simp_all add: set_header_def)
  qed
  have z: "x_code z = x_code ?y" "x_bytes z = x_bytes ?y" "x_inFlight z = x_inFlight ?y - 1" "x_panics z = x_panics ?y"
    "x_requests z = x_requests (counted ?y)" "x_log z = x_log (logged (r_Method r) (request_id rnd r) (counted ?y))"
    unfolding assms(2) serve_eq [where app = app and r = r, OF assms(1)]
    by (simp_all add: send_status_def logged_def counted_def Let_def)
  show ?thesis
    using guarded_run_registers [of as ?x] guarded_run_code [of as ?x]
    by (simp add: z start assms(3)) (simp add: logged_def counted_def Let_def start)
qed

text \<open>
  C29. Every request is observed exactly once: afterwards as many requests are in flight as before,
  exactly one counter, that of the matched pattern (or of unmatched) and of the class of the
  status, has grown, by one; a panic is counted and shows as 500; and one line with the request's
  ID is logged unless it is a probe answered below 400.
\<close>

theorem request_accounted:
  assumes "app (r\<lparr>r_RequestID := request_id rnd r\<rparr>) = (pat, as)"
    and "z = serve rnd tls (mux_handler app) r x" and "k = (routeLabel pat, status_class (x_code z))"
  shows "x_inFlight z = x_inFlight x
    \<and> map_of (x_requests z) = (map_of (x_requests x))(k \<mapsto> opt_or 0 (map_of (x_requests x) k) + 1)
    \<and> x_panics z = x_panics x + (if Panic \<in> set as then 1 else 0) \<and> (Panic \<in> set as \<longrightarrow> x_code z = 500)
    \<and> x_log z = x_log x @ (if pat \<in> set probeRoutes \<and> x_code z < 400 then []
        else [\<lparr>l_Method = r_Method r, l_Route = pat, l_Status = x_code z, l_Bytes = x_bytes z, l_RequestID = request_id rnd r\<rparr>])"
  using serve_registers [OF assms] by simp

definition probe_request :: request where
  "probe_request = \<lparr>r_Method = ''GET'', r_Code = [], r_Header = (\<lambda>h. []), r_Query = (\<lambda>q. []),
     r_RemoteAddr = ''1.2.3.4:5'', r_RequestID = []\<rparr>"

definition idle_exchange :: exchange where
  "idle_exchange = \<lparr>x_headers = Map.empty, x_sent = None, x_body = [], x_code = 200, x_bytes = 0, x_pattern = [],
     x_inFlight = 0, x_requests = [], x_panics = 0, x_log = []\<rparr>"

text \<open>A handler that sets a header and panics, before or after it has started its reply.\<close>

definition panicking :: "request \<Rightarrow> string \<times> action list" where
  "panicking r = (''GET /{code}'', [SetHeader ''Cache-Control'' ''no-store'', Panic])"

definition late_panic :: "request \<Rightarrow> string \<times> action list" where
  "late_panic r = (''GET /{code}'', [WriteHeader 206, Write ''a'', Panic])"

theorem response_hardened_witness:
  "(\<exists>h. x_sent (serve (replicate 8 1) True (mux_handler panicking) probe_request idle_exchange) = Some (500, h))
   \<and> (\<exists>h. x_sent (serve (replicate 8 1) True (mux_handler late_panic) probe_request idle_exchange) = Some (206, h))"
proof -
  have "list_all (honours (protected_headers True (request_id (replicate 8 1) probe_request)))
      [SetHeader ''Cache-Control'' ''no-store'', Panic]" by code_simp
  then show ?thesis
    using response_hardened [where app = panicking and rnd = "replicate 8 1" and r = probe_request and tls = True
        and x = idle_exchange, OF _ panicking_def]
      response_hardened [where app = late_panic and rnd = "replicate 8 1" and r = probe_request and tls = True
        and x = idle_exchange, OF _ late_panic_def] by auto
qed

theorem request_accounted_witness:
  "x_panics (serve (replicate 8 1) True (mux_handler panicking) probe_request idle_exchange) = 1"
  using request_accounted [where app = panicking, OF panicking_def refl refl, where rnd = "replicate 8 1" and r = probe_request and tls = True
      and x = idle_exchange] by (simp add: idle_exchange_def)

end
