(* ===== verification/Short_Code.thy ===== *)
theory Short_Code
  imports Mem_Store Validation
begin

text \<open>
  \<^verbatim>\<open>services/shortcode.go\<close> and \<^verbatim>\<open>services/destination_picker.go\<close>: random base62 codes by
  rejection sampling, the retry loop around them, and the weighted choice of a destination. The
  outcomes of \<^verbatim>\<open>crypto/rand.Read\<close> are arguments: \<open>None\<close> is an error, \<open>Some buf\<close> the bytes read.
\<close>

section \<open>Random codes\<close>

definition shortCodeLength :: nat where "shortCodeLength = 6"
definition maxRetries :: nat where "maxRetries = 5"

definition base62Chars :: string where
  "base62Chars = ''0123456789abcdefghijklmnopqrstuvwxyzABCDEFGHIJKLMNOPQRSTUVWXYZ''"

definition base62RejectThreshold :: nat where
  "base62RejectThreshold = 256 - (256 mod 62)"

definition base62_char :: "8 word \<Rightarrow> char" where
  "base62_char b = base62Chars ! (unat b mod 62)"

text \<open>
  The inner loop of \<^verbatim>\<open>generateRandomBase62\<close> over one buffer: \<open>code\<close> is \<^verbatim>\<open>code[:pos]\<close>, and the
  \<^verbatim>\<open>break\<close> leaves the rest of the buffer unread.
\<close>

fun scan_buf :: "nat \<Rightarrow> bytes \<Rightarrow> string \<Rightarrow> string" where
  "scan_buf n [] code = code"
| "scan_buf n (b # buf) code =
     (if unat b \<ge> base62RejectThreshold then scan_buf n buf code
      else let code' = code @ [base62_char b] in
        if length code' = n then code' else scan_buf n buf code')"

text \<open>
  The outer loop, over the outcomes of the reads it makes. A list of reads that ends before
  the code is complete gives \<open>None\<close>, like a read that fails.
\<close>

fun fill_code :: "nat \<Rightarrow> bytes option list \<Rightarrow> string \<Rightarrow> string option" where
  "fill_code n reads code =
     (if length code < n then
        (case reads of
           [] \<Rightarrow> None
         | None # _ \<Rightarrow> None
         | Some buf # rest \<Rightarrow> fill_code n rest (scan_buf n buf code))
      else Some code)"

declare fill_code.simps [simp del]

definition generateRandomBase62 :: "nat \<Rightarrow> bytes option list \<Rightarrow> string option" where
  "generateRandomBase62 n reads = fill_code n reads ''''"

text \<open>\<^verbatim>\<open>GenerateShortCode\<close>: \<open>draws k\<close> are the reads of attempt \<open>k\<close>.\<close>

fun try_codes :: "nat \<Rightarrow> nat \<Rightarrow> (nat \<Rightarrow> bytes option list) \<Rightarrow> (string \<Rightarrow> bool) \<Rightarrow> string option" where
  "try_codes 0 k draws taken = None"
| "try_codes (Suc n) k draws taken =
     (case generateRandomBase62 shortCodeLength (draws k) of
        None \<Rightarrow> None
      | Some code \<Rightarrow> if \<not> taken code then Some code else try_codes n (Suc k) draws taken)"

definition GenerateShortCode :: "'s store_ops \<Rightarrow> (nat \<Rightarrow> bytes option list) \<Rightarrow> 's \<Rightarrow> string option" where
  "GenerateShortCode ops draws s = try_codes maxRetries 0 draws (\<lambda>c. st_Exists ops c s)"

section \<open>Rejection sampling is exact\<close>

definition accepted :: "8 word \<Rightarrow> bool" where
  "accepted b = (unat b < base62RejectThreshold)"

lemma scan_buf_spec:
  "length code < n \<Longrightarrow>
   scan_buf n buf code = code @ map base62_char (take (n - length code) (filter accepted buf))"
proof (induction n buf code rule: scan_buf.induct)
  case (1 n code)
  show ?case by simp
next
  case (2 n b buf code)
  show ?case
  proof (cases "accepted b")
    case False
    then show ?thesis using 2 by (simp add: accepted_def)
  next
    case True
    then have acc: "\<not> base62RejectThreshold \<le> unat b" by (simp add: accepted_def)
    show ?thesis
    proof (cases "Suc (length code) = n")
      case True
      then show ?thesis using acc \<open>accepted b\<close> by (auto simp: Let_def)
    next
      case False
      then have "Suc (length code) < n" using 2(3) by simp
      moreover from this have "n - length code = Suc (n - Suc (length code))" by simp
      ultimately show ?thesis using 2(2) [OF acc refl] False acc \<open>accepted b\<close> by (simp add: Let_def)
    qed
  qed
qed

lemma fill_code_spec:
  "length code \<le> n \<Longrightarrow>
   fill_code n (map Some bufs) code =
     (let acc = filter accepted (concat bufs); need = n - length code
      in if need \<le> length acc then Some (code @ map base62_char (take need acc)) else None)"
proof (induction bufs arbitrary: code)
  case Nil
  then show ?case by (auto simp: fill_code.simps)
next
  case (Cons buf bufs)
  show ?case
  proof (cases "length code < n")
    case False
    then show ?thesis using Cons.prems by (simp add: fill_code.simps)
  next
    case True
    let ?c = "scan_buf n buf code"
    have c: "?c = code @ map base62_char (take (n - length code) (filter accepted buf))"
      using scan_buf_spec [OF True] .
    then have "length ?c \<le> n" using True by simp
    moreover have "n - (length code + min k (n - length code)) = n - (length code + k)" for k
      using True by (auto simp: min_def)
    ultimately show ?thesis using True c Cons.IH [of ?c]
      by (auto simp: fill_code.simps [of n "Some buf # map Some bufs"] Let_def)
  qed
qed

text \<open>
  \<^verbatim>\<open>generateRandomBase62\<close> on the buffers it reads: the code is the first \<open>n\<close> accepted bytes
  (those below the threshold) of the buffers, one character each, in order; the function returns
  as soon as they hold \<open>n\<close> accepted bytes, and keeps reading only while they do not.
\<close>
theorem random_code_spec:
  "generateRandomBase62 n (map Some bufs) =
     (if n \<le> length (filter accepted (concat bufs))
      then Some (map base62_char (take n (filter accepted (concat bufs)))) else None)"
  by (simp add: generateRandomBase62_def fill_code_spec Let_def)

text \<open>
  The rejection threshold removes the bias: every character of the alphabet is produced by
  exactly four of the 256 byte values, and no accepted byte produces anything else.
\<close>
theorem rejection_uniform:
  "card {b. accepted b \<and> base62_char b = c} = (if c \<in> set base62Chars then 4 else 0)"
proof (cases "c \<in> set base62Chars")
  case False
  have "base62_char b \<in> set base62Chars" for b
    unfolding base62_char_def by (rule nth_mem) (simp add: base62Chars_def)
  with False have "{b. accepted b \<and> base62_char b = c} = {}" by auto
  then show ?thesis using False by simp
next
  case True
  have len: "length base62Chars = 62" by (simp add: base62Chars_def)
  from True obtain i where i: "i < 62" "c = base62Chars ! i"
    unfolding in_set_conv_nth len by blast
  have dist: "distinct base62Chars" unfolding base62Chars_def by code_simp
  have "base62_char b = c \<longleftrightarrow> unat b mod 62 = i" for b
    using nth_eq_iff_index_eq [OF dist, of "unat b mod 62" i] i len by (simp add: base62_char_def)
  then have "{b. accepted b \<and> base62_char b = c} = {b :: 8 word. unat b < 248 \<and> unat b mod 62 = i}"
    by (simp add: accepted_def base62RejectThreshold_def)
  also have "\<dots> = of_nat ` {i, i + 62, i + 124, i + 186}"
  proof (intro set_eqI iffI)
    fix b :: "8 word"
    assume "b \<in> {b. unat b < 248 \<and> unat b mod 62 = i}"
    then have b: "unat b < 248" "unat b mod 62 = i" by simp_all
    define q where "q = unat b div 62"
    have "unat b = 62 * q + i" using b(2) mult_div_mod_eq [of 62 "unat b"] by (simp add: q_def)
    moreover have "q < 4" using b(1) by (simp add: q_def less_mult_imp_div_less)
    then have "q = 0 \<or> q = 1 \<or> q = 2 \<or> q = 3" by arith
    ultimately have "unat b \<in> {i, i + 62, i + 124, i + 186}" by (elim disjE) simp_all
    moreover have "b = of_nat (unat b)" by simp
    ultimately show "b \<in> of_nat ` {i, i + 62, i + 124, i + 186}" by (rule rev_image_eqI)
  next
    fix b :: "8 word"
    assume "b \<in> of_nat ` {i, i + 62, i + 124, i + 186}"
    then obtain k where k: "k \<in> {i, i + 62, i + 124, i + 186}" "b = of_nat k" by blast
    have "k < 248" "k mod 62 = i" using k(1) i(1) mod_mult_self1 [of i 2 62] mod_mult_self1 [of i 3 62] by auto
    moreover have "unat b = k" using k(2) calculation(1) by (simp add: unat_of_nat take_bit_eq_mod)
    ultimately show "b \<in> {b. unat b < 248 \<and> unat b mod 62 = i}" by simp
  qed
  also have "card \<dots> = card {i, i + 62, i + 124, i + 186}"
  proof (rule card_image, rule inj_onI)
    fix x y
    assume "x \<in> {i, i + 62, i + 124, i + 186}" "y \<in> {i, i + 62, i + 124, i + 186}"
      and eq: "(of_nat x :: 8 word) = of_nat y"
    then have "x < 256" "y < 256" using i(1) by auto
    then show "x = y" using arg_cong [OF eq, of unat] by (simp add: unat_of_nat take_bit_eq_mod)
  qed
  finally show ?thesis using True by simp
qed


section \<open>Generated codes\<close>

lemma random_code_chars:
  "fill_code n reads code = Some c \<Longrightarrow> set code \<subseteq> set base62Chars \<Longrightarrow> length code \<le> n \<Longrightarrow>
   length c = n \<and> set c \<subseteq> set base62Chars"
proof (induction n reads code rule: fill_code.induct)
  case (1 n reads code)
  show ?case
  proof (cases "length code < n")
    case False
    then show ?thesis using 1 by (simp add: fill_code.simps [of n reads code])
  next
    case True
    then obtain buf rest where r: "reads = Some buf # rest"
        and f: "fill_code n rest (scan_buf n buf code) = Some c"
      using 1(2) by (auto simp: fill_code.simps [of n reads code] split: list.splits option.splits)
    have ch: "base62_char b \<in> set base62Chars" for b
      unfolding base62_char_def by (rule nth_mem) (simp add: base62Chars_def)
    have "set (scan_buf n buf code) \<subseteq> set base62Chars" "length (scan_buf n buf code) \<le> n"
      using scan_buf_spec [OF True, of buf] 1(3) True ch by auto
    then show ?thesis using 1(1) [OF True r refl f] by simp
  qed
qed

lemma try_codes_Some:
  "try_codes n k draws taken = Some c \<Longrightarrow> \<not> taken c \<and> length c = shortCodeLength \<and> set c \<subseteq> set base62Chars"
  by (induction n k draws taken rule: try_codes.induct)
    (auto simp: generateRandomBase62_def dest!: random_code_chars split: option.splits if_splits)

lemma base62_code_char: "c \<in> set base62Chars \<Longrightarrow> code_char c"
proof -
  have "list_all code_char base62Chars" by code_simp
  then show "c \<in> set base62Chars \<Longrightarrow> code_char c" by (simp add: list_all_iff)
qed

text \<open>A generated code has the form of a custom code, and it is free.\<close>

context url_store
begin

lemma generated_code:
  assumes "valid s" and "GenerateShortCode ops draws s = Some c"
  shows "view s c = None \<and> length c = 6 \<and> set c \<subseteq> set base62Chars \<and> customCodeRegex c"
  using assms try_codes_Some [OF assms(2) [unfolded GenerateShortCode_def]]
  by (auto simp: exists_spec shortCodeLength_def customCodeRegex_def list_all_iff base62_code_char)

end

end
