(* ===== verification/Routes.thy ===== *)
theory Routes
  imports Middleware Short_Code
begin

text \<open>
  Routing: Go's \<^verbatim>\<open>http.ServeMux\<close> on the two route tables of \<^verbatim>\<open>app.go\<close>, with the guards each route
  is wrapped in, which codes the redirect handler is reached by, and the labels of the metrics.
\<close>

section \<open>http.ServeMux\<close>

text \<open>
  A pattern is an optional method and a list of segments, literal or wildcard; a trailing slash
  makes it match every longer path. A path is the list of its (decoded) segments, \<^verbatim>\<open>/\<close> being the
  one empty segment; paths with dots or double slashes, which the mux answers with a redirect to
  the cleaned path before it matches anything, are not considered.
\<close>

datatype segment = Lit string | Wild string

record pattern =
  pt_Method :: string     \<comment> \<open>empty for any method\<close>
  pt_Segs :: "segment list"
  pt_Rest :: bool

definition parse_segment :: "string \<Rightarrow> segment" where
  "parse_segment s = (if HasPrefix s ''{'' then Wild (butlast (tl s)) else Lit s)"

text \<open>\<^verbatim>\<open>parsePattern\<close>, for patterns without a host.\<close>

definition parse_pattern :: "string \<Rightarrow> pattern" where
  "parse_pattern s =
     (let (meth, path) = (case Split CHR '' '' s of [p] \<Rightarrow> ('''', p) | m # p # _ \<Rightarrow> (m, p) | [] \<Rightarrow> ('''', ''''));
          segs = tl (Split CHR ''/'' path)
      in if last segs = '''' then \<lparr>pt_Method = meth, pt_Segs = map parse_segment (butlast segs), pt_Rest = True\<rparr>
         else \<lparr>pt_Method = meth, pt_Segs = map parse_segment segs, pt_Rest = False\<rparr>)"

text \<open>The bindings of a match. A wildcard does not match the empty segment of a trailing slash.\<close>

fun match_segs :: "segment list \<Rightarrow> bool \<Rightarrow> string list \<Rightarrow> (string \<times> string) list option" where
  "match_segs [] rest path = (if rest = (path \<noteq> []) then Some [] else None)"
| "match_segs (Lit l # ps) rest (s # path) = (if s = l then match_segs ps rest path else None)"
| "match_segs (Wild w # ps) rest (s # path) =
     (if s = '''' then None else map_option ((#) (w, s)) (match_segs ps rest path))"
| "match_segs (p # ps) rest [] = None"

text \<open>
  Of the patterns that match, the most specific one is taken: at the first difference a literal
  precedes a wildcard, and a wildcard the trailing slash.
\<close>

fun more_specific :: "segment list \<Rightarrow> segment list \<Rightarrow> bool" where
  "more_specific (Lit a # ps) (Wild w # qs) = True"
| "more_specific (Wild w # ps) (Lit a # qs) = False"
| "more_specific (p # ps) (q # qs) = more_specific ps qs"
| "more_specific (p # ps) [] = True"
| "more_specific [] qs = False"

fun best_match :: "(pattern \<times> 'h) list \<Rightarrow> string list \<Rightarrow> (pattern \<times> 'h) option" where
  "best_match [] path = None"
| "best_match ((p, h) # rs) path =
     (if match_segs (pt_Segs p) (pt_Rest p) path = None then best_match rs path
      else case best_match rs path of
        None \<Rightarrow> Some (p, h)
      | Some (q, k) \<Rightarrow> if more_specific (pt_Segs q) (pt_Segs p) then Some (q, k) else Some (p, h))"

definition with_method :: "string \<Rightarrow> (pattern \<times> 'h) list \<Rightarrow> (pattern \<times> 'h) list" where
  "with_method m rs = filter (\<lambda>(p, h). pt_Method p = m) rs"

datatype 'h route_result = Found 'h "(string \<times> string) list" | MethodNotAllowed | NoRoute

definition found :: "string list \<Rightarrow> pattern \<times> 'h \<Rightarrow> 'h route_result" where
  "found path ph = Found (snd ph) (case match_segs (pt_Segs (fst ph)) (pt_Rest (fst ph)) path of None \<Rightarrow> [] | Some bs \<Rightarrow> bs)"

text \<open>
  The patterns of the request's method come first, for HEAD then those of GET, then those for any
  method; when only patterns of other methods match, the answer is 405.
\<close>

definition mux_find :: "(pattern \<times> 'h) list \<Rightarrow> string \<Rightarrow> string list \<Rightarrow> 'h route_result" where
  "mux_find rs meth path =
     (case best_match (with_method meth rs) path of
        Some ph \<Rightarrow> found path ph
      | None \<Rightarrow>
          (case (if meth = ''HEAD'' then best_match (with_method ''GET'' rs) path else None) of
             Some ph \<Rightarrow> found path ph
           | None \<Rightarrow>
               (case best_match (with_method '''' rs) path of
                  Some ph \<Rightarrow> found path ph
                | None \<Rightarrow> if best_match rs path = None then NoRoute else MethodNotAllowed)))"

section \<open>The routes of app.go\<close>

datatype endpoint = ShortenE | BulkE | DeleteE | PatchE | RotateE | KeysE | MyURLsE | AuditE
  | AnalyticsE | ClicksE | ExportE | SeriesE | StreamE | QRE | BadgeE | RedirectE | StaticE | IndexE

datatype guard = WriteLimiter | XHRHeader

text \<open>Pattern, guards from the outside in, handler.\<close>

definition app_table :: "(string \<times> guard list \<times> endpoint) list" where
  "app_table =
     [(''POST /api/shorten'', [WriteLimiter, XHRHeader], ShortenE),
      (''POST /api/shorten/bulk'', [WriteLimiter, XHRHeader], BulkE),
      (''DELETE /api/url/{code}'', [WriteLimiter], DeleteE),
      (''PATCH /api/url/{code}'', [WriteLimiter], PatchE),
      (''POST /api/url/{code}/rotate'', [WriteLimiter], RotateE),
      (''POST /api/keys'', [WriteLimiter, XHRHeader], KeysE),
      (''GET /api/keys'', [], KeysE),
      (''PATCH /api/keys'', [], KeysE),
      (''DELETE /api/keys'', [], KeysE),
      (''GET /api/urls'', [], MyURLsE),
      (''GET /api/audit'', [], AuditE),
      (''GET /api/analytics/{code}'', [], AnalyticsE),
      (''GET /api/analytics/{code}/clicks'', [], ClicksE),
      (''GET /api/analytics/{code}/export'', [], ExportE),
      (''GET /api/analytics/{code}/series'', [], SeriesE),
      (''GET /api/analytics/{code}/stream'', [], StreamE),
      (''GET /api/qr/{code}'', [], QRE),
      (''GET /api/badge/{code}'', [], BadgeE),
      (''GET /{code}'', [], RedirectE),
      (''POST /{code}'', [], RedirectE),
      (''GET /static/'', [], StaticE),
      (''GET /'', [], IndexE)]"

datatype outer_endpoint = HealthE | ReadyE | MetricsE | FaviconE | AppE

definition outer_table :: "(string \<times> outer_endpoint) list" where
  "outer_table =
     [(''GET /healthz'', HealthE), (''GET /readyz'', ReadyE), (''GET /metrics'', MetricsE),
      (''GET /favicon.ico'', FaviconE), (''/'', AppE)]"

definition app_routes :: "(pattern \<times> string \<times> guard list \<times> endpoint) list" where
  "app_routes = map (\<lambda>(s, h). (parse_pattern s, s, h)) app_table"

definition outer_routes :: "(pattern \<times> string \<times> outer_endpoint) list" where
  "outer_routes = map (\<lambda>(s, h). (parse_pattern s, s, h)) outer_table"

text \<open>
  Where a request ends: at a probe of the outer mux, refused by the read limiter, or in the
  application mux with its guards and bindings. The string is the final \<^verbatim>\<open>r.Pattern\<close>.
\<close>

datatype destination_of_request =
    Probe string outer_endpoint
  | ReadRefused string
  | Routed string "guard list" endpoint "(string \<times> string) list"
  | AppNotAllowed
  | AppNotFound
  | OuterUnmatched

definition app_dispatch :: "string \<Rightarrow> string list \<Rightarrow> destination_of_request" where
  "app_dispatch meth path =
     (case mux_find app_routes meth path of
        Found (pat, gs, e) bs \<Rightarrow> Routed pat gs e bs
      | MethodNotAllowed \<Rightarrow> AppNotAllowed
      | NoRoute \<Rightarrow> AppNotFound)"

definition dispatch :: "bool \<Rightarrow> string \<Rightarrow> string list \<Rightarrow> destination_of_request" where
  "dispatch read_ok meth path =
     (case mux_find outer_routes meth path of
        Found (pat, AppE) bs \<Rightarrow> if read_ok then app_dispatch meth path else ReadRefused pat
      | Found (pat, e) bs \<Rightarrow> Probe pat e
      | _ \<Rightarrow> OuterUnmatched)"

section \<open>The tables, parsed\<close>

lemma app_routes_eq: "app_routes =
  [(\<lparr>pt_Method = ''POST'', pt_Segs = [Lit ''api'', Lit ''shorten''], pt_Rest = False\<rparr>, ''POST /api/shorten'', [WriteLimiter, XHRHeader], ShortenE),
   (\<lparr>pt_Method = ''POST'', pt_Segs = [Lit ''api'', Lit ''shorten'', Lit ''bulk''], pt_Rest = False\<rparr>, ''POST /api/shorten/bulk'', [WriteLimiter, XHRHeader], BulkE),
   (\<lparr>pt_Method = ''DELETE'', pt_Segs = [Lit ''api'', Lit ''url'', Wild ''code''], pt_Rest = False\<rparr>, ''DELETE /api/url/{code}'', [WriteLimiter], DeleteE),
   (\<lparr>pt_Method = ''PATCH'', pt_Segs = [Lit ''api'', Lit ''url'', Wild ''code''], pt_Rest = False\<rparr>, ''PATCH /api/url/{code}'', [WriteLimiter], PatchE),
   (\<lparr>pt_Method = ''POST'', pt_Segs = [Lit ''api'', Lit ''url'', Wild ''code'', Lit ''rotate''], pt_Rest = False\<rparr>, ''POST /api/url/{code}/rotate'', [WriteLimiter], RotateE),
   (\<lparr>pt_Method = ''POST'', pt_Segs = [Lit ''api'', Lit ''keys''], pt_Rest = False\<rparr>, ''POST /api/keys'', [WriteLimiter, XHRHeader], KeysE),
   (\<lparr>pt_Method = ''GET'', pt_Segs = [Lit ''api'', Lit ''keys''], pt_Rest = False\<rparr>, ''GET /api/keys'', [], KeysE),
   (\<lparr>pt_Method = ''PATCH'', pt_Segs = [Lit ''api'', Lit ''keys''], pt_Rest = False\<rparr>, ''PATCH /api/keys'', [], KeysE),
   (\<lparr>pt_Method = ''DELETE'', pt_Segs = [Lit ''api'', Lit ''keys''], pt_Rest = False\<rparr>, ''DELETE /api/keys'', [], KeysE),
   (\<lparr>pt_Method = ''GET'', pt_Segs = [Lit ''api'', Lit ''urls''], pt_Rest = False\<rparr>, ''GET /api/urls'', [], MyURLsE),
   (\<lparr>pt_Method = ''GET'', pt_Segs = [Lit ''api'', Lit ''audit''], pt_Rest = False\<rparr>, ''GET /api/audit'', [], AuditE),
   (\<lparr>pt_Method = ''GET'', pt_Segs = [Lit ''api'', Lit ''analytics'', Wild ''code''], pt_Rest = False\<rparr>, ''GET /api/analytics/{code}'', [], AnalyticsE),
   (\<lparr>pt_Method = ''GET'', pt_Segs = [Lit ''api'', Lit ''analytics'', Wild ''code'', Lit ''clicks''], pt_Rest = False\<rparr>, ''GET /api/analytics/{code}/clicks'', [], ClicksE),
   (\<lparr>pt_Method = ''GET'', pt_Segs = [Lit ''api'', Lit ''analytics'', Wild ''code'', Lit ''export''], pt_Rest = False\<rparr>, ''GET /api/analytics/{code}/export'', [], ExportE),
   (\<lparr>pt_Method = ''GET'', pt_Segs = [Lit ''api'', Lit ''analytics'', Wild ''code'', Lit ''series''], pt_Rest = False\<rparr>, ''GET /api/analytics/{code}/series'', [], SeriesE),
   (\<lparr>pt_Method = ''GET'', pt_Segs = [Lit ''api'', Lit ''analytics'', Wild ''code'', Lit ''stream''], pt_Rest = False\<rparr>, ''GET /api/analytics/{code}/stream'', [], StreamE),
   (\<lparr>pt_Method = ''GET'', pt_Segs = [Lit ''api'', Lit ''qr'', Wild ''code''], pt_Rest = False\<rparr>, ''GET /api/qr/{code}'', [], QRE),
   (\<lparr>pt_Method = ''GET'', pt_Segs = [Lit ''api'', Lit ''badge'', Wild ''code''], pt_Rest = False\<rparr>, ''GET /api/badge/{code}'', [], BadgeE),
   (\<lparr>pt_Method = ''GET'', pt_Segs = [Wild ''code''], pt_Rest = False\<rparr>, ''GET /{code}'', [], RedirectE),
   (\<lparr>pt_Method = ''POST'', pt_Segs = [Wild ''code''], pt_Rest = False\<rparr>, ''POST /{code}'', [], RedirectE),
   (\<lparr>pt_Method = ''GET'', pt_Segs = [Lit ''static''], pt_Rest = True\<rparr>, ''GET /static/'', [], StaticE),
   (\<lparr>pt_Method = ''GET'', pt_Segs = [], pt_Rest = True\<rparr>, ''GET /'', [], IndexE)]"
  by code_simp

lemma outer_routes_eq: "outer_routes =
  [(\<lparr>pt_Method = ''GET'', pt_Segs = [Lit ''healthz''], pt_Rest = False\<rparr>, ''GET /healthz'', HealthE),
   (\<lparr>pt_Method = ''GET'', pt_Segs = [Lit ''readyz''], pt_Rest = False\<rparr>, ''GET /readyz'', ReadyE),
   (\<lparr>pt_Method = ''GET'', pt_Segs = [Lit ''metrics''], pt_Rest = False\<rparr>, ''GET /metrics'', MetricsE),
   (\<lparr>pt_Method = ''GET'', pt_Segs = [Lit ''favicon.ico''], pt_Rest = False\<rparr>, ''GET /favicon.ico'', FaviconE),
   (\<lparr>pt_Method = '''', pt_Segs = [], pt_Rest = True\<rparr>, ''/'', AppE)]"
  by code_simp

section \<open>The mux finds matching routes, and all of them\<close>

lemma best_match_sound:
  "best_match rs path = Some (p, h) \<Longrightarrow> (p, h) \<in> set rs \<and> match_segs (pt_Segs p) (pt_Rest p) path \<noteq> None"
proof (induction rs arbitrary: p h)
  case (Cons r rs)
  obtain q k where r: "r = (q, k)" by (cases r)
  show ?case
  proof (cases "best_match rs path")
    case None
    then show ?thesis using Cons.prems by (auto simp: r split: if_splits)
  next
    case (Some b)
    obtain p' h' where b: "b = (p', h')" by (cases b)
    show ?thesis using Cons.prems Cons.IH Some by (auto simp: r b split: if_splits)
  qed
qed simp

lemma best_match_None: "best_match rs path = None \<longleftrightarrow> (\<forall>(p, h) \<in> set rs. match_segs (pt_Segs p) (pt_Rest p) path = None)"
  by (induction rs) (auto split: option.splits if_splits)

text \<open>A route that is found is one of the table, for the method, with the bindings of its match.\<close>

lemma found_sound:
  "best_match (with_method m rs) path = Some ph \<Longrightarrow> found path ph = Found h bs \<Longrightarrow>
    \<exists>p. (p, h) \<in> set rs \<and> pt_Method p = m \<and> match_segs (pt_Segs p) (pt_Rest p) path = Some bs"
  by (cases ph) (auto dest!: best_match_sound simp: with_method_def found_def)

lemma mux_find_sound:
  assumes "mux_find rs meth path = Found h bs"
  shows "\<exists>p. (p, h) \<in> set rs \<and> match_segs (pt_Segs p) (pt_Rest p) path = Some bs
    \<and> (pt_Method p = meth \<or> meth = ''HEAD'' \<and> pt_Method p = ''GET'' \<or> pt_Method p = '''')"
  using assms by (auto simp: mux_find_def split: option.splits if_splits dest!: found_sound)

lemma mux_find_complete:
  "mux_find rs meth path = NoRoute \<longleftrightarrow> (\<forall>(p, h) \<in> set rs. match_segs (pt_Segs p) (pt_Rest p) path = None)"
proof -
  have sub: "best_match rs path = None \<Longrightarrow> best_match (with_method m rs) path = None" for m
    by (auto simp: best_match_None with_method_def)
  have "mux_find rs meth path = NoRoute \<longleftrightarrow> best_match rs path = None"
    using sub by (auto simp: mux_find_def found_def split: option.splits if_splits)
  then show ?thesis by (simp only: best_match_None)
qed

section \<open>What the route tables promise\<close>

lemma dispatch_Routed:
  assumes "dispatch read_ok meth path = Routed pat gs e bs"
  shows "read_ok \<and> (\<exists>p. (p, pat, gs, e) \<in> set app_routes \<and> match_segs (pt_Segs p) (pt_Rest p) path = Some bs
    \<and> (pt_Method p = meth \<or> meth = ''HEAD'' \<and> pt_Method p = ''GET''))"
proof -
  have app: "read_ok \<and> app_dispatch meth path = Routed pat gs e bs"
    using assms by (auto simp: dispatch_def split: route_result.splits outer_endpoint.splits if_splits)
  then have "mux_find app_routes meth path = Found (pat, gs, e) bs"
    by (auto simp: app_dispatch_def split: route_result.splits)
  note s = mux_find_sound [OF this]
  have "list_all (\<lambda>(p, h). pt_Method p \<noteq> '''') app_routes" by (simp add: app_routes_eq)
  then show ?thesis using s app by (auto simp: list_all_iff)
qed

text \<open>
  C25. A request that reaches an application handler has passed the read limiter. A write (any method but
  GET and HEAD) has passed the write limiter as well, except the password form, \<^verbatim>\<open>PATCH /api/keys\<close>
  and \<^verbatim>\<open>DELETE /api/keys\<close>; and it carries the CSRF header exactly if it is one of the three POSTs
  that create something. A read reaches no handler that creates, changes or deletes a mapping.
\<close>

theorem writes_limited:
  assumes "dispatch read_ok meth path = Routed pat gs e bs"
  shows "read_ok
    \<and> (meth \<notin> {''GET'', ''HEAD''} \<longrightarrow>
        (WriteLimiter \<in> set gs \<longleftrightarrow> \<not> (e = RedirectE \<or> e = KeysE \<and> meth \<in> {''PATCH'', ''DELETE''}))
        \<and> (XHRHeader \<in> set gs \<longleftrightarrow> meth = ''POST'' \<and> e \<in> {ShortenE, BulkE, KeysE}))
    \<and> (meth \<in> {''GET'', ''HEAD''} \<longrightarrow> gs = [] \<and> e \<notin> {ShortenE, BulkE, DeleteE, PatchE, RotateE})"
proof -
  obtain p where p: "(p, pat, gs, e) \<in> set app_routes" "pt_Method p = meth \<or> meth = ''HEAD'' \<and> pt_Method p = ''GET''"
    using dispatch_Routed [OF assms] by blast
  have "list_all (\<lambda>(p, pat, gs, e).
      (pt_Method p \<noteq> ''GET'' \<longrightarrow> pt_Method p \<noteq> ''HEAD''
        \<and> (WriteLimiter \<in> set gs \<longleftrightarrow> \<not> (e = RedirectE \<or> e = KeysE \<and> pt_Method p \<in> {''PATCH'', ''DELETE''}))
        \<and> (XHRHeader \<in> set gs \<longleftrightarrow> pt_Method p = ''POST'' \<and> e \<in> {ShortenE, BulkE, KeysE}))
      \<and> (pt_Method p = ''GET'' \<longrightarrow> gs = [] \<and> e \<notin> {ShortenE, BulkE, DeleteE, PatchE, RotateE})) app_routes"
    by (simp add: app_routes_eq)
  then show ?thesis using p dispatch_Routed [OF assms] by (auto simp: list_all_iff)
qed

theorem writes_limited_witness:
  "dispatch True ''DELETE'' [''api'', ''keys''] = Routed ''DELETE /api/keys'' [] KeysE [] \<and> WriteLimiter \<notin> set ([] :: guard list)"
proof -
  have d: "dispatch True ''DELETE'' [''api'', ''keys''] = Routed ''DELETE /api/keys'' [] KeysE []" by code_simp
  show ?thesis using writes_limited [OF d] d by simp
qed

section \<open>Which codes can be followed\<close>

text \<open>Paths of one segment: only the pattern \<^verbatim>\<open>/{code}\<close> of the application mux has one.\<close>

lemma single_segment:
  assumes "c \<noteq> []" "c \<notin> {''healthz'', ''readyz'', ''metrics'', ''favicon.ico''}"
  shows "dispatch True ''GET'' [c] = Routed ''GET /{code}'' [] RedirectE [(''code'', c)]"
proof -
  have "mux_find outer_routes ''GET'' [c] = Found (''/'', AppE) []"
    using assms by (simp add: mux_find_def outer_routes_eq with_method_def found_def)
  moreover have "mux_find app_routes ''GET'' [c] = Found (''GET /{code}'', [], RedirectE) [(''code'', c)]"
    using assms(1) by (simp add: mux_find_def app_routes_eq with_method_def found_def)
  ultimately show ?thesis by (simp add: dispatch_def app_dispatch_def)
qed

lemma single_segment_post:
  assumes "c \<noteq> []"
  shows "dispatch True ''POST'' [c] = Routed ''POST /{code}'' [] RedirectE [(''code'', c)]"
proof -
  have "mux_find outer_routes ''POST'' [c] = Found (''/'', AppE) []"
    by (simp add: mux_find_def outer_routes_eq with_method_def found_def)
  moreover have "mux_find app_routes ''POST'' [c] = Found (''POST /{code}'', [], RedirectE) [(''code'', c)]"
    using assms by (simp add: mux_find_def app_routes_eq with_method_def found_def)
  ultimately show ?thesis by (simp add: dispatch_def app_dispatch_def)
qed

lemma probe_segment:
  "dispatch ok ''GET'' [''readyz''] = Probe ''GET /readyz'' ReadyE" "dispatch ok ''GET'' [''metrics''] = Probe ''GET /metrics'' MetricsE"
  by (cases ok; code_simp)+

lemma code_char_ascii: "list_all code_char c \<Longrightarrow> list_all is_ascii c"
  by (auto simp: list_all_iff code_char_def is_ascii_def Let_def)

lemma favicon_not_code: "\<not> list_all code_char ''favicon.ico''"
  by code_simp

lemma custom_code_chars: "ValidateCustomCode ul c = None \<Longrightarrow> c \<noteq> [] \<and> list_all code_char c \<and> c \<noteq> ''healthz''"
proof -
  assume v: "ValidateCustomCode ul c = None"
  have "ToLower ul ''healthz'' = ''healthz''" by (simp add: ToLower_def is_ascii_def lower_char_def)
  then have "c \<noteq> ''healthz''" using v by (auto simp: ValidateCustomCode_def reservedCodes_def)
  then show ?thesis using v by (auto simp: ValidateCustomCode_def customCodeRegex_def split: if_splits)
qed

lemma code_routed:
  assumes "c \<noteq> [] \<and> list_all code_char c \<and> c \<noteq> ''healthz''"
  shows "dispatch True ''GET'' [c] = Routed ''GET /{code}'' [] RedirectE [(''code'', c)] \<longleftrightarrow> c \<notin> {''readyz'', ''metrics''}"
proof -
  have "c \<noteq> ''favicon.ico''" using assms favicon_not_code by blast
  then show ?thesis using assms single_segment [of c] probe_segment by auto
qed

text \<open>
  C40. A custom code that the validation accepts is followed by the redirect handler, which is handed
  exactly that code, unless it is one of the two probe paths the validation does not reserve:
  a link with the code readyz or metrics can never be followed. The same holds of generated codes.
\<close>

theorem accepted_codes_followed:
  assumes "ValidateCustomCode ul c = None \<or> c \<noteq> [] \<and> list_all code_char c \<and> length c = shortCodeLength"
  shows "(dispatch True ''GET'' [c] = Routed ''GET /{code}'' [] RedirectE [(''code'', c)] \<longleftrightarrow> c \<notin> {''readyz'', ''metrics''})
    \<and> dispatch True ''POST'' [c] = Routed ''POST /{code}'' [] RedirectE [(''code'', c)]"
proof -
  have "c \<noteq> [] \<and> list_all code_char c \<and> c \<noteq> ''healthz''"
    using assms custom_code_chars by (auto simp: shortCodeLength_def)
  then show ?thesis using code_routed single_segment_post by blast
qed

theorem accepted_codes_followed_witness:
  "dispatch True ''GET'' [''Spring-24''] = Routed ''GET /{code}'' [] RedirectE [(''code'', ''Spring-24'')]"
proof -
  have "ValidateCustomCode id ''Spring-24'' = None" by code_simp
  then show ?thesis using accepted_codes_followed [of id "''Spring-24''"] by simp
qed

section \<open>The labels of the metrics\<close>

definition pattern_of :: "destination_of_request \<Rightarrow> string" where
  "pattern_of d = (case d of Probe p e \<Rightarrow> p | ReadRefused p \<Rightarrow> p | Routed p gs e bs \<Rightarrow> p | _ \<Rightarrow> [])"

definition route_labels :: "string list" where
  "route_labels = ''unmatched'' # map fst outer_table @ map fst app_table"

lemma app_dispatch_kinds: "app_dispatch meth path \<noteq> Probe pat e" "app_dispatch meth path \<noteq> ReadRefused pat"
  by (cases "mux_find app_routes meth path"; auto simp: app_dispatch_def)+

lemma dispatch_found:
  "mux_find outer_routes meth path = Found (q, d) bs \<Longrightarrow> dispatch ok meth path =
     (if d = AppE then if ok then app_dispatch meth path else ReadRefused q else Probe q d)"
  by (cases d) (simp_all add: dispatch_def)

lemma dispatch_unfound: "\<nexists>h bs. mux_find outer_routes meth path = Found h bs \<Longrightarrow> dispatch ok meth path = OuterUnmatched"
  by (cases "mux_find outer_routes meth path") (simp_all add: dispatch_def)

lemma dispatch_outer:
  assumes "dispatch ok meth path = Probe pat e \<or> dispatch ok meth path = ReadRefused pat"
  shows "pat \<in> fst ` set outer_table"
proof (cases "\<exists>h bs. mux_find outer_routes meth path = Found h bs")
  case True
  then obtain q d bs where f: "mux_find outer_routes meth path = Found (q, d) bs" by (metis surj_pair)
  then have "q = pat" using assms app_dispatch_kinds by (simp add: dispatch_found split: if_splits)
  then obtain p where "(p, pat, d) \<in> set outer_routes" using mux_find_sound [OF f] by auto
  then show ?thesis by (auto simp: outer_routes_def intro: rev_image_eqI)
next
  case False
  then show ?thesis using assms by (simp add: dispatch_unfound)
qed

lemma pattern_labelled: "routeLabel (pattern_of (dispatch ok meth path)) \<in> set route_labels"
proof (cases "dispatch ok meth path")
  case (Routed pat gs e bs)
  obtain p where "(p, pat, gs, e) \<in> set app_routes" using dispatch_Routed [OF Routed] by auto
  then have "pat \<in> fst ` set app_table" by (auto simp: app_routes_def intro: rev_image_eqI)
  then show ?thesis by (simp add: Routed pattern_of_def routeLabel_def route_labels_def)
next
  case (Probe pat e)
  then have "pat \<in> fst ` set outer_table" using dispatch_outer by blast
  then show ?thesis by (simp add: Probe pattern_of_def routeLabel_def route_labels_def)
next
  case (ReadRefused pat)
  then have "pat \<in> fst ` set outer_table" using dispatch_outer by blast
  then show ?thesis by (simp add: ReadRefused pattern_of_def routeLabel_def route_labels_def)
qed (simp_all add: pattern_of_def routeLabel_def route_labels_def)

text \<open>One request after the other, each with its own random bytes, path, limiter verdict and handler.\<close>

type_synonym visit = "bytes \<times> bool \<times> string list \<times> action list \<times> request"

definition visit_app :: "visit \<Rightarrow> request \<Rightarrow> string \<times> action list" where
  "visit_app v r = (case v of (rnd, ok, path, as, r0) \<Rightarrow> (pattern_of (dispatch ok (r_Method r) path), as))"

lemma sum_update:
  "sum_list (map snd (AList.update k v m)) = sum_list (map snd m) - opt_or 0 (map_of m k) + (v :: int)"
proof (induction m)
  case (Cons kv m)
  then show ?case by (cases kv) simp
qed simp

definition serve_visit :: "bool \<Rightarrow> visit \<Rightarrow> exchange \<Rightarrow> exchange" where
  "serve_visit tls v = (case v of (rnd, ok, path, as, r0) \<Rightarrow> serve rnd tls (mux_handler (visit_app v)) r0)"

text \<open>
  The number of series a scrape can return is bounded whatever paths are requested: over any
  sequence of requests the route labels of the counters are among those of the route tables and
  unmatched, and the counters add up to the number of requests.
\<close>

theorem metrics_bounded:
  assumes "x_requests x = []"
  shows "fst ` dom (map_of (x_requests (fold (serve_visit tls) vs x))) \<subseteq> set route_labels
    \<and> sum_list (map snd (x_requests (fold (serve_visit tls) vs x))) = int (length vs) \<and> length route_labels = 28"
proof -
  have "fst ` dom (map_of (x_requests (fold (serve_visit tls) vs y))) \<subseteq> set route_labels
      \<and> sum_list (map snd (x_requests (fold (serve_visit tls) vs y))) = sum_list (map snd (x_requests y)) + int (length vs)"
    if "distinct_keys (x_requests y)" "fst ` dom (map_of (x_requests y)) \<subseteq> set route_labels" for y
    using that
  proof (induction vs arbitrary: y)
    case (Cons v vs)
    let ?z = "serve_visit tls v y"
    obtain rnd ok path as r where v: "v = (rnd, ok, path, as, r)" by (cases v)
    let ?k = "(routeLabel (pattern_of (dispatch ok (r_Method r) path)), status_class (x_code ?z))"
    have z: "x_requests ?z = AList.update ?k (opt_or 0 (map_of (x_requests y) ?k) + 1) (x_requests y)"
      using serve_registers [where app = "visit_app v" and r = r and z = ?z and rnd = rnd and tls = tls and x = y, OF _ _ refl]
      by (simp add: visit_app_def serve_visit_def v)
    have "distinct_keys (x_requests ?z)" "fst ` dom (map_of (x_requests ?z)) \<subseteq> set route_labels"
      using Cons.prems pattern_labelled [of ok "r_Method r" path] by (auto simp: z)
    moreover have "sum_list (map snd (x_requests ?z)) = sum_list (map snd (x_requests y)) + 1"
      by (simp add: z sum_update)
    ultimately show ?case using Cons.IH [of ?z] by simp
  qed simp
  moreover have "length route_labels = 28" by code_simp
  ultimately show ?thesis using assms by simp
qed

theorem metrics_bounded_witness:
  "sum_list (map snd (x_requests (fold (serve_visit True) [(replicate 8 1, True, [''nowhere'', ''at'', ''all''], [WriteHeader 404], probe_request)]
     idle_exchange))) = 1"
  using metrics_bounded [of idle_exchange True "[(replicate 8 1, True, [''nowhere'', ''at'', ''all''], [WriteHeader 404], probe_request)]"]
  by (simp add: idle_exchange_def)

end
