(* ===== verification/Probes.thy ===== *)
theory Probes
  imports Routes
begin

text \<open>
  The handlers that answer from constants or from a ping: \<^verbatim>\<open>handlers/health.go\<close>,
  \<^verbatim>\<open>handlers/ready.go\<close>, the index page and the favicon of \<^verbatim>\<open>handlers/static.go\<close>, and the error
  writer of \<^verbatim>\<open>handlers/shorten.go\<close>. \<open>json\<close> is the encoder on an object of strings, given by its
  fields in the order of their keys.
\<close>

type_synonym json_encoder = "(string \<times> string) list \<Rightarrow> string"

section \<open>The handlers\<close>

definition health_ServeHTTP :: "json_encoder \<Rightarrow> string \<Rightarrow> action list" where
  "health_ServeHTTP json backend =
     [SetHeader ''Content-Type'' ''application/json'', Write (json [(''status'', ''ok''), (''storage'', backend)])]"

definition NewReadyHandler :: "duration \<Rightarrow> duration" where
  "NewReadyHandler timeout = (if timeout \<le> 0 then 2 * 1000000000 else timeout)"

text \<open>\<open>ping\<close> is the error of \<^verbatim>\<open>Ping\<close> within the timeout, if any.\<close>

definition ready_ServeHTTP :: "json_encoder \<Rightarrow> string option \<Rightarrow> action list" where
  "ready_ServeHTTP json ping =
     SetHeader ''Content-Type'' ''application/json'' #
     (case ping of
        Some err \<Rightarrow> [WriteHeader 503, Write (json [(''error'', err), (''status'', ''not_ready'')])]
      | None \<Rightarrow> [Write (json [(''status'', ''ready'')])])"

definition not_found :: "action list" where
  "not_found = http_error ''404 page not found'' 404"

definition ServeIndex :: "string \<Rightarrow> string list \<Rightarrow> action list" where
  "ServeIndex indexHTML path =
     (if path \<noteq> [''''] then not_found
      else [SetHeader ''Content-Type'' ''text/html; charset=utf-8'', Write indexHTML])"

definition FaviconHandler :: "action list" where
  "FaviconHandler = [SetHeader ''Cache-Control'' ''public, max-age=86400'', WriteHeader 204]"

definition write_error :: "json_encoder \<Rightarrow> (int \<Rightarrow> string) \<Rightarrow> int \<Rightarrow> string \<Rightarrow> action list" where
  "write_error json statusText code message =
     [SetHeader ''Content-Type'' ''application/json'', WriteHeader code,
      Write (json [(''error'', statusText code), (''message'', message)])]"

section \<open>They leave the protected headers alone\<close>

lemma header_names:
  "header_name ''Content-Type'' = ''content-type''" "header_name ''Cache-Control'' = ''cache-control''"
  "header_name ''WWW-Authenticate'' = ''www-authenticate''" "header_name ''X-Content-Type-Options'' = ''x-content-type-options''"
  "header_name ''X-Request-ID'' = ''x-request-id''" "header_name ''X-Frame-Options'' = ''x-frame-options''"
  "header_name ''Referrer-Policy'' = ''referrer-policy''" "header_name ''Content-Security-Policy'' = ''content-security-policy''"
  "header_name ''Strict-Transport-Security'' = ''strict-transport-security''"
  by (code_simp)+

lemma protected_names:
  "protected_headers tls rid ''content-type'' = None" "protected_headers tls rid ''cache-control'' = None"
  "protected_headers tls rid ''www-authenticate'' = None" "protected_headers tls rid ''x-content-type-options'' = Some ''nosniff''"
  by (simp_all add: protected_headers_def security_headers_def header_names)

lemmas honours_simps = header_names protected_names

lemma probes_honour:
  "list_all (honours (protected_headers tls rid)) (health_ServeHTTP json backend)"
  "list_all (honours (protected_headers tls rid)) (ready_ServeHTTP json ping)"
  "list_all (honours (protected_headers tls rid)) FaviconHandler"
  "list_all (honours (protected_headers tls rid)) (ServeIndex html path)"
  "list_all (honours (protected_headers tls rid)) (write_error json st code msg)"
  "list_all (honours (protected_headers tls rid)) (http_error m code)"
  by (simp_all add: health_ServeHTTP_def ready_ServeHTTP_def FaviconHandler_def ServeIndex_def not_found_def http_error_def
      write_error_def honours_simps split: option.split)

text \<open>
  The names of the headers the handlers under \<^verbatim>\<open>src/handlers\<close> and the limiter set themselves; the
  tokens are literals in the code, Location is that of \<^verbatim>\<open>http.Redirect\<close>. None is protected;
  \<^verbatim>\<open>http.Error\<close> sets one that is, to the value it has.
\<close>

definition own_header_names :: "string list" where
  "own_header_names =
     [''Content-Type'', ''Cache-Control'', ''Content-Disposition'', ''Allow'', ''Connection'', ''X-Accel-Buffering'',
      ''Retry-After'', ''WWW-Authenticate'', ''Location'']"

lemma own_headers_honour:
  assumes "k \<in> set own_header_names"
  shows "honours (protected_headers tls rid) (SetHeader k v)"
proof -
  have "list_all (\<lambda>tls. list_all (\<lambda>k. protected_headers tls [] (header_name k) = None) own_header_names) [False, True]"
    by code_simp
  moreover have "protected_headers tls rid k = None \<longleftrightarrow> protected_headers tls [] k = None" for k
    by (simp add: protected_headers_def)
  ultimately show ?thesis using assms by (cases tls) (auto simp: list_all_iff)
qed

section \<open>The probes\<close>

text \<open>What the probes of the outer mux do; everything else is the application's.\<close>

definition probe_actions :: "json_encoder \<Rightarrow> string \<Rightarrow> string option \<Rightarrow> string \<Rightarrow> action list \<Rightarrow> request \<Rightarrow> outer_endpoint \<Rightarrow> action list" where
  "probe_actions json backend ping token exposition r e =
     (case e of
        HealthE \<Rightarrow> health_ServeHTTP json backend
      | ReadyE \<Rightarrow> ready_ServeHTTP json ping
      | MetricsE \<Rightarrow> GatedMetricsHandler token (\<lambda>r. exposition) r
      | FaviconE \<Rightarrow> FaviconHandler
      | AppE \<Rightarrow> [])"

definition probe_app :: "json_encoder \<Rightarrow> string \<Rightarrow> string option \<Rightarrow> string \<Rightarrow> action list \<Rightarrow> bool \<Rightarrow> string list
    \<Rightarrow> request \<Rightarrow> string \<times> action list" where
  "probe_app json backend ping token exposition read_ok path r =
     (case dispatch read_ok (r_Method r) path of
        Probe pat e \<Rightarrow> (pat, probe_actions json backend ping token exposition r e)
      | d \<Rightarrow> (pattern_of d, []))"

definition wire_status :: "exchange \<Rightarrow> int option" where
  "wire_status x = map_option fst (x_sent x)"

lemma serve_status:
  assumes "app (r\<lparr>r_RequestID := request_id rnd r\<rparr>) = (pat, as)"
  shows "wire_status (serve rnd tls (mux_handler app) r x) =
    wire_status (send_status 200 (guarded_run as (chain_start tls (request_id rnd r) pat x)))"
  unfolding serve_eq [where app = app and r = r, OF assms]
  by (simp add: wire_status_def send_status_def logged_def counted_def Let_def)

lemma chain_start_unsent: "x_sent (chain_start tls rid pat x) = None"
proof -
  have "x_sent (fold (\<lambda>(k, v). set_header k v) hs y) = x_sent y" for hs y
    by (induction hs arbitrary: y) (auto simp: set_header_def)
  then show ?thesis by (simp add: chain_start_def set_header_def)
qed

text \<open>
  Cn. The probes answer outside the read limiter: whatever the limiter says of the client,
  \<^verbatim>\<open>/healthz\<close> answers 200 without looking at the store, \<^verbatim>\<open>/readyz\<close> answers 503 exactly when the
  ping fails and 200 otherwise, and \<^verbatim>\<open>/metrics\<close> answers 401 exactly when a token is set and the
  request does not carry it.
\<close>

theorem probes_answer:
  assumes "r_Method r = ''GET''" and "exposition = [Write text]"
  shows "wire_status (serve rnd tls (mux_handler (probe_app json backend ping token exposition ok [''healthz''])) r x) = Some 200
    \<and> wire_status (serve rnd tls (mux_handler (probe_app json backend ping token exposition ok [''readyz''])) r x)
        = Some (if ping = None then 200 else 503)
    \<and> wire_status (serve rnd tls (mux_handler (probe_app json backend ping token exposition ok [''metrics''])) r x)
        = Some (if token = [] \<or> (\<exists>t. r_Header r ''Authorization'' = ''Bearer '' @ t \<and> TrimSpace t = token) then 200 else 401)"
proof -
  have m: "r_Method (r\<lparr>r_RequestID := request_id rnd r\<rparr>) = ''GET''" using assms(1) by simp
  have d: "dispatch ok ''GET'' [''healthz''] = Probe ''GET /healthz'' HealthE" by (cases ok; code_simp)
  note app = probe_app_def [of json backend ping token exposition ok _ "r\<lparr>r_RequestID := request_id rnd r\<rparr>", unfolded m]
  have run: "wire_status (serve rnd tls (mux_handler (probe_app json backend ping token exposition ok path)) r x)
      = wire_status (send_status 200 (guarded_run (probe_actions json backend ping token exposition r e) (chain_start tls (request_id rnd r) pat x)))"
    if "dispatch ok ''GET'' path = Probe pat e" for path pat e
  proof (rule serve_status)
    have "probe_actions json backend ping token exposition (r\<lparr>r_RequestID := request_id rnd r\<rparr>) e
        = probe_actions json backend ping token exposition r e"
      by (cases e) (simp_all add: probe_actions_def GatedMetricsHandler_def metrics_allowed_def)
    then show "probe_app json backend ping token exposition ok path (r\<lparr>r_RequestID := request_id rnd r\<rparr>)
        = (pat, probe_actions json backend ping token exposition r e)"
      by (simp add: app that)
  qed
  have allowed: "metrics_allowed token r \<longleftrightarrow> token = [] \<or> (\<exists>t. r_Header r ''Authorization'' = ''Bearer '' @ t \<and> TrimSpace t = token)"
    by (auto simp: metrics_allowed_def Let_def HasPrefix_iff)
  have step: "x_sent (chain_start tls (request_id rnd r) pat x) = None" for pat by (rule chain_start_unsent)
  show ?thesis
    unfolding run [OF d] run [OF probe_segment(1)] run [OF probe_segment(2)] allowed [symmetric]
    by (auto simp: probe_actions_def health_ServeHTTP_def ready_ServeHTTP_def GatedMetricsHandler_def http_error_def assms(2)
        guarded_run_def wire_status_def write_header_def write_body_def send_status_def set_header_def step Let_def split: option.split)
qed

theorem probes_answer_witness:
  "wire_status (serve (replicate 8 1) True (mux_handler (probe_app (\<lambda>fs. []) ''sqlite'' (Some ''locked'') [] [Write ''up''] False [''readyz'']))
     probe_request idle_exchange) = Some 503"
  using probes_answer [of probe_request "[Write ''up'']" "''up''" "replicate 8 1" True "\<lambda>fs. []" "''sqlite''" "Some ''locked''" "[]" False idle_exchange]
  by (simp add: probe_request_def)

end
