(* ===== verification/Static_Files.thy ===== *)
theory Static_Files
  imports Probes
begin

text \<open>
  The static assets: \<^verbatim>\<open>embed.go\<close> and \<^verbatim>\<open>NewStaticAssets\<close> and the file server of \<^verbatim>\<open>handlers/static.go\<close>. A
  file system answers a name with an error or the contents. The embedded one is filled by the
  build and the \<^verbatim>\<open>http.FileServer\<close> is the library's; both are parameters.
\<close>

type_synonym filesys = "string \<Rightarrow> string + string"

text \<open>\<^verbatim>\<open>fs.Sub\<close>: the names below a directory.\<close>

definition fs_Sub :: "filesys \<Rightarrow> string \<Rightarrow> filesys" where
  "fs_Sub fsys dir name = fsys (dir @ ''/'' @ name)"

definition staticDirFS :: "filesys \<Rightarrow> filesys" where
  "staticDirFS embeddedStatic = fs_Sub embeddedStatic ''static''"

record static_assets =
  sa_indexHTML :: string
  sa_staticFS :: filesys

definition NewStaticAssets :: "filesys \<Rightarrow> string + static_assets" where
  "NewStaticAssets staticDir =
     (case staticDir ''index.html'' of
        Inl err \<Rightarrow> Inl err
      | Inr idx \<Rightarrow> Inr \<lparr>sa_indexHTML = idx, sa_staticFS = staticDir\<rparr>)"

text \<open>\<^verbatim>\<open>http.StripPrefix\<close> around the library's file server \<open>send\<close>.\<close>

definition StripPrefix :: "string \<Rightarrow> (string \<Rightarrow> action list) \<Rightarrow> string \<Rightarrow> action list" where
  "StripPrefix pre h path = (let p = TrimPrefix path pre in if length p < length path then h p else not_found)"

definition FileServer :: "(filesys \<Rightarrow> string \<Rightarrow> action list) \<Rightarrow> static_assets \<Rightarrow> string \<Rightarrow> action list" where
  "FileServer send a = StripPrefix ''/static/'' (send (sa_staticFS a))"

text \<open>
  The index page is the embedded \<^verbatim>\<open>static/index.html\<close>, and a request below \<^verbatim>\<open>/static/\<close> is served from the
  embedded directory \<^verbatim>\<open>static\<close> under the rest of its path.
\<close>

lemma assets_embedded:
  assumes "NewStaticAssets (staticDirFS embedded) = Inr a"
  shows "embedded ''static/index.html'' = Inr (sa_indexHTML a)"
    and "FileServer send a (''/static/'' @ name) = send (\<lambda>f. embedded (''static/'' @ f)) name"
proof -
  have a: "embedded ''static/index.html'' = Inr (sa_indexHTML a)" "sa_staticFS a = staticDirFS embedded"
    using assms by (auto simp: NewStaticAssets_def staticDirFS_def fs_Sub_def split: sum.splits)
  then show "embedded ''static/index.html'' = Inr (sa_indexHTML a)" by simp
  have "staticDirFS embedded = (\<lambda>f. embedded (''static/'' @ f))" by (simp add: fun_eq_iff staticDirFS_def fs_Sub_def)
  then show "FileServer send a (''/static/'' @ name) = send (\<lambda>f. embedded (''static/'' @ f)) name"
    by (simp add: FileServer_def StripPrefix_def TrimPrefix_def HasPrefix_def a(2) Let_def)
qed

end
