(* ===== verification/Auth.thy ===== *)
theory Auth
  imports Http
begin

text \<open>
  Credentials: \<^verbatim>\<open>handlers/auth.go\<close> (bearer tokens, the two ways to be authorised for a mapping,
  the actor of an audit event), \<^verbatim>\<open>handlers/password.go\<close>, and the token generators of
  \<^verbatim>\<open>handlers/shorten.go\<close> and \<^verbatim>\<open>handlers/apikey.go\<close>. SHA-256 and PBKDF2 are fields of \<open>env\<close>.
\<close>

section \<open>base64url\<close>

definition b64Chars :: string where
  "b64Chars = ''ABCDEFGHIJKLMNOPQRSTUVWXYZabcdefghijklmnopqrstuvwxyz0123456789-_''"

definition b64 :: "nat \<Rightarrow> char" where
  "b64 n = b64Chars ! (n mod 64)"

text \<open>\<^verbatim>\<open>base64.RawURLEncoding.EncodeToString\<close>: three bytes to four characters, no padding.\<close>

fun RawURLEncode :: "bytes \<Rightarrow> string" where
  "RawURLEncode [] = []"
| "RawURLEncode [a] = [b64 (unat a div 4), b64 (unat a mod 4 * 16)]"
| "RawURLEncode [a, b] =
     [b64 (unat a div 4), b64 (unat a mod 4 * 16 + unat b div 16), b64 (unat b mod 16 * 4)]"
| "RawURLEncode (a # b # c # rest) =
     [b64 (unat a div 4), b64 (unat a mod 4 * 16 + unat b div 16),
      b64 (unat b mod 16 * 4 + unat c div 64), b64 (unat c mod 64)] @ RawURLEncode rest"

section \<open>Tokens and secrets\<close>

text \<open>
  Each takes the outcome of its \<^verbatim>\<open>rand.Read\<close> of 32 bytes. The key token of
  \<^verbatim>\<open>handlers/apikey.go\<close> is made the same way as the owner token.
\<close>

definition generateOwnerToken :: "env \<Rightarrow> bytes option \<Rightarrow> (string \<times> bytes) option" where
  "generateOwnerToken env rnd =
     (case rnd of None \<Rightarrow> None
      | Some b \<Rightarrow> let token = RawURLEncode b in Some (token, e_sha256 env token))"

definition generateAPIKeyToken :: "env \<Rightarrow> bytes option \<Rightarrow> (string \<times> bytes) option" where
  "generateAPIKeyToken env rnd =
     (case rnd of None \<Rightarrow> None
      | Some b \<Rightarrow> let tok = RawURLEncode b in Some (tok, e_sha256 env tok))"

definition generateWebhookSecret :: "bytes option \<Rightarrow> bytes option" where
  "generateWebhookSecret rnd = rnd"

definition encodeWebhookSecret :: "bytes \<Rightarrow> string" where
  "encodeWebhookSecret secret = RawURLEncode secret"

section \<open>Passwords\<close>

definition passwordIterations :: nat where "passwordIterations = 200000"
definition passwordKeyLen :: nat where "passwordKeyLen = 32"
definition passwordSaltLen :: nat where "passwordSaltLen = 16"

definition ConstantTimeCompare :: "bytes \<Rightarrow> bytes \<Rightarrow> bool" where
  "ConstantTimeCompare a b = (length a = length b \<and> list_all2 (=) a b)"

lemma ConstantTimeCompare_eq [simp]: "ConstantTimeCompare a b = (a = b)"
  by (auto simp: ConstantTimeCompare_def list.rel_eq)

text \<open>\<^verbatim>\<open>rnd\<close> is the outcome of reading the 16 bytes of salt; the result is hash and salt.\<close>

definition hashPassword :: "env \<Rightarrow> bytes option \<Rightarrow> string \<Rightarrow> (bytes \<times> bytes) option" where
  "hashPassword env rnd password =
     (case rnd of None \<Rightarrow> None
      | Some salt \<Rightarrow> (case e_pbkdf2 env password salt of None \<Rightarrow> None | Some key \<Rightarrow> Some (key, salt)))"

definition verifyPassword :: "env \<Rightarrow> string \<Rightarrow> bytes \<Rightarrow> bytes \<Rightarrow> bool" where
  "verifyPassword env password hash salt =
     (if hash = [] \<or> salt = [] then False
      else case e_pbkdf2 env password salt of None \<Rightarrow> False | Some got \<Rightarrow> ConstantTimeCompare got hash)"

section \<open>Bearer tokens\<close>

definition extractBearer :: "env \<Rightarrow> request \<Rightarrow> (string \<times> bytes) option" where
  "extractBearer env r =
     (let auth = r_Header r ''Authorization'' in
        if \<not> HasPrefix auth ''Bearer '' then None
        else let token = TrimSpace (drop (length ''Bearer '') auth) in
          if token = '''' then None else Some (token, e_sha256 env token))"

definition authorizeOwner :: "env \<Rightarrow> request \<Rightarrow> bytes \<Rightarrow> bool" where
  "authorizeOwner env r expectedHash =
     (if expectedHash = [] then False
      else case extractBearer env r of None \<Rightarrow> False
        | Some (token, got) \<Rightarrow> ConstantTimeCompare got expectedHash)"

definition authorizeAccess ::
  "'s store_ops \<Rightarrow> env \<Rightarrow> time \<Rightarrow> request \<Rightarrow> url_mapping \<Rightarrow> 's \<Rightarrow> 's \<times> bool" where
  "authorizeAccess ops env now r m s =
     (case extractBearer env r of
        None \<Rightarrow> (s, False)
      | Some (token, hash) \<Rightarrow>
          if m_OwnerTokenHash m \<noteq> [] \<and> ConstantTimeCompare hash (m_OwnerTokenHash m) then (s, True)
          else if m_APIKeyID m = 0 then (s, False)
          else (case st_LookupAPIKey ops now hash s of
              (s', Inl e) \<Rightarrow> (s', False)
            | (s', Inr k) \<Rightarrow> (s', k_ID k = m_APIKeyID m)))"

text \<open>The actor of an audit event; \<open>None\<close> is the nil mapping.\<close>

definition resolveActor ::
  "'s store_ops \<Rightarrow> env \<Rightarrow> time \<Rightarrow> request \<Rightarrow> url_mapping option \<Rightarrow> 's \<Rightarrow> 's \<times> (string \<times> string)" where
  "resolveActor ops env now r mo s =
     (case extractBearer env r of
        None \<Rightarrow> (s, (AuditActorAnon, ''''))
      | Some (token, hash) \<Rightarrow>
          if (case mo of None \<Rightarrow> False
              | Some m \<Rightarrow> m_OwnerTokenHash m \<noteq> [] \<and> ConstantTimeCompare hash (m_OwnerTokenHash m))
          then (s, (AuditActorAdminToken, m_ID (the mo)))
          else (case st_LookupAPIKey ops now hash s of
              (s', Inl e) \<Rightarrow> (s', (AuditActorAnon, ''''))
            | (s', Inr k) \<Rightarrow> (s', (AuditActorAPIKey, show_int (k_ID k)))))"

text \<open>The error of an audit write is logged and dropped.\<close>

definition logAuditBestEffort :: "'s store_ops \<Rightarrow> time \<Rightarrow> audit_event \<Rightarrow> 's \<Rightarrow> 's" where
  "logAuditBestEffort ops now ev s = fst (st_LogAudit ops now ev s)"

text \<open>An event as the handlers build it: the store sets its ID and time.\<close>

definition audit :: "string \<times> string \<Rightarrow> string \<Rightarrow> string \<Rightarrow> string \<Rightarrow> string \<Rightarrow> string \<Rightarrow> audit_event" where
  "audit actor action kind target meta reqID =
     \<lparr>a_ID = 0, a_At = None, a_ActorKind = fst actor, a_ActorID = snd actor, a_Action = action,
       a_TargetKind = kind, a_TargetID = target, a_Metadata = meta, a_RequestID = reqID\<rparr>"

section \<open>A token authenticates whoever was given it\<close>

lemma b64_plain: "(32 :: nat) < of_char (b64 n) \<and> of_char (b64 n) < (128 :: nat)"
proof -
  have "list_all (\<lambda>c. (32 :: nat) < of_char c \<and> of_char c < (128 :: nat)) b64Chars" by code_simp
  moreover have "b64 n \<in> set b64Chars" unfolding b64_def by (rule nth_mem) (simp add: b64Chars_def)
  ultimately show ?thesis by (simp add: list_all_iff)
qed

lemma RawURLEncode_plain: "list_all (\<lambda>c. (32 :: nat) < of_char c \<and> of_char c < (128 :: nat)) (RawURLEncode b)"
  by (induction b rule: RawURLEncode.induct) (simp_all add: b64_plain)

lemma RawURLEncode_Nil [simp]: "RawURLEncode b = [] \<longleftrightarrow> b = []"
  by (cases b rule: RawURLEncode.cases) simp_all

lemma leading_None: "list_all (\<lambda>w. w \<noteq> [] \<and> hd w \<noteq> hd s) ws \<Longrightarrow> s \<noteq> [] \<Longrightarrow> leading ws s = None"
proof -
  assume ws: "list_all (\<lambda>w. w \<noteq> [] \<and> hd w \<noteq> hd s) ws" and s: "s \<noteq> []"
  have "take (length w) s \<noteq> w" if "w \<in> set ws" for w
  proof
    assume t: "take (length w) s = w"
    have "w \<noteq> []" "hd w \<noteq> hd s" using ws that by (simp_all add: list_all_iff)
    moreover from this(1) have "hd (take (length w) s) = hd s" by (simp add: hd_take)
    ultimately show False using t by simp
  qed
  then show ?thesis by (auto simp: leading_def find_None_iff)
qed

lemma spaces_heads:
  "list_all (\<lambda>w. w \<noteq> [] \<and> (of_char (hd w) \<le> (32 :: nat) \<or> (128 :: nat) \<le> of_char (hd w))) spaces"
  "list_all (\<lambda>w. w \<noteq> [] \<and> (of_char (hd w) \<le> (32 :: nat) \<or> (128 :: nat) \<le> of_char (hd w))) (map rev spaces)"
  by code_simp+

lemma TrimSpace_plain:
  assumes "s \<noteq> []" and "list_all (\<lambda>c. (32 :: nat) < of_char c \<and> of_char c < (128 :: nat)) s"
  shows "TrimSpace s = s"
proof -
  have plain: "leading ws t = None"
    if "list_all (\<lambda>w. w \<noteq> [] \<and> (of_char (hd w) \<le> (32 :: nat) \<or> (128 :: nat) \<le> of_char (hd w))) ws"
      and "t \<noteq> []" and "(32 :: nat) < of_char (hd t)" and "of_char (hd t) < (128 :: nat)" for ws t
    using that by (intro leading_None) (auto simp: list_all_iff)
  have "hd s \<in> set s" "hd (rev s) \<in> set s" using assms(1) by (simp_all add: hd_rev)
  then show ?thesis
    using assms spaces_heads by (intro TrimSpace_id plain) (auto simp: list_all_iff)
qed

lemma extractBearer_token:
  assumes "r_Header r ''Authorization'' = ''Bearer '' @ RawURLEncode b" and "b \<noteq> []"
  shows "extractBearer env r = Some (RawURLEncode b, e_sha256 env (RawURLEncode b))"
  using assms TrimSpace_plain [OF _ RawURLEncode_plain, of b]
  by (simp add: extractBearer_def HasPrefix_def Let_def)

section \<open>Who is authorised\<close>

text \<open>The specification, over the live keys \<open>own\<close>: the bearer is the owner token, or the key the mapping is bound to.\<close>

definition grants :: "(bytes \<Rightarrow> int option) \<Rightarrow> url_mapping \<Rightarrow> bytes \<Rightarrow> bool" where
  "grants own m hash = ((m_OwnerTokenHash m \<noteq> [] \<and> hash = m_OwnerTokenHash m)
     \<or> (m_APIKeyID m \<noteq> 0 \<and> own hash = Some (m_APIKeyID m)))"

context key_store
begin

lemma authorizeAccess_iff:
  assumes "valid s"
  shows "snd (authorizeAccess ops env t r m s) \<longleftrightarrow>
    (\<exists>tok h. extractBearer env r = Some (tok, h) \<and> grants (owner s) m h)"
proof (cases "extractBearer env r")
  case None
  then show ?thesis by (simp add: authorizeAccess_def)
next
  case (Some th)
  obtain tok h where th: "th = (tok, h)" by (cases th)
  show ?thesis
  proof (cases "st_LookupAPIKey ops t h s")
    case (Pair s' r')
    then show ?thesis
      using Some th lookup_Inr [OF assms, of t h s'] lookup_Inl [OF assms, of t h s']
      by (cases r') (auto simp: authorizeAccess_def grants_def)
  qed
qed

lemma authorizeAccess_frame:
  assumes "valid s" and "authorizeAccess ops env t r m s = (s', b)"
  shows "valid s' \<and> view s' = view s \<and> owner s' = owner s"
  using assms lookup_frame [OF assms(1)]
  by (auto simp: authorizeAccess_def split: option.splits if_splits prod.splits sum.splits)

lemma resolveActor_frame:
  assumes "valid s" and "resolveActor ops env t r mo s = (s', a)"
  shows "valid s' \<and> view s' = view s \<and> owner s' = owner s"
  using assms lookup_frame [OF assms(1)]
  by (auto simp: resolveActor_def split: option.splits if_splits prod.splits sum.splits)

lemma logAudit_frame:
  assumes "valid s"
  shows "valid (logAuditBestEffort ops t e s) \<and> view (logAuditBestEffort ops t e s) = view s
    \<and> owner (logAuditBestEffort ops t e s) = owner s"
  using assms by (simp add: logAuditBestEffort_def audit_view audit_owner audit_valid)

end

text \<open>
  In memory: the state after looking up the bearer's key is that of before, except that a key
  with the hash of the bearer may have a new time of last use.
\<close>

definition only_stamped :: "env \<Rightarrow> request \<Rightarrow> mem_store \<Rightarrow> mem_store \<Rightarrow> bool" where
  "only_stamped env r s s' = (\<exists>ks. s' = s\<lparr>s_apiKeys := ks\<rparr>
     \<and> (\<forall>i. map_of ks i = map_of (s_apiKeys s) i
          \<or> (\<exists>k tok t. map_of (s_apiKeys s) i = Some k \<and> extractBearer env r = Some (tok, k_TokenHash k)
                \<and> map_of ks i = Some (k\<lparr>k_LastUsedAt := Some t\<rparr>))))"

lemma only_stamped_refl: "only_stamped env r s s"
  unfolding only_stamped_def by (rule exI [of _ "s_apiKeys s"]) simp

lemma lookup_stamps:
  assumes "mem_inv s" and "extractBearer env r = Some (tok, h)"
  shows "only_stamped env r s (fst (mem_LookupAPIKey t h s))"
proof (cases "find_key h (s_apiKeys s)")
  case None
  then show ?thesis by (simp add: mem_LookupAPIKey_def only_stamped_refl)
next
  case (Some ik)
  obtain i k where ik: "ik = (i, k)" by (cases ik)
  have "keys_inv s" using assms(1) by (simp add: mem_inv_def)
  then have k: "map_of (s_apiKeys s) i = Some k" "k_TokenHash k = h" using Some by (simp_all add: ik find_key_map_of)
  show ?thesis unfolding only_stamped_def
    by (rule exI [of _ "AList.update i (k\<lparr>k_LastUsedAt := Some t\<rparr>) (s_apiKeys s)"])
      (use k assms(2) in \<open>auto simp: mem_LookupAPIKey_def Some ik Let_def\<close>)
qed

lemma authorizeAccess_stamps:
  assumes "mem_inv s" and "authorizeAccess mem_ops env t r m s = (s', b)"
  shows "only_stamped env r s s'"
proof (cases "extractBearer env r")
  case None
  then show ?thesis using assms(2) by (simp add: authorizeAccess_def only_stamped_refl)
next
  case (Some th)
  obtain tok h where th: "th = (tok, h)" by (cases th)
  have "s' = s \<or> s' = fst (mem_LookupAPIKey t h s)"
    using assms(2) Some th by (auto simp: authorizeAccess_def split: if_splits prod.splits sum.splits)
  then show ?thesis using lookup_stamps [OF assms(1) Some [unfolded th]] only_stamped_refl by blast
qed

end
