(* ===== verification/DNS_Cache.thy ===== *)
theory DNS_Cache
  imports Validation
begin

text \<open>
  The cache of host validations (\<^verbatim>\<open>services/dnscache.go\<close>). \<open>None\<close> is the nil \<^verbatim>\<open>*DNSCache\<close>. A
  call reads the clock once, then works under the lock, resolves outside it, and stores under
  the lock again; \<open>cache_hit\<close> and \<open>cache_put\<close> are the two locked sections.
\<close>

record dns_entry =
  de_err :: "valid_err option"
  de_expires :: time

record dns_cache =
  dc_ttl :: duration
  dc_cap :: nat
  dc_data :: "(string, dns_entry) gomap"

definition NewDNSCache :: "duration \<Rightarrow> int \<Rightarrow> dns_cache" where
  "NewDNSCache ttl capacity =
     (let ttl1 = (if ttl \<le> 0 then 5000000000 else ttl);
          cap1 = (if capacity \<le> 0 then 1024 else capacity)
      in \<lparr>dc_ttl = ttl1, dc_cap = nat cap1, dc_data = []\<rparr>)"

definition cache_hit :: "time \<Rightarrow> string \<Rightarrow> dns_cache \<Rightarrow> valid_err option option" where
  "cache_hit now host c =
     (case map_of (dc_data c) host of
        None \<Rightarrow> None
      | Some e \<Rightarrow> if now < de_expires e then Some (de_err e) else None)"

definition evictIfFullLocked :: "time \<Rightarrow> dns_cache \<Rightarrow> dns_cache" where
  "evictIfFullLocked now c =
     (if length (dc_data c) < dc_cap c then c
      else let c1 = c\<lparr>dc_data := filter (\<lambda>(k, v). \<not> now > de_expires v) (dc_data c)\<rparr>
        in if length (dc_data c1) \<ge> dc_cap c then c1\<lparr>dc_data := []\<rparr> else c1)"

definition cache_put :: "time \<Rightarrow> string \<Rightarrow> valid_err option \<Rightarrow> dns_cache \<Rightarrow> dns_cache" where
  "cache_put now host err c =
     (let c1 = evictIfFullLocked now c
      in c1\<lparr>dc_data := AList.update host \<lparr>de_err = err, de_expires = now + dc_ttl c\<rparr> (dc_data c1)\<rparr>)"

definition ValidateHost :: "net_env \<Rightarrow> time \<Rightarrow> string \<Rightarrow> dns_cache option \<Rightarrow> dns_cache option \<times> valid_err option" where
  "ValidateHost env now host co =
     (case co of
        None \<Rightarrow> (None, ValidateHostAtRuntime env host)
      | Some c \<Rightarrow>
          (case cache_hit now host c of
             Some err \<Rightarrow> (Some c, err)
           | None \<Rightarrow> (let err = ValidateHostAtRuntime env host in (Some (cache_put now host err c), err))))"

definition cache_Size :: "dns_cache option \<Rightarrow> nat" where
  "cache_Size co = (case co of None \<Rightarrow> 0 | Some c \<Rightarrow> length (dc_data c))"

section \<open>Interleavings\<close>

text \<open>
  Calls of different requests interleave between their two locked sections. \<open>CacheGet\<close> is a
  first section with its answer if it hits; \<open>CachePut\<close> is the second section of a call that read
  the clock at \<open>now\<close> and resolved the host under \<open>env\<close> in between.
\<close>

datatype cache_step = CacheGet time string | CachePut net_env time string

fun cache_exec :: "cache_step \<Rightarrow> dns_cache \<Rightarrow> dns_cache" where
  "cache_exec (CacheGet now host) c = c"
| "cache_exec (CachePut env now host) c = cache_put now host (ValidateHostAtRuntime env host) c"

text \<open>Every entry is the outcome of an earlier validation of its host, and lives for one TTL.\<close>

definition entries_from :: "cache_step list \<Rightarrow> dns_cache \<Rightarrow> bool" where
  "entries_from ss c = (\<forall>host e. map_of (dc_data c) host = Some e \<longrightarrow>
     (\<exists>env t. CachePut env t host \<in> set ss \<and> de_err e = ValidateHostAtRuntime env host
       \<and> de_expires e = t + dc_ttl c))"

definition cache_ok :: "dns_cache \<Rightarrow> bool" where
  "cache_ok c = (distinct_keys (dc_data c) \<and> length (dc_data c) \<le> dc_cap c \<and> 0 < dc_cap c)"

lemma evict_frame [simp]: "dc_ttl (evictIfFullLocked now c) = dc_ttl c" "dc_cap (evictIfFullLocked now c) = dc_cap c"
  by (simp_all add: evictIfFullLocked_def Let_def)

lemma cache_put_frame [simp]: "dc_ttl (cache_put now host err c) = dc_ttl c" "dc_cap (cache_put now host err c) = dc_cap c"
  by (simp_all add: cache_put_def Let_def)

lemma cache_exec_frame [simp]: "dc_ttl (cache_exec st c) = dc_ttl c" "dc_cap (cache_exec st c) = dc_cap c"
  by (cases st; simp)+

lemma map_of_filter_sub: "distinct_keys m \<Longrightarrow> map_of (filter P m) k = Some v \<Longrightarrow> map_of m k = Some v"
  by (metis (no_types) distinct_keys_filter filter_is_subset map_of_SomeD map_of_SomeI subsetD)

lemma evict_ok:
  assumes "cache_ok c"
  shows "distinct_keys (dc_data (evictIfFullLocked now c)) \<and> length (dc_data (evictIfFullLocked now c)) < dc_cap c
    \<and> (\<forall>k v. map_of (dc_data (evictIfFullLocked now c)) k = Some v \<longrightarrow> map_of (dc_data c) k = Some v)"
  using assms by (auto simp: cache_ok_def evictIfFullLocked_def Let_def dest: map_of_filter_sub)

lemma length_update_le: "length (AList.update k v m) \<le> Suc (length m)"
  by (induction m) auto

lemma cache_put_ok:
  assumes "cache_ok c"
  shows "cache_ok (cache_put now host err c)"
proof -
  let ?d = "dc_data (evictIfFullLocked now c)"
  have "length (AList.update host v ?d) \<le> dc_cap c" for v
    using evict_ok [OF assms, of now] length_update_le [of host v ?d] by linarith
  then show ?thesis
    using evict_ok [OF assms, of now] assms by (simp add: cache_ok_def cache_put_def Let_def)
qed

lemma cache_put_entries:
  assumes "cache_ok c" and "entries_from ss c"
  shows "entries_from (ss @ [CachePut env now host]) (cache_put now host (ValidateHostAtRuntime env host) c)"
  unfolding entries_from_def
proof (intro allI impI)
  fix k e
  let ?c = "cache_put now host (ValidateHostAtRuntime env host) c"
  assume e: "map_of (dc_data ?c) k = Some e"
  show "\<exists>env' t. CachePut env' t k \<in> set (ss @ [CachePut env now host])
      \<and> de_err e = ValidateHostAtRuntime env' k \<and> de_expires e = t + dc_ttl ?c"
  proof (cases "k = host")
    case True
    then have "e = \<lparr>de_err = ValidateHostAtRuntime env host, de_expires = now + dc_ttl c\<rparr>"
      using e by (simp add: cache_put_def Let_def)
    then show ?thesis using True by (intro exI [of _ env] exI [of _ now]) simp
  next
    case False
    then have "map_of (dc_data c) k = Some e"
      using e evict_ok [OF assms(1), of now] by (simp add: cache_put_def Let_def)
    then show ?thesis using assms(2) by (fastforce simp: entries_from_def)
  qed
qed

lemma cache_run:
  "cache_ok (fold cache_exec ss (NewDNSCache ttl cap)) \<and> entries_from ss (fold cache_exec ss (NewDNSCache ttl cap))"
proof (induction ss rule: rev_induct)
  case Nil
  show ?case by (simp add: cache_ok_def entries_from_def NewDNSCache_def Let_def)
next
  case (snoc st ss)
  show ?case
  proof (cases st)
    case (CacheGet now host)
    then show ?thesis using snoc by (fastforce simp: entries_from_def)
  next
    case (CachePut env now host)
    then show ?thesis using snoc cache_put_ok cache_put_entries by simp
  qed
qed

lemma dc_ttl_run [simp]: "dc_ttl (fold cache_exec ss c) = dc_ttl c"
  by (induction ss arbitrary: c) simp_all

lemma dc_cap_run [simp]: "dc_cap (fold cache_exec ss c) = dc_cap c"
  by (induction ss arbitrary: c) simp_all

text \<open>
  C32. In every interleaving of calls, an answer from the cache is never older than the TTL: it is
  the outcome of an actual validation of that very host by a call that read the clock less than
  the TTL before, so a host whose DNS was flipped to a private address is blocked within the
  TTL. And the cache never holds more entries than its capacity.
\<close>
theorem cache_answers_fresh:
  assumes "c = fold cache_exec ss (NewDNSCache ttl cap)"
    and "cache_hit now host c = Some err"
  shows "(\<exists>env t. CachePut env t host \<in> set ss \<and> now < t + (if ttl \<le> 0 then 5000000000 else ttl)
      \<and> err = ValidateHostAtRuntime env host)
    \<and> length (dc_data c) \<le> nat (if cap \<le> 0 then 1024 else cap)"
proof
  have ttl: "dc_ttl c = (if ttl \<le> 0 then 5000000000 else ttl)" and cap: "dc_cap c = nat (if cap \<le> 0 then 1024 else cap)"
    using assms(1) by (simp_all add: NewDNSCache_def Let_def)
  obtain e where e: "map_of (dc_data c) host = Some e" "now < de_expires e" "err = de_err e"
    using assms(2) by (auto simp: cache_hit_def split: option.splits if_splits)
  have "entries_from ss c" "cache_ok c" using cache_run [of ss ttl cap] assms(1) by simp_all
  then obtain env t where p: "CachePut env t host \<in> set ss" "de_err e = ValidateHostAtRuntime env host"
      "de_expires e = t + dc_ttl c"
    using e(1) unfolding entries_from_def by blast
  show "\<exists>env t. CachePut env t host \<in> set ss \<and> now < t + (if ttl \<le> 0 then 5000000000 else ttl)
      \<and> err = ValidateHostAtRuntime env host"
    using p e ttl by (intro exI [of _ env] exI [of _ t]) simp
  show "length (dc_data c) \<le> nat (if cap \<le> 0 then 1024 else cap)"
    using \<open>cache_ok c\<close> cap by (simp add: cache_ok_def)
qed

definition flip_env :: net_env where
  "flip_env = \<lparr>n_parse = (\<lambda>u. None), n_ip = (\<lambda>h. None), n_dns = (\<lambda>h. Some [[127, 0, 0, 1]]), n_lower = id\<rparr>"

definition one_put :: "cache_step list" where
  "one_put = [CachePut flip_env 10 ''a.example'']"

theorem cache_answers_fresh_witness:
  "\<exists>env t. CachePut env t ''a.example'' \<in> set one_put \<and> 12 < t + 5 \<and> Some (ErrPrivateAddress ''loopback'') = ValidateHostAtRuntime env ''a.example''"
proof -
  have "cache_hit 12 ''a.example'' (fold cache_exec one_put (NewDNSCache 5 2)) = Some (Some (ErrPrivateAddress ''loopback''))"
    by code_simp
  from cache_answers_fresh [OF refl this] show ?thesis by simp
qed

end
