(* ===== verification/Rate_Limit.thy ===== *)
theory Rate_Limit
  imports Http
begin

text \<open>
  The fixed-window rate limiter (\<^verbatim>\<open>middleware/ratelimit.go\<close>), the janitor that prunes its
  buckets, and the client address it is keyed by. The map of buckets holds pointers; a request reads
  the clock, loads its bucket, and counts itself under the mutex of that bucket, and the janitor lets
  go of the mutex before it deletes a bucket it found stale. Each of these is a step of its own, so
  that requests and the janitor interleave; the server of \<^verbatim>\<open>Server\<close> takes them together.
\<close>

section \<open>Client address\<close>

fun split_comma :: "string \<Rightarrow> string list" where
  "split_comma [] = [[]]"
| "split_comma (c # s) =
     (if c = CHR '','' then [] # split_comma s
      else case split_comma s of [] \<Rightarrow> [[c]] | p # ps \<Rightarrow> (c # p) # ps)"

text \<open>The loop over the parts of the header, from the last to the first.\<close>

fun last_valid_ip :: "(string \<Rightarrow> bytes option) \<Rightarrow> string list \<Rightarrow> string option" where
  "last_valid_ip parse [] = None"
| "last_valid_ip parse (p # ps) =
     (let ip = TrimSpace p in
        if ip = '''' then last_valid_ip parse ps
        else if parse ip = None then last_valid_ip parse ps
        else Some ip)"

definition last_index :: "char \<Rightarrow> string \<Rightarrow> nat option" where
  "last_index c s = (let is = filter (\<lambda>i. s ! i = c) [0..<length s] in if is = [] then None else Some (last is))"

definition first_index :: "char \<Rightarrow> string \<Rightarrow> nat option" where
  "first_index c s = find (\<lambda>i. s ! i = c) [0..<length s]"

text \<open>The host of \<^verbatim>\<open>net.SplitHostPort\<close>, \<open>None\<close> for each of its errors.\<close>

definition split_host :: "string \<Rightarrow> string option" where
  "split_host hp =
     (case last_index (CHR '':'') hp of
        None \<Rightarrow> None
      | Some i \<Rightarrow>
          if hp ! 0 = CHR ''['' then
            (case first_index (CHR '']'') hp of
               None \<Rightarrow> None
             | Some e \<Rightarrow>
                 if e + 1 \<noteq> i then None
                 else if CHR ''['' \<in> set (drop 1 hp) \<or> CHR '']'' \<in> set (drop (e + 1) hp) then None
                 else Some (take (e - 1) (drop 1 hp)))
          else let host = take i hp in
            if CHR '':'' \<in> set host then None
            else if CHR ''['' \<in> set hp \<or> CHR '']'' \<in> set hp then None
            else Some host)"

definition ClientIP :: "(string \<Rightarrow> bytes option) \<Rightarrow> request \<Rightarrow> bool \<Rightarrow> string" where
  "ClientIP parse r trustProxy =
     (let xff = r_Header r ''X-Forwarded-For'';
          forwarded = (if trustProxy \<and> xff \<noteq> '''' then last_valid_ip parse (rev (split_comma xff)) else None)
      in case forwarded of
           Some ip \<Rightarrow> ip
         | None \<Rightarrow> (case split_host (r_RemoteAddr r) of None \<Rightarrow> r_RemoteAddr r | Some host \<Rightarrow> host))"

section \<open>Buckets\<close>

record bucket =
  b_count :: int
  b_resetAt :: time

text \<open>
  \<^verbatim>\<open>sync.Map\<close> from addresses to pointers. A pointer is an index into \<open>l_heap\<close>, the buckets ever
  allocated: a request may still hold one that is no longer in the map.
\<close>

record limiter =
  l_rate :: int
  l_window :: duration
  l_buckets :: "(string, nat) gomap"
  l_heap :: "bucket list"

definition NewLimiter :: "int \<Rightarrow> duration \<Rightarrow> limiter" where
  "NewLimiter rate window = \<lparr>l_rate = rate, l_window = window, l_buckets = [], l_heap = []\<rparr>"

text \<open>The bucket of an address, allocated if it has none.\<close>

definition LoadOrStore :: "string \<Rightarrow> time \<Rightarrow> limiter \<Rightarrow> limiter \<times> nat" where
  "LoadOrStore ip now l =
     (case map_of (l_buckets l) ip of
        Some p \<Rightarrow> (l, p)
      | None \<Rightarrow> (l\<lparr>l_buckets := AList.update ip (length (l_heap l)) (l_buckets l),
                    l_heap := l_heap l @ [\<lparr>b_count = 0, b_resetAt = now + l_window l\<rparr>]\<rparr>,
                 length (l_heap l)))"

text \<open>
  The section under the mutex of the bucket: it is reset if its window is over, and the request
  counted; the answer is whether it goes on. The counter grows by one per request of a window, so it
  is not wrapped.
\<close>

definition hit :: "time \<Rightarrow> duration \<Rightarrow> bucket \<Rightarrow> bucket" where
  "hit now window b0 =
     (let b1 = (if now > b_resetAt b0 then \<lparr>b_count = 0, b_resetAt = now + window\<rparr> else b0)
      in b1\<lparr>b_count := b_count b1 + 1\<rparr>)"

definition limit_count :: "nat \<Rightarrow> time \<Rightarrow> limiter \<Rightarrow> limiter \<times> bool" where
  "limit_count p now l =
     (let b = hit now (l_window l) (l_heap l ! p)
      in (l\<lparr>l_heap := (l_heap l)[p := b]\<rparr>, \<not> b_count b > l_rate l))"


text \<open>
  \<^verbatim>\<open>Retry-After\<close>: whole seconds until the reset at a second clock reading, truncated towards
  zero, plus one.
\<close>

definition retryAfter :: "time \<Rightarrow> bucket \<Rightarrow> int" where
  "retryAfter now b =
     (let d = time_sub (b_resetAt b) now
      in (if d < 0 then - (- d div 1000000000) else d div 1000000000) + 1)"

text \<open>
  The middleware, run without interruption: 429 with the header value (\<open>Inl\<close>), or the wrapped
  handler goes on.
\<close>

definition limit_Middleware ::
  "(string \<Rightarrow> bytes option) \<Rightarrow> bool \<Rightarrow> time \<Rightarrow> time \<Rightarrow> request \<Rightarrow> limiter \<Rightarrow> limiter \<times> (int + unit)" where
  "limit_Middleware parse trustProxy now now2 r l =
     (let ip = ClientIP parse r trustProxy in
        case LoadOrStore ip now l of (l1, p) \<Rightarrow>
          (case limit_count p now l1 of
             (l2, True) \<Rightarrow> (l2, Inr ())
           | (l2, False) \<Rightarrow> (l2, Inl (retryAfter now2 (l_heap l2 ! p)))))"

text \<open>The janitor's look at one bucket under its mutex, and the deletion after it.\<close>

definition stale_bucket :: "time \<Rightarrow> nat \<Rightarrow> limiter \<Rightarrow> bool" where
  "stale_bucket now p l = (now > b_resetAt (l_heap l ! p))"

definition drop_bucket :: "string \<Rightarrow> limiter \<Rightarrow> limiter" where
  "drop_bucket ip l = l\<lparr>l_buckets := AList.delete ip (l_buckets l)\<rparr>"

text \<open>One pass over the map that no request interrupts.\<close>

definition janitor :: "time \<Rightarrow> limiter \<Rightarrow> limiter" where
  "janitor now l = fold (\<lambda>(ip, p) l. if stale_bucket now p l then drop_bucket ip l else l) (l_buckets l) l"

text \<open>Its goroutine, and whether it has returned.\<close>

fun janitor_routine :: "wake list \<Rightarrow> limiter \<Rightarrow> limiter \<times> bool" where
  "janitor_routine [] l = (l, False)"
| "janitor_routine (Cancelled # ws) l = (l, True)"
| "janitor_routine (Ticked now c # ws) l = janitor_routine ws (janitor now l)"

section \<open>Interleavings\<close>

text \<open>
  The limiter with the requests that are in it (their address, their clock reading and, once
  loaded, the pointer) and the key the janitor has found stale and not yet deleted. Only the
  janitor deletes, so the bucket it looks at is still the one in the map.
\<close>

record limiting =
  lp_limiter :: limiter
  lp_flight :: "(string \<times> time \<times> nat option) list"
  lp_found :: "string option"

datatype limit_event = Arrive string time | Load nat | Count nat | Check string time | Drop

text \<open>A step, and the answer a request gets in it. A step that is not possible does nothing.\<close>

fun limit_exec :: "limit_event \<Rightarrow> limiting \<Rightarrow> limiting \<times> (string \<times> bool) option" where
  "limit_exec (Arrive ip t) x = (x\<lparr>lp_flight := lp_flight x @ [(ip, t, None)]\<rparr>, None)"
| "limit_exec (Load i) x =
     (if i < length (lp_flight x) then
        (case lp_flight x ! i of
           (ip, t, None) \<Rightarrow> (case LoadOrStore ip t (lp_limiter x) of (l, p) \<Rightarrow>
             (x\<lparr>lp_limiter := l, lp_flight := take i (lp_flight x) @ (ip, t, Some p) # drop (Suc i) (lp_flight x)\<rparr>, None))
         | (ip, t, Some p) \<Rightarrow> (x, None))
      else (x, None))"
| "limit_exec (Count i) x =
     (if i < length (lp_flight x) then
        (case lp_flight x ! i of
           (ip, t, Some p) \<Rightarrow> (case limit_count p t (lp_limiter x) of (l, ok) \<Rightarrow>
             (x\<lparr>lp_limiter := l, lp_flight := take i (lp_flight x) @ drop (Suc i) (lp_flight x)\<rparr>, Some (ip, ok)))
         | (ip, t, None) \<Rightarrow> (x, None))
      else (x, None))"
| "limit_exec (Check ip t) x =
     (case map_of (l_buckets (lp_limiter x)) ip of
        Some p \<Rightarrow> (if lp_found x = None \<and> stale_bucket t p (lp_limiter x) then x\<lparr>lp_found := Some ip\<rparr> else x, None)
      | None \<Rightarrow> (x, None))"
| "limit_exec Drop x =
     (case lp_found x of
        Some ip \<Rightarrow> (x\<lparr>lp_limiter := drop_bucket ip (lp_limiter x), lp_found := None\<rparr>, None)
      | None \<Rightarrow> (x, None))"

definition limiting_start :: "int \<Rightarrow> duration \<Rightarrow> limiting" where
  "limiting_start rate window = \<lparr>lp_limiter = NewLimiter rate window, lp_flight = [], lp_found = None\<rparr>"

definition limit_run :: "limit_event list \<Rightarrow> limiting \<Rightarrow> limiting" where
  "limit_run = fold (\<lambda>e x. fst (limit_exec e x))"

text \<open>The requests of one address that are let through in a run.\<close>

fun admitted :: "string \<Rightarrow> limit_event list \<Rightarrow> limiting \<Rightarrow> nat" where
  "admitted ip [] x = 0"
| "admitted ip (e # es) x =
     (if snd (limit_exec e x) = Some (ip, True) then 1 else 0) + admitted ip es (fst (limit_exec e x))"

text \<open>
  Unhurried, the steps of a request make up the middleware, and those of a sweep the janitor's
  pass.
\<close>

lemma middleware_steps:
  assumes "ip = ClientIP parse r trustProxy" and "lp_flight x = []"
  shows "(case limit_Middleware parse trustProxy now now2 r (lp_limiter x) of (l, res) \<Rightarrow>
      limit_run [Arrive ip now, Load 0] x = x\<lparr>lp_limiter := fst (LoadOrStore ip now (lp_limiter x)),
        lp_flight := [(ip, now, Some (snd (LoadOrStore ip now (lp_limiter x))))]\<rparr>
      \<and> limit_exec (Count 0) (limit_run [Arrive ip now, Load 0] x) = (x\<lparr>lp_limiter := l\<rparr>, Some (ip, res = Inr ())))"
  using assms by (simp add: limit_Middleware_def limit_run_def Let_def split: prod.split bool.split)

definition sweep_steps :: "time \<Rightarrow> (string, nat) gomap \<Rightarrow> limit_event list" where
  "sweep_steps now ks = concat (map (\<lambda>(ip, p). [Check ip now, Drop]) ks)"

lemma sweep_pass:
  assumes "distinct_keys ks" and "\<forall>(ip, p) \<in> set ks. map_of (l_buckets l) ip = Some p"
  shows "limit_run (sweep_steps now ks) \<lparr>lp_limiter = l, lp_flight = fs, lp_found = None\<rparr>
    = \<lparr>lp_limiter = fold (\<lambda>(ip, p) l. if stale_bucket now p l then drop_bucket ip l else l) ks l, lp_flight = fs, lp_found = None\<rparr>"
  using assms
proof (induction ks arbitrary: l)
  case Nil
  show ?case by (simp add: sweep_steps_def limit_run_def)
next
  case (Cons k ks)
  obtain ip p where k: "k = (ip, p)" by (cases k)
  have rest: "\<forall>(ip', p') \<in> set ks. map_of (l_buckets (drop_bucket ip l)) ip' = Some p'"
  proof clarify
    fix ip' p' assume "(ip', p') \<in> set ks"
    then have "ip' \<noteq> ip" "map_of (l_buckets l) ip' = Some p'" using Cons.prems k by (force simp: distinct_keys_def)+
    then show "map_of (l_buckets (drop_bucket ip l)) ip' = Some p'" by (simp add: drop_bucket_def delete_conv)
  qed
  have "map_of (l_buckets l) ip = Some p" "distinct_keys ks" using Cons.prems k by (simp_all add: distinct_keys_def)
  then show ?case
    using Cons.IH [of l] Cons.IH [OF _ rest] Cons.prems k
    by (simp add: sweep_steps_def limit_run_def)
qed

lemma janitor_steps:
  "distinct_keys (l_buckets l) \<Longrightarrow> limit_run (sweep_steps now (l_buckets l)) \<lparr>lp_limiter = l, lp_flight = fs, lp_found = None\<rparr>
    = \<lparr>lp_limiter = janitor now l, lp_flight = fs, lp_found = None\<rparr>"
  using sweep_pass [of "l_buckets l" l now fs] by (simp add: janitor_def distinct_keys_def)

section \<open>How many requests pass\<close>

text \<open>A bucket an address may still be counted in.\<close>

definition refers :: "limiting \<Rightarrow> string \<Rightarrow> nat \<Rightarrow> bool" where
  "refers x ip p = (map_of (l_buckets (lp_limiter x)) ip = Some p \<or> (\<exists>t. (ip, t, Some p) \<in> set (lp_flight x)))"








lemma refers_simps [simp]:
  "refers (x\<lparr>lp_flight := lp_flight x @ [(ip, t, None)]\<rparr>) = refers x"
  "refers (x\<lparr>lp_found := f\<rparr>) = refers x"
  by (simp_all add: refers_def fun_eq_iff)





lemma load_heap: "LoadOrStore ip t l = (l', p) \<Longrightarrow> length (l_heap l) \<le> length (l_heap l')"
  by (auto simp: LoadOrStore_def split: option.splits)































text \<open>
  More than twice the rate does pass: the janitor finds the bucket stale, two requests renew it
  before the deletion, and the next two get a new bucket (rate 2, window 60, all from 99 to 130).
\<close>

definition renewed_while_stale :: "limit_event list" where
  "renewed_while_stale = [Arrive ''a'' 99, Load 0, Count 0, Arrive ''a'' 101, Load 0, Check ''a'' 102, Arrive ''a'' 103, Load 1,
     Count 0, Count 0, Drop, Arrive ''a'' 130, Load 0, Count 0, Arrive ''a'' 130, Load 0, Count 0]"

definition one_before :: limiting where
  "one_before = limit_run [Arrive ''a'' 40, Load 0, Count 0] (limiting_start 2 60)"


theorem renewed_bucket_dropped: "admitted ''a'' renewed_while_stale one_before = 5"
  by code_simp

end
