(* ===== verification/Click_Stream.thy ===== *)
theory Click_Stream
  imports Models
begin

text \<open>
  The in-process publish/subscribe of click events (\<^verbatim>\<open>services/clickstream.go\<close>). Every locked
  section of the code is one step; the sections of concurrent \<^verbatim>\<open>Publish\<close>, \<^verbatim>\<open>Close\<close> and
  \<^verbatim>\<open>Subscribe\<close> calls interleave freely. A subscription is named by a number, its channel is a
  buffer of eight events with a closed flag, and sending on a closed channel panics.
\<close>

section \<open>State and locked sections\<close>

record subscription =
  sub_code :: string
  sub_ch :: "click_event list"
  sub_chClosed :: bool
  sub_closed :: bool

record click_stream =
  cs_subs :: "string \<Rightarrow> nat list"               \<comment> \<open>the registry \<^verbatim>\<open>subs\<close>, in range order\<close>
  cs_all :: "nat \<Rightarrow> subscription option"        \<comment> \<open>every subscription handed out\<close>
  cs_next :: nat
  cs_pending :: "(nat \<times> click_event) list"     \<comment> \<open>sends of running \<^verbatim>\<open>Publish\<close> calls\<close>
  cs_published :: "(string \<times> click_event) list" \<comment> \<open>ghost: what was published\<close>
  cs_panic :: bool

definition NewClickStream :: click_stream where
  "NewClickStream = \<lparr>cs_subs = (\<lambda>c. []), cs_all = Map.empty, cs_next = 0, cs_pending = [],
     cs_published = [], cs_panic = False\<rparr>"

definition chan_cap :: nat where "chan_cap = 8"

definition Subscribe :: "string \<Rightarrow> click_stream \<Rightarrow> click_stream" where
  "Subscribe code s =
     (let sub = \<lparr>sub_code = code, sub_ch = [], sub_chClosed = False, sub_closed = False\<rparr>; i = cs_next s
      in s\<lparr>cs_all := (cs_all s)(i \<mapsto> sub), cs_next := Suc i,
           cs_subs := (cs_subs s)(code := i # cs_subs s code)\<rparr>)"

text \<open>\<^verbatim>\<open>Subscription.Close\<close>: the section under the subscription's mutex, and \<^verbatim>\<open>unsubscribe\<close>.\<close>

definition sub_Close :: "nat \<Rightarrow> click_stream \<Rightarrow> click_stream" where
  "sub_Close i s =
     (case cs_all s i of
        None \<Rightarrow> s
      | Some sub \<Rightarrow>
          if sub_closed sub then s
          else s\<lparr>cs_all := (cs_all s)(i \<mapsto> sub\<lparr>sub_closed := True, sub_chClosed := True\<rparr>)\<rparr>)"

definition unsubscribe :: "nat \<Rightarrow> click_stream \<Rightarrow> click_stream" where
  "unsubscribe i s =
     (case cs_all s i of
        None \<Rightarrow> s
      | Some sub \<Rightarrow> s\<lparr>cs_subs := (cs_subs s)(sub_code sub := removeAll i (cs_subs s (sub_code sub)))\<rparr>)"

text \<open>\<^verbatim>\<open>trySend\<close>: the check of the flag and the non-blocking send are one locked section.\<close>

definition trySend :: "nat \<Rightarrow> click_event \<Rightarrow> click_stream \<Rightarrow> click_stream" where
  "trySend i ev s =
     (case cs_all s i of
        None \<Rightarrow> s
      | Some sub \<Rightarrow>
          if sub_closed sub then s
          else if sub_chClosed sub then s\<lparr>cs_panic := True\<rparr>
          else if length (sub_ch sub) < chan_cap
            then s\<lparr>cs_all := (cs_all s)(i \<mapsto> sub\<lparr>sub_ch := sub_ch sub @ [ev]\<rparr>)\<rparr>
          else s)"

text \<open>\<^verbatim>\<open>Publish\<close> takes its snapshot of the subscribers; the sends follow as steps of their own.\<close>

definition publish_snapshot :: "string \<Rightarrow> click_event \<Rightarrow> click_stream \<Rightarrow> click_stream" where
  "publish_snapshot code ev s =
     s\<lparr>cs_pending := cs_pending s @ map (\<lambda>i. (i, ev)) (cs_subs s code),
       cs_published := (code, ev) # cs_published s\<rparr>"

definition publish_send :: "nat \<Rightarrow> click_event \<Rightarrow> click_stream \<Rightarrow> click_stream" where
  "publish_send i ev s =
     (if (i, ev) \<in> set (cs_pending s) then trySend i ev (s\<lparr>cs_pending := remove1 (i, ev) (cs_pending s)\<rparr>) else s)"

text \<open>A whole \<^verbatim>\<open>Publish\<close>: the snapshot and then its sends.\<close>

definition Publish :: "string \<Rightarrow> click_event \<Rightarrow> click_stream \<Rightarrow> click_stream" where
  "Publish code ev s = fold (\<lambda>i. publish_send i ev) (cs_subs s code) (publish_snapshot code ev s)"

definition receive :: "nat \<Rightarrow> click_stream \<Rightarrow> click_stream \<times> click_event option" where
  "receive i s =
     (case cs_all s i of
        None \<Rightarrow> (s, None)
      | Some sub \<Rightarrow>
          (case sub_ch sub of
             [] \<Rightarrow> (s, None)
           | ev # rest \<Rightarrow> (s\<lparr>cs_all := (cs_all s)(i \<mapsto> sub\<lparr>sub_ch := rest\<rparr>)\<rparr>, Some ev)))"

definition SubscriberCount :: "string \<Rightarrow> click_stream \<Rightarrow> nat" where
  "SubscriberCount code s = length (cs_subs s code)"

section \<open>Interleavings\<close>

datatype stream_op = OSubscribe string | OClose nat | OUnsubscribe nat
  | OSnapshot string click_event | OSend nat click_event | OReceive nat

fun stream_exec :: "stream_op \<Rightarrow> click_stream \<Rightarrow> click_stream" where
  "stream_exec (OSubscribe c) s = Subscribe c s"
| "stream_exec (OClose i) s = sub_Close i s"
| "stream_exec (OUnsubscribe i) s = unsubscribe i s"
| "stream_exec (OSnapshot c ev) s = publish_snapshot c ev s"
| "stream_exec (OSend i ev) s = publish_send i ev s"
| "stream_exec (OReceive i) s = fst (receive i s)"

text \<open>A subscription as the invariant wants it, and registrations and sends that fit it.\<close>

definition sub_ok :: "(string \<times> click_event) list \<Rightarrow> subscription \<Rightarrow> bool" where
  "sub_ok pub sub = (sub_chClosed sub = sub_closed sub \<and> length (sub_ch sub) \<le> chan_cap
     \<and> (\<forall>ev \<in> set (sub_ch sub). (sub_code sub, ev) \<in> set pub))"

definition names :: "click_stream \<Rightarrow> nat \<Rightarrow> string \<Rightarrow> bool" where
  "names s i c = (\<exists>sub. cs_all s i = Some sub \<and> sub_code sub = c)"

definition stream_ok :: "click_stream \<Rightarrow> bool" where
  "stream_ok s = (\<not> cs_panic s
     \<and> (\<forall>i sub. cs_all s i = Some sub \<longrightarrow> i < cs_next s \<and> sub_ok (cs_published s) sub)
     \<and> (\<forall>c. \<forall>i \<in> set (cs_subs s c). names s i c)
     \<and> (\<forall>(i, ev) \<in> set (cs_pending s). \<exists>c. names s i c \<and> (c, ev) \<in> set (cs_published s)))"

lemma stream_ok_new: "stream_ok NewClickStream"
  by (simp add: stream_ok_def NewClickStream_def)

lemma stream_ok_sub: "stream_ok s \<Longrightarrow> cs_all s i = Some sub \<Longrightarrow> sub_ok (cs_published s) sub"
  by (simp add: stream_ok_def)

text \<open>Replacing a subscription by one of the same code keeps everything that names it.\<close>

lemma stream_ok_put:
  assumes "stream_ok s" and "cs_all s i = Some sub" and "sub_ok (cs_published s) sub'"
    and "sub_code sub' = sub_code sub"
  shows "stream_ok (s\<lparr>cs_all := (cs_all s)(i \<mapsto> sub')\<rparr>)"
proof -
  have "names (s\<lparr>cs_all := (cs_all s)(i \<mapsto> sub')\<rparr>) j c = names s j c" for j c
    using assms(2,4) by (auto simp: names_def)
  then show ?thesis using assms by (auto simp: stream_ok_def)
qed

lemma stream_ok_close: "stream_ok s \<Longrightarrow> stream_ok (sub_Close i s)"
  by (auto simp: sub_Close_def sub_ok_def intro!: stream_ok_put dest: stream_ok_sub split: option.split)

lemma stream_ok_receive: "stream_ok s \<Longrightarrow> stream_ok (fst (receive i s))"
  by (auto simp: receive_def sub_ok_def intro!: stream_ok_put dest: stream_ok_sub split: option.split list.split)

lemma stream_ok_unsubscribe: "stream_ok s \<Longrightarrow> stream_ok (unsubscribe i s)"
  by (auto simp: unsubscribe_def stream_ok_def names_def split: option.split)

lemma stream_ok_subscribe:
  assumes "stream_ok s"
  shows "stream_ok (Subscribe c s)"
proof -
  have "cs_all s (cs_next s) = None"
    using assms by (cases "cs_all s (cs_next s)") (auto simp: stream_ok_def)
  then have "names s j d \<Longrightarrow> names (Subscribe c s) j d" for j d
    by (auto simp: names_def Subscribe_def Let_def)
  moreover have "names (Subscribe c s) (cs_next s) c" by (simp add: names_def Subscribe_def Let_def)
  ultimately show ?thesis
    using assms unfolding stream_ok_def
    by (fastforce simp: Subscribe_def Let_def sub_ok_def chan_cap_def less_Suc_eq split: if_splits)
qed

lemma stream_ok_snapshot:
  assumes "stream_ok s"
  shows "stream_ok (publish_snapshot c ev s)"
proof -
  let ?s = "publish_snapshot c ev s"
  have n: "names ?s = names s" by (simp add: names_def publish_snapshot_def fun_eq_iff)
  have grow: "sub_ok (x # pub) sub" if "sub_ok pub sub" for x pub sub using that by (auto simp: sub_ok_def)
  have "\<exists>d. names s i d \<and> (d, e) \<in> set (cs_published ?s)" if "(i, e) \<in> set (cs_pending ?s)" for i e
  proof (cases "(i, e) \<in> set (cs_pending s)")
    case True
    then show ?thesis using assms unfolding stream_ok_def publish_snapshot_def by fastforce
  next
    case False
    then have "i \<in> set (cs_subs s c)" "e = ev" using that by (auto simp: publish_snapshot_def)
    moreover from this have "names s i c" using assms by (simp add: stream_ok_def)
    ultimately show ?thesis by (intro exI [of _ c]) (simp add: publish_snapshot_def)
  qed
  then show ?thesis
    using assms grow unfolding stream_ok_def n by (auto simp: publish_snapshot_def)
qed

lemma stream_ok_trySend:
  assumes "stream_ok s" and "names s i c" and "(c, ev) \<in> set (cs_published s)"
  shows "stream_ok (trySend i ev s)"
proof -
  obtain sub where sub: "cs_all s i = Some sub" "sub_code sub = c" using assms(2) by (auto simp: names_def)
  then have ok: "sub_ok (cs_published s) sub" using assms(1) stream_ok_sub by blast
  show ?thesis
  proof (cases "sub_closed sub \<or> \<not> length (sub_ch sub) < chan_cap")
    case True
    then have "trySend i ev s = s" using sub(1) ok by (auto simp: trySend_def sub_ok_def)
    then show ?thesis using assms(1) by simp
  next
    case False
    then have "trySend i ev s = s\<lparr>cs_all := (cs_all s)(i \<mapsto> sub\<lparr>sub_ch := sub_ch sub @ [ev]\<rparr>)\<rparr>"
      using sub(1) ok by (simp add: trySend_def sub_ok_def)
    moreover have "sub_ok (cs_published s) (sub\<lparr>sub_ch := sub_ch sub @ [ev]\<rparr>)"
      using False ok assms(3) sub(2) by (auto simp: sub_ok_def)
    ultimately show ?thesis using stream_ok_put [OF assms(1) sub(1)] by simp
  qed
qed

lemma stream_ok_pending:
  assumes "stream_ok s" and "set ps \<subseteq> set (cs_pending s)"
  shows "stream_ok (s\<lparr>cs_pending := ps\<rparr>)"
proof -
  have "names (s\<lparr>cs_pending := ps\<rparr>) = names s" by (simp add: names_def fun_eq_iff)
  then show ?thesis using assms by (simp add: stream_ok_def) blast
qed

lemma stream_ok_send:
  assumes ok: "stream_ok s"
  shows "stream_ok (publish_send i ev s)"
proof (cases "(i, ev) \<in> set (cs_pending s)")
  case True
  let ?s = "s\<lparr>cs_pending := remove1 (i, ev) (cs_pending s)\<rparr>"
  obtain c where c: "names s i c" "(c, ev) \<in> set (cs_published s)" using ok True by (auto simp: stream_ok_def)
  then have "names ?s i c" "(c, ev) \<in> set (cs_published ?s)" by (simp_all add: names_def)
  moreover have "stream_ok ?s" using stream_ok_pending [OF ok set_remove1_subset] .
  ultimately show ?thesis using True stream_ok_trySend [of ?s i c ev] by (simp add: publish_send_def)
next
  case False
  then show ?thesis using ok by (simp add: publish_send_def)
qed

lemma stream_exec_ok: "stream_ok s \<Longrightarrow> stream_ok (stream_exec op s)"
  by (cases op) (simp_all add: stream_ok_subscribe stream_ok_close stream_ok_unsubscribe stream_ok_snapshot
      stream_ok_send stream_ok_receive)

lemma stream_run_ok: "stream_ok (fold stream_exec ops NewClickStream)"
  by (induction ops rule: rev_induct) (simp_all add: stream_ok_new stream_exec_ok)

lemma Publish_exec: "Publish code ev s = fold stream_exec (OSnapshot code ev # map (\<lambda>i. OSend i ev) (cs_subs s code)) s"
proof -
  have "fold (\<lambda>i. publish_send i ev) is t = fold stream_exec (map (\<lambda>i. OSend i ev) is) t" for "is" t
    by (induction "is" arbitrary: t) simp_all
  then show ?thesis by (simp add: Publish_def)
qed

lemma stream_ok_publish: "stream_ok s \<Longrightarrow> stream_ok (Publish code ev s)"
proof -
  have "stream_ok t \<Longrightarrow> stream_ok (fold stream_exec ops t)" for ops t
    by (induction ops arbitrary: t) (simp_all add: stream_exec_ok)
  then show "stream_ok s \<Longrightarrow> stream_ok (Publish code ev s)" by (simp only: Publish_exec)
qed

text \<open>
  C30. However subscriptions, closes, publishes and receives interleave: no send ever hits a closed
  channel (the process does not panic), no channel holds more than eight events, and a
  subscriber is only ever handed events that were published for its own code.
\<close>
theorem stream_safe:
  assumes "s = fold stream_exec ops NewClickStream"
  shows "\<not> cs_panic s \<and> (cs_all s i = Some sub \<longrightarrow> length (sub_ch sub) \<le> 8
    \<and> (receive i s = (s', Some ev) \<longrightarrow> (sub_code sub, ev) \<in> set (cs_published s)))"
  using stream_run_ok [of ops] assms
  by (auto simp: stream_ok_def receive_def sub_ok_def chan_cap_def split: list.splits)

definition stream_click :: "time \<Rightarrow> click_event" where
  "stream_click t = \<lparr>ev_At = t, ev_IPHash = '''', ev_Referer = '''', ev_UAClass = '''', ev_Country = '''', ev_DestinationURL = ''''\<rparr>"

theorem stream_safe_witness:
  "\<not> cs_panic (fold stream_exec [OSubscribe ''ab'', OSnapshot ''ab'' (stream_click 1), OClose 0,
     OSend 0 (stream_click 1), OUnsubscribe 0] NewClickStream)"
  using stream_safe [OF refl] by blast

end
