(* ===== verification/Job_Queue.thy ===== *)
theory Job_Queue
  imports Prelude
begin

text \<open>
  The contract the webhook dispatcher and the unfurler share: a bounded queue, workers that take
  its head, and a stop after which nothing is accepted. The locale states what the three
  operations do to the queue and to the number of jobs accounted for, and derives from it that
  no job is lost; \<^verbatim>\<open>Webhook\<close> and \<^verbatim>\<open>Unfurl\<close> interpret it on the models of their methods.
\<close>

section \<open>Runs\<close>

text \<open>A job offered, one turn of a worker (with what the outside answers it), the stop.\<close>

datatype ('j, 'o) job_op = Offer 'j | Work 'o | Stop

fun job_exec :: "('j \<Rightarrow> 's \<Rightarrow> 's) \<Rightarrow> ('o \<Rightarrow> 's \<Rightarrow> 's) \<Rightarrow> ('s \<Rightarrow> 's) \<Rightarrow> ('j, 'o) job_op \<Rightarrow> 's \<Rightarrow> 's" where
  "job_exec enq work stop (Offer j) s = enq j s"
| "job_exec enq work stop (Work x) s = work x s"
| "job_exec enq work stop Stop s = stop s"

text \<open>The jobs offered before the stop.\<close>

fun offered :: "('j, 'o) job_op list \<Rightarrow> int" where
  "offered [] = 0"
| "offered (Offer j # ops) = 1 + offered ops"
| "offered (Work x # ops) = offered ops"
| "offered (Stop # ops) = 0"

section \<open>The contract\<close>

locale job_queue =
  fixes queue :: "'s \<Rightarrow> 'j list" and cap :: "'s \<Rightarrow> nat" and stopped closed :: "'s \<Rightarrow> bool"
    and counted :: "'s \<Rightarrow> int"     \<comment> \<open>the jobs done, failed or dropped\<close>
    and enq :: "'j \<Rightarrow> 's \<Rightarrow> 's" and work :: "'o \<Rightarrow> 's \<Rightarrow> 's" and stop :: "'s \<Rightarrow> 's"
  assumes enq_stopped: "stopped s \<Longrightarrow> enq j s = s"
    and enq_room: "\<not> stopped s \<Longrightarrow> \<not> closed s \<Longrightarrow> length (queue s) < cap s \<Longrightarrow>
      queue (enq j s) = queue s @ [j] \<and> counted (enq j s) = counted s"
    and enq_full: "\<not> stopped s \<Longrightarrow> \<not> closed s \<Longrightarrow> \<not> length (queue s) < cap s \<Longrightarrow>
      queue (enq j s) = queue s \<and> counted (enq j s) = counted s + 1"
    and enq_frame: "cap (enq j s) = cap s" "stopped (enq j s) = stopped s" "closed (enq j s) = closed s"
    and work_queue: "queue (work x s) = tl (queue s)"
    and work_counted: "counted (work x s) = counted s + (if queue s = [] then 0 else 1)"
    and work_frame: "cap (work x s) = cap s" "stopped (work x s) = stopped s" "closed (work x s) = closed s"
    and stop_stopped: "stopped (stop s)"
    and stop_closed: "closed s = stopped s \<Longrightarrow> closed (stop s)"
    and stop_frame: "queue (stop s) = queue s" "counted (stop s) = counted s" "cap (stop s) = cap s"
begin

definition wf :: "'s \<Rightarrow> bool" where
  "wf s = (closed s = stopped s \<and> length (queue s) \<le> cap s)"

definition accounted :: "'s \<Rightarrow> int" where
  "accounted s = counted s + int (length (queue s))"

lemmas frames = enq_frame work_frame stop_frame work_queue stop_stopped

lemma enq_cases:
  assumes "wf s"
  shows "wf (enq j s) \<and> accounted (enq j s) = accounted s + (if stopped s then 0 else 1)"
proof (cases "stopped s")
  case True
  then show ?thesis using assms by (simp add: enq_stopped)
next
  case False
  then have "\<not> closed s" using assms by (simp add: wf_def)
  then show ?thesis using assms False enq_room [of s j] enq_full [of s j]
    by (cases "length (queue s) < cap s") (simp_all add: wf_def accounted_def enq_frame)
qed

lemma work_accounted: "accounted (work x s) = accounted s"
  by (cases "queue s") (simp_all add: accounted_def work_queue work_counted)

lemma stop_accounted: "accounted (stop s) = accounted s"
  by (simp add: accounted_def stop_frame)

lemma exec_wf: "wf s \<Longrightarrow> wf (job_exec enq work stop p s)"
  using stop_closed [of s] by (cases p) (auto simp: enq_cases, auto simp: wf_def frames)

lemma exec_cap: "cap (job_exec enq work stop p s) = cap s"
  by (cases p) (simp_all add: frames)

lemma run_wf: "wf s \<Longrightarrow> wf (fold (job_exec enq work stop) ops s) \<and> cap (fold (job_exec enq work stop) ops s) = cap s"
  by (induction ops arbitrary: s) (simp_all add: exec_wf exec_cap)

lemma stopped_accounted:
  "stopped s \<Longrightarrow> wf s \<Longrightarrow> accounted (fold (job_exec enq work stop) ops s) = accounted s"
proof (induction ops arbitrary: s)
  case (Cons p ops)
  have "accounted (job_exec enq work stop p s) = accounted s \<and> stopped (job_exec enq work stop p s)"
    using Cons.prems by (cases p) (simp_all add: enq_stopped work_accounted stop_accounted frames)
  then show ?case using Cons exec_wf by simp
qed simp

text \<open>Every job offered before the stop is accounted for or still queued.\<close>

lemma running_accounted:
  "wf s \<Longrightarrow> \<not> stopped s \<Longrightarrow> accounted (fold (job_exec enq work stop) ops s) = accounted s + offered ops"
proof (induction ops arbitrary: s)
  case (Cons p ops)
  note ok = exec_wf [OF Cons.prems(1), of p]
  show ?case
  proof (cases p)
    case (Offer j)
    then show ?thesis using Cons.IH [OF ok] Cons.prems enq_cases [of s j] by (simp add: enq_frame)
  next
    case (Work x)
    then show ?thesis using Cons.IH [OF ok] Cons.prems by (simp add: work_frame work_accounted)
  next
    case Stop
    then show ?thesis using stopped_accounted [OF _ ok] by (simp add: stop_stopped stop_accounted)
  qed
qed simp

text \<open>As many turns as there are queued jobs empty the queue.\<close>

lemma work_drains: "queue (fold (job_exec enq work stop) (map Work xs) s) = drop (length xs) (queue s)"
  by (induction xs arbitrary: s) (simp_all add: work_queue drop_Suc)

end

end
