(* ===== verification/Webhook.thy ===== *)
theory Webhook
  imports Click_Info Job_Queue
begin

text \<open>
  The webhook dispatcher (\<^verbatim>\<open>services/webhook.go\<close>): the bounded queue, shutdown, delivery with
  retries, and signatures. HMAC-SHA256 is the parameter \<open>hmac\<close> on secret and body; the outcome
  of each HTTP attempt is an argument.
\<close>

section \<open>State\<close>

record webhook_event =
  wh_Code :: string
  wh_URL :: string
  wh_Secret :: bytes
  wh_Payload :: bytes

record dispatcher =
  wd_queue :: "webhook_event list"
  wd_cap :: nat
  wd_closed :: bool     \<comment> \<open>the channel is closed\<close>
  wd_stopped :: bool
  wd_sent :: int
  wd_failed :: int
  wd_dropped :: int

definition NewWebhookDispatcher :: "int \<Rightarrow> dispatcher" where
  "NewWebhookDispatcher queueSize = \<lparr>wd_queue = [], wd_cap = nat (if queueSize \<le> 0 then 256 else queueSize),
     wd_closed = False, wd_stopped = False, wd_sent = 0, wd_failed = 0, wd_dropped = 0\<rparr>"

section \<open>Enqueue and Close\<close>

text \<open>
  \<^verbatim>\<open>Enqueue\<close> loads \<^verbatim>\<open>stopped\<close> and then sends; \<^verbatim>\<open>Close\<close> swaps \<^verbatim>\<open>stopped\<close> and then closes the
  channel. These are four atomic steps of two goroutines. A send on a closed channel panics.
\<close>

datatype enqueue_result = Queued | Refused | SendPanic

definition enqueue_load :: "dispatcher \<Rightarrow> bool" where
  "enqueue_load d = wd_stopped d"

definition enqueue_send :: "webhook_event \<Rightarrow> dispatcher \<Rightarrow> dispatcher \<times> enqueue_result" where
  "enqueue_send ev d =
     (if wd_closed d then (d, SendPanic)
      else if length (wd_queue d) < wd_cap d then (d\<lparr>wd_queue := wd_queue d @ [ev]\<rparr>, Queued)
      else (d\<lparr>wd_dropped := wd_dropped d + 1\<rparr>, Refused))"

definition Enqueue :: "webhook_event \<Rightarrow> dispatcher \<Rightarrow> dispatcher \<times> enqueue_result" where
  "Enqueue ev d = (if enqueue_load d then (d, Refused) else enqueue_send ev d)"

definition close_swap :: "dispatcher \<Rightarrow> dispatcher \<times> bool" where
  "close_swap d = (if wd_stopped d then (d, False) else (d\<lparr>wd_stopped := True\<rparr>, True))"

definition close_channel :: "dispatcher \<Rightarrow> dispatcher" where
  "close_channel d = d\<lparr>wd_closed := True\<rparr>"

definition dispatcher_Close :: "dispatcher \<Rightarrow> dispatcher" where
  "dispatcher_Close d = (case close_swap d of (d', won) \<Rightarrow> if won then close_channel d' else d')"

definition dispatcher_Stats :: "dispatcher \<Rightarrow> int \<times> int \<times> int" where
  "dispatcher_Stats d = (wd_sent d, wd_failed d, wd_dropped d)"

section \<open>Delivery\<close>

text \<open>What an HTTP attempt comes to: the request cannot be built, the round trip fails, a status.\<close>

datatype http_outcome = BadRequest | TransportError | Response int

text \<open>\<^verbatim>\<open>attempt\<close>: whether to retry, and whether it failed.\<close>

definition attempt :: "http_outcome \<Rightarrow> bool \<times> bool" where
  "attempt r =
     (case r of
        BadRequest \<Rightarrow> (False, True)
      | TransportError \<Rightarrow> (True, True)
      | Response n \<Rightarrow>
          if n \<ge> 200 \<and> n < 300 then (False, False)
          else if n \<ge> 500 then (True, True)
          else (False, True))"

definition maxAttempts :: nat where "maxAttempts = 3"

definition backoff :: "duration list" where
  "backoff = [0, 200000000, 800000000]"

text \<open>
  The retry loop from attempt \<open>k\<close> on: whether the event was sent, the number of attempts made
  and the time slept. \<open>out k\<close> is the outcome of attempt \<open>k\<close>.
\<close>

fun deliver_loop :: "nat \<Rightarrow> nat \<Rightarrow> (nat \<Rightarrow> http_outcome) \<Rightarrow> bool \<times> nat \<times> duration" where
  "deliver_loop 0 k out = (False, k, 0)"
| "deliver_loop (Suc n) k out =
     (let slept = (if k > 0 then backoff ! k else 0) in
        case attempt (out k) of
          (_, False) \<Rightarrow> (True, Suc k, slept)
        | (False, True) \<Rightarrow> (False, Suc k, slept)
        | (True, True) \<Rightarrow> (case deliver_loop n (Suc k) out of (ok, m, t) \<Rightarrow> (ok, m, slept + t)))"

text \<open>
  \<^verbatim>\<open>deliver\<close>: no attempt is made when the URL does not parse or its host fails the check; the
  result adds the number of HTTP requests made.
\<close>

definition deliver :: "net_env \<Rightarrow> (string \<Rightarrow> valid_err option) \<Rightarrow> (nat \<Rightarrow> http_outcome) \<Rightarrow> webhook_event
    \<Rightarrow> dispatcher \<Rightarrow> dispatcher \<times> nat" where
  "deliver env hostValidator out ev d =
     (case n_parse env (wh_URL ev) of
        None \<Rightarrow> (d\<lparr>wd_failed := wd_failed d + 1\<rparr>, 0)
      | Some u \<Rightarrow>
          if hostValidator (u_Hostname u) \<noteq> None then (d\<lparr>wd_failed := wd_failed d + 1\<rparr>, 0)
          else (case deliver_loop maxAttempts 0 out of
            (True, m, t) \<Rightarrow> (d\<lparr>wd_sent := wd_sent d + 1\<rparr>, m)
          | (False, m, t) \<Rightarrow> (d\<lparr>wd_failed := wd_failed d + 1\<rparr>, m)))"

text \<open>One turn of a worker: it takes the head of the queue and delivers it.\<close>

definition worker_step :: "net_env \<Rightarrow> (string \<Rightarrow> valid_err option) \<Rightarrow> (nat \<Rightarrow> http_outcome) \<Rightarrow> dispatcher \<Rightarrow> dispatcher" where
  "worker_step env hostValidator out d =
     (case wd_queue d of
        [] \<Rightarrow> d
      | ev # rest \<Rightarrow> fst (deliver env hostValidator out ev (d\<lparr>wd_queue := rest\<rparr>)))"

section \<open>Signatures\<close>

definition signature_header :: "(bytes \<Rightarrow> bytes \<Rightarrow> bytes) \<Rightarrow> webhook_event \<Rightarrow> string" where
  "signature_header hmac ev = ''sha256='' @ hex_encode (hmac (wh_Secret ev) (wh_Payload ev))"

definition from_hex :: "char \<Rightarrow> nat option" where
  "from_hex c = (let n = of_char c in
     if 48 \<le> n \<and> n \<le> 57 then Some (n - 48)
     else if 97 \<le> n \<and> n \<le> 102 then Some (n - 87)
     else if 65 \<le> n \<and> n \<le> 70 then Some (n - 55)
     else None)"

text \<open>\<^verbatim>\<open>hex.DecodeString\<close>.\<close>

fun hex_decode :: "string \<Rightarrow> bytes option" where
  "hex_decode [] = Some []"
| "hex_decode [c] = None"
| "hex_decode (c # d # s) =
     (case (from_hex c, from_hex d) of
        (Some a, Some b) \<Rightarrow> map_option ((#) (of_nat (16 * a + b))) (hex_decode s)
      | _ \<Rightarrow> None)"

definition VerifyWebhookSignature :: "(bytes \<Rightarrow> bytes \<Rightarrow> bytes) \<Rightarrow> bytes \<Rightarrow> bytes \<Rightarrow> string \<Rightarrow> bool" where
  "VerifyWebhookSignature hmac secret body header =
     (if length header \<le> length ''sha256='' \<or> take (length ''sha256='') header \<noteq> ''sha256='' then False
      else case hex_decode (drop (length ''sha256='') header) of
        None \<Rightarrow> False
      | Some got \<Rightarrow> got = hmac secret body)"

section \<open>Delivery is bounded and counted once\<close>

lemma attempt_cases: "attempt r = (False, False) \<or> attempt r = (False, True) \<or> attempt r = (True, True)"
  by (cases r) (auto simp: attempt_def)

lemma deliver_loop_bound:
  "deliver_loop n k out = (ok, m, t) \<Longrightarrow> m \<le> k + n \<and> k \<le> m \<and> (0 < n \<longrightarrow> k < m)
    \<and> (ok \<longleftrightarrow> k < m \<and> attempt (out (m - 1)) = (False, False))
    \<and> (\<forall>j. k \<le> j \<and> Suc j < m \<longrightarrow> attempt (out j) = (True, True))"
proof (induction n arbitrary: k ok m t)
  case 0
  then show ?case by auto
next
  case (Suc n)
  consider "attempt (out k) = (False, False)" | "attempt (out k) = (False, True)" | "attempt (out k) = (True, True)"
    using attempt_cases by blast
  then show ?case
  proof cases
    case 3
    obtain ok' m' t' where r: "deliver_loop n (Suc k) out = (ok', m', t')" by (cases "deliver_loop n (Suc k) out")
    then have eq: "ok = ok'" "m = m'" using Suc.prems 3 by (simp_all add: Let_def)
    note ih = Suc.IH [OF r]
    have "attempt (out j) = (True, True)" if "k \<le> j \<and> Suc j < m" for j
      using ih that eq 3 by (cases "j = k") auto
    moreover have "ok \<longleftrightarrow> k < m \<and> attempt (out (m - 1)) = (False, False)"
    proof (cases "Suc k < m")
      case True
      then show ?thesis using ih eq by auto
    next
      case False
      then have "m = Suc k" using ih eq by auto
      then show ?thesis using ih eq 3 by auto
    qed
    ultimately show ?thesis using ih eq by auto
  qed (use Suc.prems in \<open>auto simp: Let_def\<close>)
qed

text \<open>
  C28. A delivery makes at most three HTTP requests and none at all when the URL does not parse or
  the host fails the check at delivery time; all but the last outcome were retryable failures
  (a 5xx or a transport error); the event is counted exactly once, as sent exactly if the last
  outcome is a 2xx.
\<close>
theorem deliver_bounded:
  assumes "deliver env hv out ev d = (d', m)"
  shows "m \<le> 3 \<and> wd_queue d' = wd_queue d \<and> wd_dropped d' = wd_dropped d
    \<and> (wd_sent d' - wd_sent d) + (wd_failed d' - wd_failed d) = 1
    \<and> (wd_sent d' = wd_sent d + 1 \<longleftrightarrow> 0 < m \<and> attempt (out (m - 1)) = (False, False))
    \<and> (\<forall>j. Suc j < m \<longrightarrow> attempt (out j) = (True, True))
    \<and> (0 < m \<longleftrightarrow> (\<exists>u. n_parse env (wh_URL ev) = Some u \<and> hv (u_Hostname u) = None))"
proof -
  obtain ok k t where l: "deliver_loop maxAttempts 0 out = (ok, k, t)" by (cases "deliver_loop maxAttempts 0 out")
  from deliver_loop_bound [OF l] have b: "k \<le> 3" "0 < k" "ok \<longleftrightarrow> attempt (out (k - 1)) = (False, False)"
    "\<forall>j. Suc j < k \<longrightarrow> attempt (out j) = (True, True)" by (auto simp: maxAttempts_def)
  show ?thesis
  proof (cases "\<exists>u. n_parse env (wh_URL ev) = Some u \<and> hv (u_Hostname u) = None")
    case True
    then have "d' = (if ok then d\<lparr>wd_sent := wd_sent d + 1\<rparr> else d\<lparr>wd_failed := wd_failed d + 1\<rparr>)" "m = k"
      using assms l by (cases ok; auto simp: deliver_def)+
    then show ?thesis using True b by (cases ok) simp_all
  next
    case False
    then have "d' = d\<lparr>wd_failed := wd_failed d + 1\<rparr>" "m = 0"
      using assms by (auto simp: deliver_def split: option.splits if_splits)
    then show ?thesis using False by simp
  qed
qed


definition hook_env :: net_env where
  "hook_env = \<lparr>n_parse = (\<lambda>u. Some \<lparr>u_Scheme = ''https'', u_HasUser = False, u_Hostname = u\<rparr>), n_ip = (\<lambda>h. None),
     n_dns = (\<lambda>h. Some [[127, 0, 0, 1]]), n_lower = id\<rparr>"

definition hook_event :: webhook_event where
  "hook_event = \<lparr>wh_Code = ''ab'', wh_URL = ''h'', wh_Secret = [1], wh_Payload = [2]\<rparr>"

theorem deliver_bounded_witness:
  "snd (deliver hook_env (\<lambda>h. None) (\<lambda>k. if k = 0 then Response 503 else Response 204) hook_event (NewWebhookDispatcher 2)) \<le> 3"
proof -
  obtain d m where d: "deliver hook_env (\<lambda>h. None) (\<lambda>k. if k = 0 then Response 503 else Response 204) hook_event
      (NewWebhookDispatcher 2) = (d, m)" by fastforce
  show ?thesis using deliver_bounded [OF d] d by simp
qed

section \<open>Runs of the dispatcher\<close>

text \<open>Whole calls of \<^verbatim>\<open>Enqueue\<close> and \<^verbatim>\<open>Close\<close>, and turns of the workers, in any order.\<close>

definition hook_exec :: "net_env \<Rightarrow> (string \<Rightarrow> valid_err option)
    \<Rightarrow> (webhook_event, nat \<Rightarrow> http_outcome) job_op \<Rightarrow> dispatcher \<Rightarrow> dispatcher" where
  "hook_exec env hv = job_exec (\<lambda>ev d. fst (Enqueue ev d)) (worker_step env hv) dispatcher_Close"

definition hook_counted :: "dispatcher \<Rightarrow> int" where
  "hook_counted d = wd_sent d + wd_failed d + wd_dropped d"

lemma deliver_frame:
  "deliver env hv out ev d = (d', m) \<Longrightarrow> wd_queue d' = wd_queue d \<and> wd_cap d' = wd_cap d
    \<and> wd_closed d' = wd_closed d \<and> wd_stopped d' = wd_stopped d \<and> hook_counted d' = hook_counted d + 1"
  by (auto simp: deliver_def hook_counted_def split: option.splits if_splits prod.splits bool.splits)

lemma worker_step_frame:
  "hook_counted (worker_step env hv out d) = hook_counted d + (if wd_queue d = [] then 0 else 1)
    \<and> wd_stopped (worker_step env hv out d) = wd_stopped d \<and> wd_closed (worker_step env hv out d) = wd_closed d
    \<and> wd_cap (worker_step env hv out d) = wd_cap d \<and> wd_queue (worker_step env hv out d) = tl (wd_queue d)"
proof (cases "wd_queue d")
  case Nil
  then show ?thesis by (simp add: worker_step_def)
next
  case (Cons ev rest)
  obtain d' m where d: "deliver env hv out ev (d\<lparr>wd_queue := rest\<rparr>) = (d', m)"
    by (cases "deliver env hv out ev (d\<lparr>wd_queue := rest\<rparr>)")
  show ?thesis using deliver_frame [OF d] Cons d by (simp add: worker_step_def hook_counted_def)
qed

interpretation hook: job_queue wd_queue wd_cap wd_stopped wd_closed hook_counted "\<lambda>ev d. fst (Enqueue ev d)"
  "worker_step env hv" dispatcher_Close for env hv
  by unfold_locales
    (auto simp: worker_step_frame, auto simp: Enqueue_def enqueue_load_def enqueue_send_def dispatcher_Close_def
      close_swap_def close_channel_def hook_counted_def split: if_splits)

text \<open>The state between calls: the channel is closed exactly after the stop.\<close>

definition hook_ok :: "dispatcher \<Rightarrow> bool" where
  "hook_ok d = (wd_closed d = wd_stopped d \<and> length (wd_queue d) \<le> wd_cap d)"

text \<open>
  C27. No event is lost unseen or counted twice: in every run of the dispatcher, the events offered
  before the stop are exactly those sent, failed, dropped or still queued; the queue never
  exceeds its size; and after a stop, as many turns of the workers as there are queued events
  empty the queue.
\<close>
theorem dispatcher_accounts:
  assumes "d = fold (hook_exec env hv) ops (NewWebhookDispatcher qsize)"
  shows "wd_sent d + wd_failed d + wd_dropped d + int (length (wd_queue d)) = offered ops
    \<and> length (wd_queue d) \<le> nat (if qsize \<le> 0 then 256 else qsize)
    \<and> wd_queue (fold (hook_exec env hv) (map Work outs) d) = drop (length outs) (wd_queue d)"
proof -
  let ?n = "NewWebhookDispatcher qsize"
  have new: "hook.wf ?n" "\<not> wd_stopped ?n" "hook.accounted ?n = 0" "wd_cap ?n = nat (if qsize \<le> 0 then 256 else qsize)"
    by (simp_all add: hook.wf_def hook.accounted_def hook_counted_def NewWebhookDispatcher_def)
  then show ?thesis
    using hook.running_accounted [OF new(1,2), of env hv ops] hook.run_wf [OF new(1), of env hv ops]
    by (simp add: assms hook_exec_def hook.work_drains hook.wf_def hook.accounted_def hook_counted_def)
qed

theorem dispatcher_accounts_witness:
  "length (wd_queue (fold (hook_exec hook_env (\<lambda>h. None)) [Offer hook_event, Work (\<lambda>k. Response 200)]
     (NewWebhookDispatcher 1))) \<le> 1"
  using dispatcher_accounts [OF refl, where qsize = 1 and outs = "[]" and env = hook_env and hv = "\<lambda>h. None"
      and ops = "[Offer hook_event, Work (\<lambda>k. Response 200)]"] by simp

text \<open>
  \<^verbatim>\<open>Enqueue\<close> and \<^verbatim>\<open>Close\<close> race: a call of \<^verbatim>\<open>Enqueue\<close> that loaded \<^verbatim>\<open>stopped\<close> before a
  \<^verbatim>\<open>Close\<close> and sends after it hits the closed channel and panics, although a call that starts
  after the \<^verbatim>\<open>Close\<close> is refused. Run without interruption, \<^verbatim>\<open>Enqueue\<close> never panics.
\<close>
theorem enqueue_close_race:
  assumes "\<not> wd_stopped d"
  shows "\<not> enqueue_load d \<and> snd (enqueue_send ev (dispatcher_Close d)) = SendPanic
    \<and> Enqueue ev (dispatcher_Close d) = (dispatcher_Close d, Refused)
    \<and> (wd_closed d = wd_stopped d \<longrightarrow> snd (Enqueue ev d) \<noteq> SendPanic)"
  using assms by (simp add: enqueue_load_def enqueue_send_def dispatcher_Close_def close_swap_def close_channel_def Enqueue_def)

theorem enqueue_close_race_witness:
  "snd (enqueue_send hook_event (dispatcher_Close (NewWebhookDispatcher 4))) = SendPanic"
  using enqueue_close_race [of "NewWebhookDispatcher 4" hook_event] by (simp add: NewWebhookDispatcher_def)

section \<open>Signatures round-trip\<close>

lemma from_hex_digit: "n < 16 \<Longrightarrow> from_hex (hex_digit n) = Some n"
proof -
  have "list_all (\<lambda>n. from_hex (hex_digit n) = Some n) [0..<16]" by code_simp
  then show "n < 16 \<Longrightarrow> ?thesis" by (simp add: list_all_iff del: upt_conv_Cons_Cons upt_rec_numeral)
qed

lemma hex_decode_encode: "hex_decode (hex_encode bs) = Some bs"
proof (induction bs)
  case Nil
  show ?case by (simp add: hex_encode_def)
next
  case (Cons b bs)
  have "unat b < 2 ^ LENGTH(8)" by (rule unsigned_less)
  then have lt: "unat b div 16 < 16" by simp
  have "hex_digit (unat b) = hex_digit (unat b mod 16)" by (simp add: hex_digit_def)
  then have "hex_decode (hex_encode (b # bs)) = map_option ((#) (of_nat (16 * (unat b div 16) + unat b mod 16))) (hex_decode (hex_encode bs))"
    using lt by (simp add: hex_encode_def from_hex_digit)
  then show ?case using Cons by simp
qed

text \<open>
  The signature header the dispatcher sends verifies: \<^verbatim>\<open>VerifyWebhookSignature\<close> with the
  event's secret and body accepts it, and it accepts it for another secret or body only if the
  HMAC of those is the same (for any HMAC whose values are not empty).
\<close>
theorem signature_roundtrip:
  assumes "hmac (wh_Secret ev) (wh_Payload ev) \<noteq> []"
  shows "VerifyWebhookSignature hmac secret body (signature_header hmac ev)
    \<longleftrightarrow> hmac secret body = hmac (wh_Secret ev) (wh_Payload ev)"
proof -
  have "hex_encode (hmac (wh_Secret ev) (wh_Payload ev)) \<noteq> []"
    using assms by (cases "hmac (wh_Secret ev) (wh_Payload ev)") (simp_all add: hex_encode_def)
  then show ?thesis by (auto simp: VerifyWebhookSignature_def signature_header_def hex_decode_encode)
qed

theorem signature_roundtrip_witness:
  "VerifyWebhookSignature (\<lambda>k b. 7 # k @ b) [1] [2] (signature_header (\<lambda>k b. 7 # k @ b) hook_event)"
  using signature_roundtrip [of "\<lambda>k b. 7 # k @ b" hook_event "[1]" "[2]"] by (simp add: hook_event_def)

end
