(* ===== verification/Picker.thy ===== *)
theory Picker
  imports Models
begin

text \<open>
  The weighted choice of a destination (\<^verbatim>\<open>services/destination_picker.go\<close>). The draw of
  \<^verbatim>\<open>rand.IntN(total)\<close>, a number in \<open>[0, total)\<close>, is an argument. Validation keeps a pool to at
  most ten weights of at most 100, so the sums stay far from 64 bits and are not wrapped.
\<close>

definition total_weight :: "destination list \<Rightarrow> int" where
  "total_weight pool = sum_list (map d_Weight pool)"

text \<open>The loop over the pool: the first index whose cumulative weight exceeds \<open>r\<close>.\<close>

fun pick_index :: "destination list \<Rightarrow> int \<Rightarrow> int \<Rightarrow> nat option" where
  "pick_index [] r cum = None"
| "pick_index (d # ds) r cum =
     (let cum' = cum + d_Weight d in if r < cum' then Some 0 else map_option Suc (pick_index ds r cum'))"

definition PickDestination :: "destination list \<Rightarrow> int \<Rightarrow> destination option" where
  "PickDestination pool r =
     (if pool = [] then None
      else if length pool = 1 then Some (pool ! 0)
      else case pick_index pool r 0 of Some i \<Rightarrow> Some (pool ! i) | None \<Rightarrow> Some (pool ! (length pool - 1)))"

lemma total_nonneg: "\<forall>d \<in> set ds. 0 \<le> d_Weight d \<Longrightarrow> 0 \<le> total_weight ds"
  by (induction ds) (auto simp: total_weight_def)

lemma pick_index_range:
  assumes "\<forall>d \<in> set pool. 0 \<le> d_Weight d" and "i < length pool"
  shows "cum \<le> r \<and> pick_index pool r cum = Some i \<longleftrightarrow>
    cum + total_weight (take i pool) \<le> r \<and> r < cum + total_weight (take (Suc i) pool)"
  using assms
proof (induction pool arbitrary: i cum)
  case Nil
  then show ?case by simp
next
  case (Cons d ds)
  have nonneg: "0 \<le> total_weight (take k ds)" for k
    using Cons.prems(1) by (intro total_nonneg) (meson in_set_takeD list.set_intros(2))
  show ?case
  proof (cases i)
    case 0
    then show ?thesis by (auto simp: total_weight_def Let_def)
  next
    case (Suc j)
    have "cum + d_Weight d \<le> r \<and> pick_index ds r (cum + d_Weight d) = Some j \<longleftrightarrow>
        cum + d_Weight d + total_weight (take j ds) \<le> r \<and> r < cum + d_Weight d + total_weight (take (Suc j) ds)"
      using Cons.IH [of j "cum + d_Weight d"] Cons.prems Suc by simp
    moreover have "0 \<le> d_Weight d" using Cons.prems(1) by simp
    ultimately show ?thesis
      using Suc nonneg [of j] by (auto simp: total_weight_def Let_def algebra_simps)
  qed
qed

lemma take_Suc_total: "i < length pool \<Longrightarrow> total_weight (take (Suc i) pool) = total_weight (take i pool) + d_Weight (pool ! i)"
  by (simp add: total_weight_def take_Suc_conv_app_nth)

lemma total_take_le:
  assumes "\<forall>d \<in> set pool. 0 \<le> d_Weight d"
  shows "0 \<le> total_weight (take k pool) \<and> total_weight (take k pool) \<le> total_weight pool"
proof -
  have "total_weight pool = total_weight (take k pool) + total_weight (drop k pool)"
    by (simp add: total_weight_def flip: sum_list_append map_append)
  moreover have "0 \<le> total_weight (take k pool)" "0 \<le> total_weight (drop k pool)"
    using assms by (meson in_set_takeD in_set_dropD total_nonneg)+
  ultimately show ?thesis by simp
qed

text \<open>
  The choice is proportional to the weights: of the \<^verbatim>\<open>total\<close> equally likely draws, exactly
  \<open>d_Weight (pool ! i)\<close> lead to entry \<open>i\<close>; and every draw picks an entry of the pool.
\<close>
theorem pick_proportional:
  assumes "\<forall>d \<in> set pool. 1 \<le> d_Weight d" and "i < length pool"
  shows "card {r. 0 \<le> r \<and> r < total_weight pool \<and> pick_index pool r 0 = Some i} = nat (d_Weight (pool ! i))
    \<and> (\<exists>d \<in> set pool. PickDestination pool r = Some d)"
proof
  have nonneg: "\<forall>d \<in> set pool. 0 \<le> d_Weight d" using assms(1) by force
  let ?a = "total_weight (take i pool)"
  have le: "0 \<le> ?a" "?a + d_Weight (pool ! i) \<le> total_weight pool"
    using total_take_le [OF nonneg, of i] total_take_le [OF nonneg, of "Suc i"] take_Suc_total [OF assms(2)] by simp_all
  have "(0 \<le> r \<and> r < total_weight pool \<and> pick_index pool r 0 = Some i) = (?a \<le> r \<and> r < ?a + d_Weight (pool ! i))" for r
    using pick_index_range [OF nonneg assms(2), of 0 r] le unfolding take_Suc_total [OF assms(2)] by linarith
  then have "{r. 0 \<le> r \<and> r < total_weight pool \<and> pick_index pool r 0 = Some i} = {?a..<?a + d_Weight (pool ! i)}"
    by (simp add: atLeastLessThan_def atLeast_def lessThan_def Collect_conj_eq)
  then show "card {r. 0 \<le> r \<and> r < total_weight pool \<and> pick_index pool r 0 = Some i} = nat (d_Weight (pool ! i))"
    by simp
next
  have idx: "pick_index ds r cum = Some j \<Longrightarrow> j < length ds" for ds cum j
    by (induction ds r cum arbitrary: j rule: pick_index.induct) (auto simp: Let_def split: if_splits)
  have "pool \<noteq> []" using assms(2) by auto
  show "\<exists>d \<in> set pool. PickDestination pool r = Some d"
  proof (cases "pick_index pool r 0")
    case None
    then show ?thesis using \<open>pool \<noteq> []\<close> by (simp add: PickDestination_def)
  next
    case (Some j)
    then have "pool ! j \<in> set pool" using idx [OF Some] by simp
    then show ?thesis using Some \<open>pool \<noteq> []\<close> by (simp add: PickDestination_def)
  qed
qed

theorem pick_proportional_witness:
  "card {r. 0 \<le> r \<and> r < 10 \<and> pick_index [\<lparr>d_URL = ''a'', d_Weight = 9\<rparr>, \<lparr>d_URL = ''b'', d_Weight = 1\<rparr>] r 0 = Some 0} = 9"
  using pick_proportional [of "[\<lparr>d_URL = ''a'', d_Weight = 9\<rparr>, \<lparr>d_URL = ''b'', d_Weight = 1\<rparr>]" 0 0]
  by (simp add: total_weight_def)

end
