(* ===== verification/Redirect.thy ===== *)
theory Redirect
  imports Auth DNS_Cache Rate_Limit Click_Stream Webhook Picker
begin

text \<open>
  Following a short URL (\<^verbatim>\<open>handlers/redirect.go\<close>). The handler works on the store, the DNS cache,
  the click stream and the webhook dispatcher; \<open>redirect_check\<close> is its part up to the decision to
  redirect, which only reads the store, \<open>redirect_commit\<close> the part from the click event on. Between
  the two other requests may run.
\<close>

section \<open>State, configuration, replies\<close>

record 's redirect_state =
  rs_store :: 's
  rs_cache :: "dns_cache option"
  rs_stream :: "click_stream option"
  rs_webhook :: "dispatcher option"

record redirect_cfg =
  rc_DenyList :: deny_list
  rc_TrustProxy :: bool
  rc_LogIP :: bool
  rc_GeoIP :: "(bytes \<Rightarrow> string) option"
  rc_salt :: string                                \<comment> \<open>the salt of \<^verbatim>\<open>HashIP\<close>\<close>
  rc_marshal :: "string \<Rightarrow> click_event \<Rightarrow> bytes"    \<comment> \<open>\<^verbatim>\<open>json.Marshal\<close> of the webhook payload\<close>

text \<open>The password form for a code with a hint, or the redirect to a URL.\<close>

datatype page = PasswordForm string string | Found string

text \<open>The body of a POST: \<open>None\<close> when \<^verbatim>\<open>ParseForm\<close> fails, else the \<^verbatim>\<open>password\<close> field.\<close>

type_synonym form = "string option"

section \<open>The password gate\<close>

definition renderPasswordForm :: "int \<Rightarrow> string \<Rightarrow> string \<Rightarrow> page reply" where
  "renderPasswordForm status code errMsg = Payload status (PasswordForm code errMsg)"

text \<open>\<open>None\<close> lets the request pass; \<open>Some\<close> is the reply that was written.\<close>

definition passwordOK :: "env \<Rightarrow> request \<Rightarrow> form \<Rightarrow> url_mapping \<Rightarrow> page reply option" where
  "passwordOK env r body m =
     (if r_Method r = ''POST'' then
        (case body of
           None \<Rightarrow> Some (renderPasswordForm 400 (m_ID m) '''')
         | Some pw \<Rightarrow>
             if \<not> verifyPassword env pw (m_PasswordHash m) (m_PasswordSalt m)
             then Some (renderPasswordForm 401 (m_ID m) ''Incorrect password. Try again.'')
             else None)
      else if r_Method r = ''GET'' then Some (renderPasswordForm 200 (m_ID m) '''')
      else Some (HttpError 405 ''Method Not Allowed''))"

section \<open>The decision\<close>

definition redirect_target :: "url_mapping \<Rightarrow> int \<Rightarrow> string" where
  "redirect_target m draw =
     (if m_Destinations m \<noteq> [] then
        (case PickDestination (m_Destinations m) draw of None \<Rightarrow> m_OriginalURL m | Some d \<Rightarrow> d_URL d)
      else m_OriginalURL m)"

text \<open>The checks of the destination: the new cache, and whether the target is refused.\<close>

definition target_refused :: "redirect_cfg \<Rightarrow> env \<Rightarrow> time \<Rightarrow> string \<Rightarrow> dns_cache option \<Rightarrow> dns_cache option \<times> bool" where
  "target_refused cfg env now target cache =
     (case n_parse env target of
        None \<Rightarrow> (cache, False)
      | Some u \<Rightarrow>
          (let host = u_Hostname u in
             if rc_DenyList cfg \<noteq> None \<and> deny_contains (n_lower env) (rc_DenyList cfg) host then (cache, True)
             else (case ValidateHost (net_env.truncate env) now host cache of
               (cache', err) \<Rightarrow> (cache', err \<noteq> None))))"

text \<open>
  \<open>clk 0\<close> is the clock of \<^verbatim>\<open>Get\<close>, \<open>clk 1\<close> of the DNS cache, \<open>clk 2\<close> of the click event. The outcome
  is a reply, or the mapping and the target to redirect to.
\<close>

definition redirect_check :: "'s store_ops \<Rightarrow> redirect_cfg \<Rightarrow> env \<Rightarrow> (nat \<Rightarrow> time) \<Rightarrow> int \<Rightarrow> request \<Rightarrow> form
    \<Rightarrow> 's redirect_state \<Rightarrow> 's redirect_state \<times> (page reply + url_mapping \<times> string)" where
  "redirect_check ops cfg env clk draw r body st =
     (if r_Code r = '''' then (st, Inl NotFoundPage)
      else case st_Get ops (clk 0) (r_Code r) (rs_store st) of
        Inl e \<Rightarrow> (st, Inl (get_error e))
      | Inr m \<Rightarrow>
          if m_MaxClicks m > 0 \<and> m_ClickCount m \<ge> m_MaxClicks m
          then (st, Inl (Plain 410 ''This URL has reached its click limit''))
          else (case (if m_PasswordHash m \<noteq> [] then passwordOK env r body m else None) of
            Some reply \<Rightarrow> (st, Inl reply)
          | None \<Rightarrow>
              (let target = redirect_target m draw in
                 case target_refused cfg env (clk 1) target (rs_cache st) of
                   (cache', True) \<Rightarrow> (st\<lparr>rs_cache := cache'\<rparr>, Inl (Plain 451 ''This short URL has been disabled.''))
                 | (cache', False) \<Rightarrow> (st\<lparr>rs_cache := cache'\<rparr>, Inr (m, target)))))"

section \<open>The click\<close>

definition redirect_event :: "redirect_cfg \<Rightarrow> env \<Rightarrow> time \<Rightarrow> request \<Rightarrow> url_mapping \<Rightarrow> string \<Rightarrow> click_event" where
  "redirect_event cfg env now r m target =
     (let clientIP = ClientIP (n_ip env) r (rc_TrustProxy cfg) in
      \<lparr>ev_At = now,
       ev_IPHash = (if rc_LogIP cfg then HashIP (e_sha256 env) (rc_salt cfg) clientIP else ''''),
       ev_Referer = TruncateReferer (r_Header r ''Referer''),
       ev_UAClass = ClassifyUserAgent (n_lower env) (r_Header r ''User-Agent''),
       ev_Country = (case rc_GeoIP cfg of
           None \<Rightarrow> ''''
         | Some geo \<Rightarrow> if clientIP \<noteq> '''' then (case n_ip env clientIP of None \<Rightarrow> '''' | Some ip \<Rightarrow> geo ip) else ''''),
       ev_DestinationURL = (if m_Destinations m \<noteq> [] then target else '''')\<rparr>)"

definition enqueueWebhook :: "redirect_cfg \<Rightarrow> string \<Rightarrow> url_mapping \<Rightarrow> click_event \<Rightarrow> dispatcher \<Rightarrow> dispatcher \<times> enqueue_result" where
  "enqueueWebhook cfg code m ev d =
     Enqueue \<lparr>wh_Code = code, wh_URL = m_WebhookURL m, wh_Secret = m_WebhookSecret m,
       wh_Payload = rc_marshal cfg code ev\<rparr> d"

text \<open>
  From the click event to the redirect. A failed \<^verbatim>\<open>RecordClick\<close> is logged and the redirect goes
  out without fan-out; a panic of the enqueue ends the handler with the 500 of \<^verbatim>\<open>Recover\<close>.
\<close>

definition redirect_commit :: "'s store_ops \<Rightarrow> redirect_cfg \<Rightarrow> env \<Rightarrow> time \<Rightarrow> request \<Rightarrow> url_mapping \<times> string
    \<Rightarrow> 's redirect_state \<Rightarrow> 's redirect_state \<times> page reply" where
  "redirect_commit ops cfg env now r mt st =
     (case mt of (m, target) \<Rightarrow>
       (let ev = redirect_event cfg env now r m target in
          case st_RecordClick ops (r_Code r) ev (rs_store st) of
            (s1, Some e) \<Rightarrow> (st\<lparr>rs_store := s1\<rparr>, Payload 302 (Found target))
          | (s1, None) \<Rightarrow>
              (let st1 = st\<lparr>rs_store := s1, rs_stream := map_option (Publish (r_Code r) ev) (rs_stream st)\<rparr> in
                 case rs_webhook st of
                   None \<Rightarrow> (st1, Payload 302 (Found target))
                 | Some d \<Rightarrow>
                     if m_WebhookURL m = '''' then (st1, Payload 302 (Found target))
                     else (case enqueueWebhook cfg (r_Code r) m ev d of
                       (d', SendPanic) \<Rightarrow> (st1\<lparr>rs_webhook := Some d'\<rparr>, Plain 500 ''internal server error'')
                     | (d', _) \<Rightarrow> (st1\<lparr>rs_webhook := Some d'\<rparr>, Payload 302 (Found target))))))"

definition redirect_ServeHTTP :: "'s store_ops \<Rightarrow> redirect_cfg \<Rightarrow> env \<Rightarrow> (nat \<Rightarrow> time) \<Rightarrow> int \<Rightarrow> request \<Rightarrow> form
    \<Rightarrow> 's redirect_state \<Rightarrow> 's redirect_state \<times> page reply" where
  "redirect_ServeHTTP ops cfg env clk draw r body st =
     (case redirect_check ops cfg env clk draw r body st of
        (st1, Inl reply) \<Rightarrow> (st1, reply)
      | (st1, Inr mt) \<Rightarrow> redirect_commit ops cfg env (clk 2) r mt st1)"

section \<open>What the decision means\<close>

text \<open>The specification of a request that may be redirected to \<open>target\<close>.\<close>

definition may_redirect :: "redirect_cfg \<Rightarrow> env \<Rightarrow> (nat \<Rightarrow> time) \<Rightarrow> int \<Rightarrow> request \<Rightarrow> form \<Rightarrow> dns_cache option
    \<Rightarrow> url_mapping \<Rightarrow> string \<Rightarrow> bool" where
  "may_redirect cfg env clk draw r body cache m target =
    (\<not> expired_at (clk 0) m
     \<and> (m_MaxClicks m \<le> 0 \<or> m_ClickCount m < m_MaxClicks m)
     \<and> (m_PasswordHash m = [] \<or> (r_Method r = ''POST'' \<and> (\<exists>pw. body = Some pw
           \<and> verifyPassword env pw (m_PasswordHash m) (m_PasswordSalt m))))
     \<and> target = redirect_target m draw
     \<and> (\<forall>u. n_parse env target = Some u \<longrightarrow>
           \<not> deny_contains (n_lower env) (rc_DenyList cfg) (u_Hostname u)
           \<and> snd (ValidateHost (net_env.truncate env) (clk 1) (u_Hostname u) cache) = None))"

lemma deny_contains_nil [simp]: "\<not> deny_contains ul None host"
  by (simp add: deny_contains_def)

lemma target_refused_iff: "\<not> snd (target_refused cfg env now target cache) \<longleftrightarrow>
    (\<forall>u. n_parse env target = Some u \<longrightarrow>
      \<not> deny_contains (n_lower env) (rc_DenyList cfg) (u_Hostname u)
      \<and> snd (ValidateHost (net_env.truncate env) now (u_Hostname u) cache) = None)"
  by (cases "rc_DenyList cfg")
    (auto simp: target_refused_def Let_def case_prod_unfold split: option.split)

lemma passwordOK_None: "passwordOK env r body m = None \<longleftrightarrow> r_Method r = ''POST'' \<and> (\<exists>pw. body = Some pw
    \<and> verifyPassword env pw (m_PasswordHash m) (m_PasswordSalt m))"
  by (auto simp: passwordOK_def split: option.split)

lemma passwordOK_pass [simp]: "r_Method r = ''POST'' \<Longrightarrow> verifyPassword env pw (m_PasswordHash m) (m_PasswordSalt m) \<Longrightarrow>
    passwordOK env r (Some pw) m = None"
  by (simp add: passwordOK_def)

lemma passwordOK_status: "passwordOK env r body m = Some reply \<Longrightarrow> status_of reply \<noteq> 302"
  by (auto simp: passwordOK_def renderPasswordForm_def split: if_splits option.splits)

text \<open>Uninterrupted calls keep the dispatcher free of panics.\<close>

definition hooks_ok :: "'s redirect_state \<Rightarrow> bool" where
  "hooks_ok st = (\<forall>d. rs_webhook st = Some d \<longrightarrow> hook_ok d)"

lemma Enqueue_ok: "hook_ok d \<Longrightarrow> Enqueue ev d = (d', x) \<Longrightarrow> hook_ok d' \<and> x \<noteq> SendPanic"
  by (auto simp: hook_ok_def Enqueue_def enqueue_load_def enqueue_send_def split: if_splits)

context url_store
begin

lemma redirect_check_store: "redirect_check ops cfg env clk draw r body st = (st', x) \<Longrightarrow>
    rs_store st' = rs_store st \<and> rs_stream st' = rs_stream st \<and> rs_webhook st' = rs_webhook st"
  by (auto simp: redirect_check_def Let_def split: if_splits sum.splits option.splits prod.splits bool.splits)

lemma redirect_check_Inr:
  assumes "valid (rs_store st)" and "redirect_check ops cfg env clk draw r body st = (st', x)"
  shows "x = Inr (m, target) \<longleftrightarrow> r_Code r \<noteq> '''' \<and> view (rs_store st) (r_Code r) = Some m
    \<and> may_redirect cfg env clk draw r body (rs_cache st) m target"
proof -
  have split: "(case y of (c, True) \<Rightarrow> A c | (c, False) \<Rightarrow> B c) = (if snd y then A (fst y) else B (fst y))" for y A B
    by (cases y) (auto split: bool.split)
  show ?thesis
    using assms(2) get_spec [OF assms(1), of "clk 0" "r_Code r"]
      target_refused_iff [of cfg env "clk 1" "redirect_target m draw" "rs_cache st"]
    by (auto simp: redirect_check_def split Let_def may_redirect_def passwordOK_None not_le not_less
        split: if_splits sum.splits option.splits)
qed

lemma redirect_check_Inl:
  assumes "redirect_check ops cfg env clk draw r body st = (st', Inl reply)"
  shows "status_of reply \<noteq> 302"
  using assms passwordOK_status
  by (auto simp: redirect_check_def Let_def split: if_splits sum.splits option.splits prod.splits bool.splits)

lemma redirect_commit_spec:
  assumes "valid (rs_store st)" and "hooks_ok st"
    and "redirect_commit ops cfg env now r (m, target) st = (st', reply)"
  shows "reply = Payload 302 (Found target) \<and> valid (rs_store st') \<and> hooks_ok st'
    \<and> view (rs_store st') = (case view (rs_store st) (r_Code r) of None \<Rightarrow> view (rs_store st)
        | Some m' \<Rightarrow> (view (rs_store st))(r_Code r \<mapsto> norm_mapping norm (click_mapping (redirect_event cfg env now r m target) m')))"
proof -
  let ?ev = "redirect_event cfg env now r m target"
  obtain s1 x where rc: "st_RecordClick ops (r_Code r) ?ev (rs_store st) = (s1, x)"
    by (cases "st_RecordClick ops (r_Code r) ?ev (rs_store st)")
  have s1: "valid s1" "view s1 = (case view (rs_store st) (r_Code r) of None \<Rightarrow> view (rs_store st)
        | Some m' \<Rightarrow> (view (rs_store st))(r_Code r \<mapsto> norm_mapping norm (click_mapping ?ev m')))"
    using click_view [OF assms(1), of "r_Code r" ?ev] click_valid [OF assms(1), of "r_Code r" ?ev] rc by simp_all
  have "reply = Payload 302 (Found target) \<and> rs_store st' = s1 \<and> hooks_ok st'"
  proof (cases x)
    case (Some e)
    then show ?thesis using assms(2,3) rc by (auto simp: redirect_commit_def Let_def hooks_ok_def)
  next
    case None
    show ?thesis
    proof (cases "rs_webhook st")
      case None
      then show ?thesis using assms(3) rc \<open>x = None\<close> by (auto simp: redirect_commit_def Let_def hooks_ok_def)
    next
      case (Some d)
      obtain d' y where e: "enqueueWebhook cfg (r_Code r) m ?ev d = (d', y)"
        by (cases "enqueueWebhook cfg (r_Code r) m ?ev d")
      have "hook_ok d'" "y \<noteq> SendPanic"
        using Enqueue_ok [of d _ d' y] assms(2) Some e by (auto simp: hooks_ok_def enqueueWebhook_def)
      then show ?thesis using assms(2,3) rc \<open>x = None\<close> Some e
        by (cases y) (auto simp: redirect_commit_def Let_def hooks_ok_def split: if_splits)
    qed
  qed
  then show ?thesis using s1 by simp
qed

lemma redirect_spec:
  assumes "valid (rs_store st)" and "hooks_ok st"
    and "redirect_ServeHTTP ops cfg env clk draw r body st = (st', reply)"
  shows "valid (rs_store st') \<and> hooks_ok st' \<and>
    (if r_Code r \<noteq> '''' \<and> (\<exists>m. view (rs_store st) (r_Code r) = Some m
          \<and> may_redirect cfg env clk draw r body (rs_cache st) m (redirect_target m draw))
     then let m = the (view (rs_store st) (r_Code r)); target = redirect_target m draw
       in reply = Payload 302 (Found target)
        \<and> view (rs_store st') = (view (rs_store st))(r_Code r \<mapsto> norm_mapping norm (click_mapping (redirect_event cfg env (clk 2) r m target) m))
     else status_of reply \<noteq> 302 \<and> rs_store st' = rs_store st \<and> rs_stream st' = rs_stream st
        \<and> rs_webhook st' = rs_webhook st)"
proof -
  obtain st1 x where c: "redirect_check ops cfg env clk draw r body st = (st1, x)"
    by (cases "redirect_check ops cfg env clk draw r body st")
  note fr = redirect_check_store [OF c]
  show ?thesis
  proof (cases x)
    case (Inl y)
    then have "\<not> (r_Code r \<noteq> '''' \<and> (\<exists>m. view (rs_store st) (r_Code r) = Some m
          \<and> may_redirect cfg env clk draw r body (rs_cache st) m (redirect_target m draw)))"
      using redirect_check_Inr [OF assms(1) c] by blast
    moreover have "st' = st1" "reply = y" using assms(3) c Inl by (simp_all add: redirect_ServeHTTP_def)
    moreover have "status_of y \<noteq> 302" using redirect_check_Inl c Inl by blast
    moreover have "hooks_ok st1" using assms(2) fr by (simp add: hooks_ok_def)
    ultimately show ?thesis using assms(1) fr by auto
  next
    case (Inr mt)
    obtain m target where mt: "mt = (m, target)" by (cases mt)
    have may: "r_Code r \<noteq> ''''" "view (rs_store st) (r_Code r) = Some m"
        "may_redirect cfg env clk draw r body (rs_cache st) m target"
      using redirect_check_Inr [OF assms(1) c, of m target] Inr mt by simp_all
    then have target: "target = redirect_target m draw" by (simp add: may_redirect_def)
    have cm: "redirect_commit ops cfg env (clk 2) r (m, target) st1 = (st', reply)"
      using assms(3) c Inr mt by (simp add: redirect_ServeHTTP_def)
    have v1: "valid (rs_store st1)" "hooks_ok st1" using assms(1,2) fr by (simp_all add: hooks_ok_def)
    have "view (rs_store st1) (r_Code r) = Some m" using fr may(2) by simp
    with redirect_commit_spec [OF v1 cm] have "reply = Payload 302 (Found target)" "valid (rs_store st')" "hooks_ok st'"
        "view (rs_store st') = (view (rs_store st1))(r_Code r \<mapsto> norm_mapping norm (click_mapping (redirect_event cfg env (clk 2) r m target) m))"
      by (simp_all del: fun_upd_apply)
    moreover have "view (rs_store st1) = view (rs_store st)" using fr by simp
    ultimately have "reply = Payload 302 (Found target)" "valid (rs_store st')" "hooks_ok st'"
        "view (rs_store st') = (view (rs_store st))(r_Code r \<mapsto> norm_mapping norm (click_mapping (redirect_event cfg env (clk 2) r m target) m))"
      by (simp_all only:)
    then show ?thesis using may target by (simp add: Let_def)
  qed
qed

end

end
