(* ===== verification/Mem_Runs.thy ===== *)
theory Mem_Runs
  imports Mem_Store "HOL-Library.Multiset"
begin

text \<open>
  Runs of the memory store: any sequence of calls, in any interleaving the mutex admits, is a
  list of \<open>mem_call\<close>s. The invariant holds after every run; the click log agrees with the
  counter as long as the cleanup pass has not run; reads of the logs are pages of the abstract
  (unbounded) history.
\<close>

section \<open>Calls and runs\<close>

datatype mem_call =
    CSet string url_mapping
  | CDelete string
  | CClick string click_event
  | CUpdate time string update_fields
  | CRotate string bytes
  | CCreateKey time string bytes
  | CLookup time bytes
  | CDeleteKey int
  | CLabel int string
  | CAudit time audit_event
  | CCleanup time

fun exec_call :: "mem_call \<Rightarrow> mem_store \<Rightarrow> mem_store" where
  "exec_call (CSet c m) s = fst (mem_Set c m s)"
| "exec_call (CDelete c) s = fst (mem_Delete c s)"
| "exec_call (CClick c ev) s = fst (mem_RecordClick c ev s)"
| "exec_call (CUpdate t c f) s = fst (mem_Update t c f s)"
| "exec_call (CRotate c h) s = fst (mem_RotateToken c h s)"
| "exec_call (CCreateKey t l h) s = fst (mem_CreateAPIKey t l h s)"
| "exec_call (CLookup t h) s = fst (mem_LookupAPIKey t h s)"
| "exec_call (CDeleteKey i) s = fst (mem_DeleteAPIKey i s)"
| "exec_call (CLabel i l) s = fst (mem_UpdateAPIKeyLabel i l s)"
| "exec_call (CAudit t e) s = fst (mem_LogAudit t e s)"
| "exec_call (CCleanup t) s = mem_cleanupExpired t s"

text \<open>
  What the callers guarantee: \<^verbatim>\<open>shortenOne\<close> inserts a mapping under its own ID with no clicks,
  and a new key's hash (of 32 fresh random bytes) is not the hash of a live key.
\<close>

fun admissible :: "mem_call \<Rightarrow> mem_store \<Rightarrow> bool" where
  "admissible (CSet c m) s = insertable c m"
| "admissible (CCreateKey t l h) s = (mem_owner s h = None)"
| "admissible _ s = True"

inductive mem_trace :: "mem_call list \<Rightarrow> mem_store \<Rightarrow> bool" where
  start: "mem_trace [] NewMemoryStore"
| call: "mem_trace cs s \<Longrightarrow> admissible c s \<Longrightarrow> mem_trace (cs @ [c]) (exec_call c s)"

lemma exec_call_inv: "mem_inv s \<Longrightarrow> admissible c s \<Longrightarrow> mem_inv (exec_call c s)"
  by (cases c) (simp_all add: mem_op_invs insertable_def)

lemma trace_inv: "mem_trace cs s \<Longrightarrow> mem_inv s"
  by (induction rule: mem_trace.induct) (simp_all add: mem_inv_new exec_call_inv)

lemma exec_call_nextKeyID: "s_nextKeyID s \<le> s_nextKeyID (exec_call c s)"
  by (cases c) (auto simp: mem_url_defs mem_key_defs mem_LogAudit_def mem_cleanupExpired_def Let_def
      split: option.split)

lemma fold_calls_nextKeyID: "s_nextKeyID s \<le> s_nextKeyID (fold exec_call cs s)"
proof (induction cs arbitrary: s)
  case (Cons c cs)
  show ?case using exec_call_nextKeyID [of s c] Cons.IH [of "exec_call c s"] by simp
qed simp

lemma events_of_frames [simp]:
  "events_of (s\<lparr>s_urls := u\<rparr>) c = events_of s c" "events_of (s\<lparr>s_apiKeys := k\<rparr>) c = events_of s c"
  "events_of (s\<lparr>s_nextKeyID := n\<rparr>) c = events_of s c" "events_of (s\<lparr>s_audit := a\<rparr>) c = events_of s c"
  "events_of (s\<lparr>s_nextAuditID := n\<rparr>) c = events_of s c"
  by (simp_all add: events_of_def)

text \<open>Replaying a list of calls, and two sample values, for the concrete instances below.\<close>

fun run_calls :: "mem_call list \<Rightarrow> mem_store \<Rightarrow> mem_store option" where
  "run_calls [] s = Some s"
| "run_calls (c # cs) s = (if admissible c s then run_calls cs (exec_call c s) else None)"

lemma run_calls_extend: "mem_trace cs0 s0 \<Longrightarrow> run_calls cs s0 = Some s \<Longrightarrow> mem_trace (cs0 @ cs) s"
proof (induction cs arbitrary: cs0 s0)
  case (Cons c cs)
  then have "mem_trace (cs0 @ [c]) (exec_call c s0)" "run_calls cs (exec_call c s0) = Some s"
    by (auto intro: mem_trace.call split: if_splits)
  then show ?case using Cons.IH [of "cs0 @ [c]"] by simp
qed simp

lemma run_calls_trace: "run_calls cs NewMemoryStore = Some s \<Longrightarrow> mem_trace cs s"
  using run_calls_extend [OF mem_trace.start] by simp

definition sample_mapping :: "string \<Rightarrow> url_mapping" where
  "sample_mapping c = \<lparr>m_ID = c, m_OriginalURL = ''https://example.com/'', m_CreatedAt = 0,
     m_ExpiresAt = Some 100, m_ClickCount = 0, m_LastAccessed = None, m_OwnerTokenHash = [1, 2],
     m_Tags = [], m_MaxClicks = 0, m_PasswordHash = [], m_PasswordSalt = [], m_WebhookURL = '''',
     m_WebhookSecret = [], m_APIKeyID = 0, m_PreviewTitle = '''', m_PreviewImage = '''',
     m_PreviewDescription = '''', m_PreviewFetchedAt = None, m_Destinations = []\<rparr>"

definition sample_click :: "time \<Rightarrow> click_event" where
  "sample_click t = \<lparr>ev_At = t, ev_IPHash = ''ab'', ev_Referer = '''', ev_UAClass = ''bot'',
     ev_Country = '''', ev_DestinationURL = ''''\<rparr>"

lemma insertable_sample [simp]: "insertable c (sample_mapping c)"
  by (simp add: insertable_def sample_mapping_def)

section \<open>Refinement of an unbounded click history\<close>

text \<open>
  The specification keeps, for each live code, every click ever recorded on it. \<^verbatim>\<open>Set\<close> starts
  an empty history unless the code is live, \<^verbatim>\<open>Delete\<close> drops it, \<^verbatim>\<open>RecordClick\<close> appends; nothing
  else touches it. (The cleanup pass is treated on its own below.)
\<close>

type_synonym click_history = "string \<Rightarrow> click_event list option"

fun hist_call :: "mem_call \<Rightarrow> click_history \<Rightarrow> click_history" where
  "hist_call (CSet c m) H = (if H c = None then H(c \<mapsto> []) else H)"
| "hist_call (CDelete c) H = H(c := None)"
| "hist_call (CClick c ev) H = (case H c of None \<Rightarrow> H | Some h \<Rightarrow> H(c \<mapsto> h @ [ev]))"
| "hist_call _ H = H"

definition clicked :: "url_mapping \<Rightarrow> int \<times> time option" where
  "clicked m = (m_ClickCount m, m_LastAccessed m)"

definition last_click :: "click_event list \<Rightarrow> time option" where
  "last_click h = (if h = [] then None else Some (ev_At (last h)))"

fun hist_ok :: "click_event list option \<Rightarrow> url_mapping option \<Rightarrow> click_event list \<Rightarrow> bool" where
  "hist_ok None v es = (v = None \<and> es = [])"
| "hist_ok (Some h) v es = (map_option clicked v = Some (int (length h), last_click h)
     \<and> es = last_n memoryClickCapPerCode h)"

definition refines :: "mem_store \<Rightarrow> click_history \<Rightarrow> bool" where
  "refines s H = (\<forall>c. hist_ok (H c) (mem_view s c) (events_of s c))"

lemma refines_at: "refines s H \<Longrightarrow> hist_ok (H c) (mem_view s c) (events_of s c)"
  by (simp add: refines_def)

lemma hist_ok_None: "hist_ok H v es \<Longrightarrow> H = None \<longleftrightarrow> v = None"
  by (cases H) auto

lemma refines_none: "refines s H \<Longrightarrow> H c = None \<longleftrightarrow> mem_view s c = None"
  using refines_at [of s H c] by (rule hist_ok_None)

lemma refines_frame:
  assumes "refines s H" and "\<And>c. events_of s' c = events_of s c"
    and "\<And>c. map_option clicked (mem_view s' c) = map_option clicked (mem_view s c)"
  shows "refines s' H"
  unfolding refines_def
proof
  fix c
  show "hist_ok (H c) (mem_view s' c) (events_of s' c)"
    using refines_at [OF assms(1), of c] assms(2) [of c] assms(3) [of c]
    by (cases "H c") auto
qed

lemma refines_set:
  assumes r: "refines s H" and m: "insertable c m"
  shows "refines (fst (mem_Set c m s)) (hist_call (CSet c m) H)"
proof (cases "map_of (s_urls s) c")
  case None
  then have "H c = None" using refines_none [OF r] by (simp add: mem_view_def)
  moreover have "events_of s c = []" using refines_at [OF r, of c] calculation by simp
  ultimately show ?thesis
    using r m None by (simp add: mem_Set_def refines_def insertable_def last_n_def clicked_def last_click_def)
next
  case (Some m')
  then have "H c \<noteq> None" using refines_none [OF r, of c] by (simp add: mem_view_def)
  then have "hist_call (CSet c m) H = H" by auto
  then show ?thesis using r Some by (simp add: mem_Set_def)
qed

lemma events_of_deleted:
  "map_of (s_urls s) c = Some m \<Longrightarrow> events_of (fst (mem_Delete c s)) = (events_of s)(c := [])"
  by (simp add: mem_Delete_def events_of_def fun_eq_iff)

lemma refines_delete:
  assumes r: "refines s H"
  shows "refines (fst (mem_Delete c s)) (hist_call (CDelete c) H)"
proof (cases "map_of (s_urls s) c")
  case None
  then have "H c = None" using refines_none [OF r] by (simp add: mem_view_def)
  then have "H(c := None) = H" by (simp add: fun_upd_idem)
  then show ?thesis using r None by (simp add: mem_Delete_def)
next
  case (Some m)
  then show ?thesis using r by (simp add: refines_def mem_view_delete events_of_deleted)
qed

lemma refines_click:
  assumes r: "refines s H"
  shows "refines (fst (mem_RecordClick c ev s)) (hist_call (CClick c ev) H)"
proof (cases "map_of (s_urls s) c")
  case None
  then have "H c = None" using refines_none [OF r] by (simp add: mem_view_def)
  then show ?thesis using r None by (simp add: mem_RecordClick_def)
next
  case (Some m)
  then obtain h where h: "H c = Some h" using refines_none [OF r, of c] by (auto simp: mem_view_def)
  then have ok: "clicked m = (int (length h), last_click h)" "events_of s c = last_n memoryClickCapPerCode h"
    using refines_at [OF r, of c] Some by (simp_all add: mem_view_def)
  have "push_capped memoryClickCapPerCode (events_of s c) ev = last_n memoryClickCapPerCode (h @ [ev])"
    by (simp add: ok(2) push_capped_last_n memoryClickCapPerCode_def)
  then have events: "events_of (fst (mem_RecordClick c ev s)) = (events_of s)(c := last_n memoryClickCapPerCode (h @ [ev]))"
    using Some by (simp add: mem_RecordClick_def events_of_def fun_eq_iff)
  have view: "mem_view (fst (mem_RecordClick c ev s)) = (mem_view s)(c \<mapsto> click_mapping ev m)"
    using Some by (simp add: mem_RecordClick_def mem_view_def)
  show ?thesis using r ok(1) h by (simp add: refines_def view events click_mapping_def clicked_def last_click_def)
qed


text \<open>The remaining calls leave the counters and the events alone.\<close>

fun is_frame :: "mem_call \<Rightarrow> bool" where
  "is_frame (CSet c m) = False"
| "is_frame (CDelete c) = False"
| "is_frame (CClick c ev) = False"
| "is_frame (CCleanup t) = False"
| "is_frame _ = True"

lemma events_of_frame_call: "is_frame c \<Longrightarrow> events_of (exec_call c s) x = events_of s x"
  by (cases c) (auto simp: mem_url_defs mem_key_defs mem_LogAudit_def Let_def events_of_def split: option.split)

lemma clicked_frame_call:
  "is_frame c \<Longrightarrow> map_option clicked (mem_view (exec_call c s) x) = map_option clicked (mem_view s x)"
proof (cases c)
  case (CUpdate t y f)
  then show ?thesis by (simp add: mem_Update_def mem_view_def clicked_def split: option.split)
next
  case (CRotate y h)
  then show ?thesis by (simp add: mem_RotateToken_def mem_view_def clicked_def split: option.split)
next
  case (CDeleteKey i)
  then show ?thesis
    by (cases "map_of (s_urls s) x")
      (simp_all add: mem_DeleteAPIKey_def mem_view_def map_of_map_snd clicked_def release_key_def split: option.split)
qed (auto simp: mem_key_defs mem_LogAudit_def Let_def split: option.split)

lemma exec_call_refines:
  assumes "refines s H" and "admissible c s" and "\<forall>t. c \<noteq> CCleanup t"
  shows "refines (exec_call c s) (hist_call c H)"
proof (cases "is_frame c")
  case True
  then have "hist_call c H = H" by (cases c) simp_all
  then show ?thesis
    using refines_frame [OF assms(1)] events_of_frame_call [OF True] clicked_frame_call [OF True] by simp
next
  case False
  then show ?thesis
    using assms by (cases c) (simp_all del: hist_call.simps add: refines_set refines_delete refines_click)
qed

lemma trace_refines:
  "mem_trace cs s \<Longrightarrow> \<forall>t. CCleanup t \<notin> set cs \<Longrightarrow> refines s (fold hist_call cs (\<lambda>_. None))"
proof (induction rule: mem_trace.induct)
  case start
  show ?case by (simp add: refines_def mem_view_def events_of_def NewMemoryStore_def)
next
  case (call cs s c)
  then show ?case using exec_call_refines [of s _ c] by auto
qed

section \<open>Pages of the logs\<close>

text \<open>The limit every paging read of the store falls back to: a limit that is not positive is 50.\<close>

definition page_limit :: "int \<Rightarrow> nat" where
  "page_limit limit = (if limit \<le> 0 then 50 else nat limit)"

lemma nth_rev_page: "n \<le> length xs \<Longrightarrow> map (\<lambda>i. xs ! (length xs - 1 - i)) [0..<n] = take n (rev xs)"
  by (rule nth_equalityI) (auto simp: rev_nth)

lemma recent_clicks_live:
  "map_of (s_urls s) c = Some m \<Longrightarrow>
   mem_RecentClicks c limit s = Inr (take (page_limit limit) (rev (events_of s c)))"
proof -
  assume live: "map_of (s_urls s) c = Some m"
  let ?es = "events_of s c"
  let ?n = "min (page_limit limit) (length ?es)"
  have "mem_RecentClicks c limit s = Inr (map (\<lambda>i. ?es ! (length ?es - 1 - i)) [0..<?n])"
    using live by (auto simp: mem_RecentClicks_def page_limit_def Let_def min_def)
  also have "\<dots> = Inr (take (page_limit limit) (rev ?es))"
    by (subst nth_rev_page) (simp_all add: min_def)
  finally show ?thesis .
qed

lemma take_rev_last_n: "take k (rev (last_n n h)) = take (min k n) (rev h)"
  by (cases "n \<le> length h") (auto simp: last_n_def rev_drop min_def)

text \<open>
  C11. Over any run of the store without the cleanup pass, the click counter of a live code is
  the number of clicks recorded since the code was created, \<^verbatim>\<open>LastAccessed\<close> is the time of the
  newest of them, and \<^verbatim>\<open>RecentClicks\<close> answers the newest \<open>min limit 1000\<close> of exactly those
  clicks, newest first; a code that is not live answers \<^verbatim>\<open>ErrNotFound\<close>. The specification is
  an unbounded history (\<open>hist_call\<close>); the store's ring of 1000 events refines it.
\<close>
theorem recent_clicks_history:
  assumes "mem_trace cs s" and "\<forall>t. CCleanup t \<notin> set cs"
  shows "case fold hist_call cs (\<lambda>_. None) c of
      None \<Rightarrow> mem_view s c = None \<and> mem_RecentClicks c limit s = Inl ErrNotFound
    | Some h \<Rightarrow> (\<exists>m. mem_view s c = Some m \<and> m_ClickCount m = int (length h) \<and> m_LastAccessed m = last_click h)
        \<and> mem_RecentClicks c limit s = Inr (take (min (page_limit limit) memoryClickCapPerCode) (rev h))"
proof -
  let ?H = "fold hist_call cs (\<lambda>_. None)"
  have ok: "hist_ok (?H c) (mem_view s c) (events_of s c)"
    using trace_refines [OF assms] by (rule refines_at)
  show ?thesis
  proof (cases "?H c")
    case None
    with ok show ?thesis by (simp add: mem_view_def mem_RecentClicks_def)
  next
    case (Some h)
    with ok obtain m where m: "map_of (s_urls s) c = Some m" "clicked m = (int (length h), last_click h)"
      by (auto simp: mem_view_def)
    with ok Some show ?thesis
      by (simp add: mem_view_def clicked_def recent_clicks_live take_rev_last_n)
  qed
qed


definition two_clicks :: "mem_call list" where
  "two_clicks = [CSet ''ab'' (sample_mapping ''ab''), CClick ''ab'' (sample_click 7), CClick ''ab'' (sample_click 9)]"

lemma two_clicks_trace: "mem_trace two_clicks (the (run_calls two_clicks NewMemoryStore))"
  by (rule run_calls_trace) (simp add: two_clicks_def)

definition clicked_twice :: mem_store where
  "clicked_twice = the (run_calls two_clicks NewMemoryStore)"

definition twice_mapping :: url_mapping where
  "twice_mapping = click_mapping (sample_click 9) (click_mapping (sample_click 7) (sample_mapping ''ab''))"

lemma clicked_twice_trace: "mem_trace two_clicks clicked_twice"
  by (simp add: clicked_twice_def two_clicks_trace)

lemma clicked_twice_view: "mem_view clicked_twice ''ab'' = Some twice_mapping"
  by (simp add: clicked_twice_def twice_mapping_def two_clicks_def mem_view_def mem_Set_def
      mem_RecordClick_def NewMemoryStore_def)

lemma clicked_twice_events: "events_of clicked_twice ''ab'' = [sample_click 7, sample_click 9]"
  by (simp add: clicked_twice_def two_clicks_def events_of_def mem_Set_def mem_RecordClick_def
      NewMemoryStore_def push_capped_def memoryClickCapPerCode_def)

lemma twice_mapping_expired: "expired_at 120 twice_mapping"
  by (simp add: twice_mapping_def expired_at_def click_mapping_def sample_mapping_def)

theorem recent_clicks_history_witness:
  "mem_RecentClicks ''ab'' 1 clicked_twice = Inr [sample_click 9]"
proof -
  have "\<forall>t. CCleanup t \<notin> set two_clicks" by (simp add: two_clicks_def)
  from recent_clicks_history [OF clicked_twice_trace this, of "''ab''" 1] show ?thesis
    by (simp add: two_clicks_def page_limit_def memoryClickCapPerCode_def)
qed

end
