(* ===== verification/Shorten.thy ===== *)
theory Shorten
  imports Auth Short_Code
begin

text \<open>
  Creating short URLs: \<^verbatim>\<open>shortenOne\<close> and the handler of \<^verbatim>\<open>POST /api/shorten\<close>
  (\<^verbatim>\<open>handlers/shorten.go\<close>). The stages of \<^verbatim>\<open>shortenOne\<close> are functions composed in the source's
  order by \<open>and_then\<close>; each early return is an \<open>Inl\<close>.
\<close>

section \<open>Configuration, randomness, errors\<close>

record shorten_cfg =
  h_baseURL :: string
  h_maxExpirationMinutes :: int
  h_denyList :: deny_list
  h_unfurler :: bool   \<comment> \<open>whether an unfurler is installed\<close>

text \<open>The outcomes of the random reads of one call, in the order they are drawn.\<close>

record draws =
  dr_salt :: "bytes option"
  dr_secret :: "bytes option"
  dr_codes :: "nat \<Rightarrow> bytes option list"
  dr_token :: "bytes option"

record item_error =
  i_Status :: int
  i_Code :: string
  i_Message :: string

definition fail_item :: "int \<Rightarrow> string \<Rightarrow> string \<Rightarrow> item_error + 'a" where
  "fail_item status code msg = Inl \<lparr>i_Status = status, i_Code = code, i_Message = msg\<rparr>"

definition and_then :: "'e + 'a \<Rightarrow> ('a \<Rightarrow> 'e + 'b) \<Rightarrow> 'e + 'b" where
  "and_then x f = (case x of Inl e \<Rightarrow> Inl e | Inr v \<Rightarrow> f v)"

lemma and_then_simps [simp]: "and_then (Inl e) f = Inl e" "and_then (Inr v) f = f v"
  by (simp_all add: and_then_def)

lemma and_then_Inr: "and_then x f = Inr y \<longleftrightarrow> (\<exists>v. x = Inr v \<and> f v = Inr y)"
  by (cases x) simp_all

section \<open>Messages\<close>

definition customCodeMessage :: "valid_err \<Rightarrow> string" where
  "customCodeMessage e =
     (case e of
        ErrInvalidCustomCode \<Rightarrow> ''Custom code must be 3-32 characters of letters, digits, '_' or '-'' @ [CHR 0x27]
      | ErrReservedCode \<Rightarrow> ''Custom code is reserved and cannot be used''
      | _ \<Rightarrow> ''Invalid custom code'')"

definition validationMessage :: "valid_err \<Rightarrow> string" where
  "validationMessage e =
     (case e of
        ErrURLTooLong \<Rightarrow> ''URL exceeds maximum length''
      | ErrInvalidScheme \<Rightarrow> ''URL must start with http:// or https://''
      | ErrUserInfo \<Rightarrow> ''URL must not contain user credentials''
      | ErrDeniedHost h \<Rightarrow> ''URL host is not permitted''
      | ErrPrivateAddress c \<Rightarrow> ''URL host points at a private or reserved network''
      | ErrInvalidHost \<Rightarrow> ''URL host could not be resolved''
      | _ \<Rightarrow> ''Invalid URL'')"

definition destinationsMessage :: "valid_err \<Rightarrow> string" where
  "destinationsMessage e =
     (case e of
        ErrInvalidDestination \<Rightarrow> ''destination URL or weight is invalid (weight must be 1-100)''
      | ErrTooManyDestinations \<Rightarrow> ''too many destinations (max 10)''
      | _ \<Rightarrow> validationMessage e)"

definition tagsMessage :: "valid_err \<Rightarrow> string" where
  "tagsMessage e =
     (case e of
        ErrInvalidTag \<Rightarrow> ''tag must be 1-32 characters after trimming''
      | ErrTooManyTags \<Rightarrow> ''too many tags (max 16)''
      | _ \<Rightarrow> ''invalid tags'')"

section \<open>The stages of shortenOne\<close>

text \<open>The custom code, or the empty string when the request asks for a random one.\<close>

definition stage_custom :: "'s store_ops \<Rightarrow> env \<Rightarrow> shorten_request \<Rightarrow> 's \<Rightarrow> item_error + string" where
  "stage_custom ops env req s =
     (if q_CustomCode req = '''' then Inr ''''
      else case ValidateCustomCode (n_lower env) (q_CustomCode req) of
        Some e \<Rightarrow> fail_item 400 ''invalid_custom_code'' (customCodeMessage e)
      | None \<Rightarrow>
          if st_Exists ops (q_CustomCode req) s
          then fail_item 409 ''code_conflict'' ''custom code is already in use''
          else Inr (q_CustomCode req))"

definition stage_url :: "shorten_cfg \<Rightarrow> env \<Rightarrow> shorten_request \<Rightarrow> item_error + unit" where
  "stage_url cfg env req =
     (case ValidateDestinationURL (net_env.truncate env) (h_denyList cfg) (q_URL req) of
        Some e \<Rightarrow> fail_item 400 ''invalid_url'' (validationMessage e)
      | None \<Rightarrow> Inr ())"

definition stage_expiration :: "shorten_cfg \<Rightarrow> shorten_request \<Rightarrow> item_error + int" where
  "stage_expiration cfg req =
     (if q_ExpirationMins req < 0
      then fail_item 400 ''invalid_expiration'' ''expiration_mins must be non-negative''
      else if q_ExpirationMins req > h_maxExpirationMinutes cfg then Inr (h_maxExpirationMinutes cfg)
      else Inr (q_ExpirationMins req))"

definition stage_tags :: "shorten_request \<Rightarrow> item_error + string list" where
  "stage_tags req =
     (case NormalizeTags (q_Tags req) of
        Inl e \<Rightarrow> fail_item 400 ''invalid_tags'' (tagsMessage e)
      | Inr tags \<Rightarrow> Inr tags)"

definition stage_max_clicks :: "shorten_request \<Rightarrow> item_error + unit" where
  "stage_max_clicks req =
     (if q_MaxClicks req < 0
      then fail_item 400 ''invalid_max_clicks'' ''max_clicks must be non-negative'' else Inr ())"

text \<open>Hash and salt; both empty when no password was given.\<close>

definition stage_password :: "env \<Rightarrow> draws \<Rightarrow> shorten_request \<Rightarrow> item_error + bytes \<times> bytes" where
  "stage_password env dr req =
     (if q_Password req = '''' then Inr ([], [])
      else if length (q_Password req) > 256 then fail_item 400 ''password_too_long'' ''password too long''
      else case hashPassword env (dr_salt dr) (q_Password req) of
        None \<Rightarrow> fail_item 500 ''internal'' ''Failed to hash password''
      | Some hs \<Rightarrow> Inr hs)"

definition stage_destinations :: "shorten_cfg \<Rightarrow> env \<Rightarrow> shorten_request \<Rightarrow> item_error + destination list" where
  "stage_destinations cfg env req =
     (case ValidateDestinations (net_env.truncate env) (h_denyList cfg) (q_Destinations req) of
        Inl e \<Rightarrow> fail_item 400 ''invalid_destinations'' (destinationsMessage e)
      | Inr ds \<Rightarrow> Inr ds)"

definition stage_webhook :: "shorten_cfg \<Rightarrow> env \<Rightarrow> draws \<Rightarrow> shorten_request \<Rightarrow> item_error + bytes" where
  "stage_webhook cfg env dr req =
     (if q_WebhookURL req = '''' then Inr []
      else case ValidateDestinationURL (net_env.truncate env) (h_denyList cfg) (q_WebhookURL req) of
        Some e \<Rightarrow> fail_item 400 ''invalid_webhook_url'' (''webhook_url: '' @ validationMessage e)
      | None \<Rightarrow>
          (case generateWebhookSecret (dr_secret dr) of
             None \<Rightarrow> fail_item 500 ''internal'' ''Failed to generate webhook secret''
           | Some secret \<Rightarrow> Inr secret))"

definition stage_code :: "'s store_ops \<Rightarrow> draws \<Rightarrow> string \<Rightarrow> 's \<Rightarrow> item_error + string" where
  "stage_code ops dr custom s =
     (if custom \<noteq> '''' then Inr custom
      else case GenerateShortCode ops (dr_codes dr) s of
        None \<Rightarrow> fail_item 500 ''internal'' ''Failed to generate short code''
      | Some c \<Rightarrow> Inr c)"

definition stage_token :: "env \<Rightarrow> draws \<Rightarrow> item_error + string \<times> bytes" where
  "stage_token env dr =
     (case generateOwnerToken env (dr_token dr) of
        None \<Rightarrow> fail_item 500 ''internal'' ''Failed to generate owner token''
      | Some th \<Rightarrow> Inr th)"

text \<open>\<^verbatim>\<open>time.Duration(mins) * time.Minute\<close> is a 64-bit product.\<close>

definition minutes :: "int \<Rightarrow> duration" where
  "minutes mins = wrap64 (mins * 60000000000)"

text \<open>
  The new mapping and the raw token. \<open>clk 0\<close> is the clock for the expiration, \<open>clk 1\<close> for
  \<^verbatim>\<open>CreatedAt\<close>; \<open>clk 2\<close> is left for the audit write.
\<close>

definition prepare :: "'s store_ops \<Rightarrow> shorten_cfg \<Rightarrow> env \<Rightarrow> draws \<Rightarrow> (nat \<Rightarrow> time) \<Rightarrow> shorten_request \<Rightarrow> int
    \<Rightarrow> 's \<Rightarrow> item_error + url_mapping \<times> string" where
  "prepare ops cfg env dr clk req apiKeyID s =
     and_then (stage_custom ops env req s) (\<lambda>custom.
     and_then (stage_url cfg env req) (\<lambda>_.
     and_then (stage_expiration cfg req) (\<lambda>mins.
     and_then (stage_tags req) (\<lambda>tags.
     and_then (stage_max_clicks req) (\<lambda>_.
     and_then (stage_password env dr req) (\<lambda>(pwHash, pwSalt).
     and_then (stage_destinations cfg env req) (\<lambda>dests.
     and_then (stage_webhook cfg env dr req) (\<lambda>secret.
     and_then (stage_code ops dr custom s) (\<lambda>code.
     and_then (stage_token env dr) (\<lambda>(token, hash).
       Inr (\<lparr>m_ID = code, m_OriginalURL = q_URL req, m_CreatedAt = clk 1,
              m_ExpiresAt = (if mins > 0 then Some (clk 0 + minutes mins) else None),
              m_ClickCount = 0, m_LastAccessed = None, m_OwnerTokenHash = hash, m_Tags = tags,
              m_MaxClicks = q_MaxClicks req, m_PasswordHash = pwHash, m_PasswordSalt = pwSalt,
              m_WebhookURL = q_WebhookURL req, m_WebhookSecret = secret, m_APIKeyID = apiKeyID,
              m_PreviewTitle = '''', m_PreviewImage = '''', m_PreviewDescription = '''',
              m_PreviewFetchedAt = None, m_Destinations = dests\<rparr>, token)))))))))))"

definition shorten_response_of :: "shorten_cfg \<Rightarrow> url_mapping \<Rightarrow> string \<Rightarrow> shorten_response" where
  "shorten_response_of cfg m token =
     \<lparr>p_ShortCode = m_ID m, p_ShortURL = h_baseURL cfg @ ''/'' @ m_ID m, p_OriginalURL = m_OriginalURL m,
       p_ExpiresAt = m_ExpiresAt m, p_AdminToken = token, p_Tags = m_Tags m,
       p_MaxClicks = m_MaxClicks m, p_HasPassword = (m_PasswordHash m \<noteq> []),
       p_WebhookURL = m_WebhookURL m,
       p_WebhookSecret = (if m_WebhookSecret m \<noteq> [] then encodeWebhookSecret (m_WebhookSecret m) else ''''),
       p_Destinations = m_Destinations m\<rparr>"

text \<open>The result carries the new store and the unfurl jobs \<^verbatim>\<open>(code, URL)\<close> that were enqueued.\<close>

definition shortenOne :: "'s store_ops \<Rightarrow> shorten_cfg \<Rightarrow> env \<Rightarrow> draws \<Rightarrow> (nat \<Rightarrow> time) \<Rightarrow> shorten_request \<Rightarrow> int
    \<Rightarrow> string \<Rightarrow> 's \<Rightarrow> 's \<times> (string \<times> string) list \<times> (item_error + shorten_response)" where
  "shortenOne ops cfg env dr clk req apiKeyID reqID s =
     (case prepare ops cfg env dr clk req apiKeyID s of
        Inl e \<Rightarrow> (s, [], Inl e)
      | Inr (m, token) \<Rightarrow>
          (case st_Set ops (m_ID m) m s of
             (s1, Some ErrCodeConflict) \<Rightarrow>
               (s1, [], fail_item 409 ''code_conflict'' ''custom code is already in use'')
           | (s1, Some _) \<Rightarrow> (s1, [], fail_item 500 ''internal'' ''Failed to store URL'')
           | (s1, None) \<Rightarrow>
               (let actor = (if apiKeyID > 0 then (AuditActorAPIKey, show_int apiKeyID) else (AuditActorAnon, ''''));
                    s2 = logAuditBestEffort ops (clk 2) (audit actor AuditActionURLCreate ''url'' (m_ID m) '''' reqID) s1
                in (s2, if h_unfurler cfg then [(m_ID m, q_URL req)] else [],
                    Inr (shorten_response_of cfg m token)))))"

section \<open>POST /api/shorten\<close>

definition detectAPIKey :: "'s store_ops \<Rightarrow> env \<Rightarrow> time \<Rightarrow> request \<Rightarrow> 's \<Rightarrow> 's \<times> int" where
  "detectAPIKey ops env now r s =
     (case extractBearer env r of
        None \<Rightarrow> (s, 0)
      | Some (token, hash) \<Rightarrow>
          (case st_LookupAPIKey ops now hash s of
             (s', Inr k) \<Rightarrow> (s', k_ID k)
           | (s', Inl e) \<Rightarrow> (s', 0)))"

text \<open>\<open>body\<close> is the decoded request body, \<open>None\<close> when decoding (or the size limit) failed.\<close>

definition shorten_ServeHTTP :: "'s store_ops \<Rightarrow> shorten_cfg \<Rightarrow> env \<Rightarrow> draws \<Rightarrow> (nat \<Rightarrow> time) \<Rightarrow> request
    \<Rightarrow> shorten_request option \<Rightarrow> 's \<Rightarrow> 's \<times> (string \<times> string) list \<times> shorten_response reply" where
  "shorten_ServeHTTP ops cfg env dr clk r body s =
     (if r_Method r \<noteq> ''POST'' then (s, [], WriteError 405 ''Only POST method is allowed'')
      else case detectAPIKey ops env (clk 3) r s of
        (s1, apiKeyID) \<Rightarrow>
          (case body of
             None \<Rightarrow> (s1, [], WriteError 400 ''Invalid request body'')
           | Some req \<Rightarrow>
               (case shortenOne ops cfg env dr clk req apiKeyID (r_RequestID r) s1 of
                  (s2, jobs, Inl e) \<Rightarrow> (s2, jobs, WriteError (i_Status e) (i_Message e))
                | (s2, jobs, Inr resp) \<Rightarrow> (s2, jobs, Payload 201 resp))))"

section \<open>A sample environment\<close>

text \<open>Concrete values at which the definitions and the properties are evaluated.\<close>

definition sample_env :: env where
  "sample_env = \<lparr>n_parse = (\<lambda>u. Some \<lparr>u_Scheme = ''https'', u_HasUser = False, u_Hostname = ''example.com''\<rparr>),
     n_ip = (\<lambda>h. None), n_dns = (\<lambda>h. Some [[93, 184, 216, 34]]), n_lower = id,
     e_sha256 = (\<lambda>s. [of_nat (length s), 7]), e_pbkdf2 = (\<lambda>p salt. Some [of_nat (length p)])\<rparr>"

definition sample_cfg :: shorten_cfg where
  "sample_cfg = \<lparr>h_baseURL = ''https://s.example'', h_maxExpirationMinutes = 60, h_denyList = None, h_unfurler = False\<rparr>"

definition sample_draws :: draws where
  "sample_draws = \<lparr>dr_salt = Some [5], dr_secret = Some [6, 6], dr_codes = (\<lambda>k. [Some [0, 1, 2, 3, 4, 5]]),
     dr_token = Some [1, 2, 3]\<rparr>"

definition sample_req :: "string \<Rightarrow> shorten_request" where
  "sample_req c = \<lparr>q_URL = ''https://example.com/a'', q_ExpirationMins = 90, q_CustomCode = c, q_Tags = [''x''],
     q_MaxClicks = 2, q_Password = '''', q_WebhookURL = '''', q_Destinations = []\<rparr>"

definition sample_shorten :: "string \<Rightarrow> mem_store \<Rightarrow> mem_store \<times> (string \<times> string) list \<times> (item_error + shorten_response)" where
  "sample_shorten c s = shortenOne mem_ops sample_cfg sample_env sample_draws (\<lambda>i. 1000) (sample_req c) 0 ''r1'' s"

definition promo_store :: mem_store where
  "promo_store = fst (sample_shorten ''promo'' NewMemoryStore)"

definition promo_response :: shorten_response where
  "promo_response = \<lparr>p_ShortCode = ''promo'', p_ShortURL = ''https://s.example/promo'', p_OriginalURL = ''https://example.com/a'',
     p_ExpiresAt = Some 3600000001000, p_AdminToken = ''AQID'', p_Tags = [''x''], p_MaxClicks = 2,
     p_HasPassword = False, p_WebhookURL = '''', p_WebhookSecret = '''', p_Destinations = []\<rparr>"

lemma promo_result: "snd (sample_shorten ''promo'' NewMemoryStore) = ([], Inr promo_response)"
  by code_simp

lemma promo_run: "shortenOne mem_ops sample_cfg sample_env sample_draws (\<lambda>i. 1000) (sample_req ''promo'') 0 ''r1''
    NewMemoryStore = (promo_store, [], Inr promo_response)"
  using promo_result by (simp add: promo_store_def sample_shorten_def prod_eq_iff)

lemma promo_view: "map_option m_OwnerTokenHash (mem_view promo_store ''promo'') = Some [4, 7]"
  by code_simp

end
