(* ===== verification/Redirect_Props.thy ===== *)
theory Redirect_Props
  imports Redirect Mem_Runs Shorten
begin

text \<open>
  What the redirect guarantees on the memory backend: exactly the requests that pass every check
  are redirected and counted; the click cap holds for requests that run one after the other, and
  fails for requests that interleave.
\<close>

section \<open>One request\<close>

text \<open>
  C6. A request is answered with a 302 exactly if its code is live, unexpired, under its click
  cap, its password (if any) was posted correctly, and the chosen destination is neither denied
  nor resolving to a reserved address at that moment; the 302 then names that destination and
  the click is recorded, once, on this code only. Every other answer leaves store, stream and
  webhook queue as they were.
\<close>
theorem redirect_exact:
  assumes "mem_inv (rs_store st)" and "hooks_ok st"
    and "redirect_ServeHTTP mem_ops cfg env clk draw r body st = (st', reply)"
  shows "if r_Code r \<noteq> '''' \<and> (\<exists>m. mem_view (rs_store st) (r_Code r) = Some m
          \<and> may_redirect cfg env clk draw r body (rs_cache st) m (redirect_target m draw))
     then let m = the (mem_view (rs_store st) (r_Code r)); target = redirect_target m draw
       in reply = Payload 302 (Found target)
        \<and> mem_view (rs_store st') = (mem_view (rs_store st))(r_Code r \<mapsto> click_mapping (redirect_event cfg env (clk 2) r m target) m)
     else status_of reply \<noteq> 302 \<and> rs_store st' = rs_store st \<and> rs_stream st' = rs_stream st
        \<and> rs_webhook st' = rs_webhook st"
  using mem.redirect_spec [OF assms] by blast

definition sample_redirect_cfg :: redirect_cfg where
  "sample_redirect_cfg = \<lparr>rc_DenyList = Some {''bad.example''}, rc_TrustProxy = False, rc_LogIP = False,
     rc_GeoIP = None, rc_salt = '''', rc_marshal = (\<lambda>c ev. [])\<rparr>"

definition get_request :: "string \<Rightarrow> request" where
  "get_request c = \<lparr>r_Method = ''GET'', r_Code = c, r_Header = (\<lambda>h. ''''), r_Query = (\<lambda>q. ''''),
     r_RemoteAddr = ''192.0.2.1:80'', r_RequestID = ''r3''\<rparr>"

definition sample_state :: "mem_store \<Rightarrow> mem_store redirect_state" where
  "sample_state s = \<lparr>rs_store = s, rs_cache = Some (NewDNSCache 0 0), rs_stream = Some NewClickStream,
     rs_webhook = Some (NewWebhookDispatcher 2)\<rparr>"

lemma sample_hooks_ok [simp]: "hooks_ok (sample_state s)"
  by (simp add: hooks_ok_def sample_state_def hook_ok_def NewWebhookDispatcher_def)

definition live_mapping :: "string \<Rightarrow> url_mapping" where
  "live_mapping c = (sample_mapping c)\<lparr>m_MaxClicks := 1\<rparr>"

definition live_store :: mem_store where
  "live_store = fst (mem_Set ''ab'' (live_mapping ''ab'') NewMemoryStore)"

lemma live_store_inv: "mem_inv live_store"
  unfolding live_store_def
  by (rule mem_Set_inv [OF mem_inv_new]) (simp add: live_mapping_def sample_mapping_def)

lemma live_store_view: "mem_view live_store ''ab'' = Some (live_mapping ''ab'')"
  by (simp add: live_store_def mem_Set_def NewMemoryStore_def mem_view_def)

lemma live_check: "snd (redirect_check mem_ops sample_redirect_cfg sample_env (\<lambda>i. 50) 0 (get_request ''ab'') None (sample_state live_store))
    = Inr (live_mapping ''ab'', ''https://example.com/'')"
  by code_simp

theorem redirect_exact_witness:
  "snd (redirect_ServeHTTP mem_ops sample_redirect_cfg sample_env (\<lambda>i. 50) 0 (get_request ''ab'') None (sample_state live_store))
    = Payload 302 (Found ''https://example.com/'')"
proof -
  let ?f = "redirect_ServeHTTP mem_ops sample_redirect_cfg sample_env (\<lambda>i. 50) 0 (get_request ''ab'') None (sample_state live_store)"
  obtain st' reply where f: "?f = (st', reply)" by (cases ?f)
  obtain st1 where "redirect_check mem_ops sample_redirect_cfg sample_env (\<lambda>i. 50) 0 (get_request ''ab'') None (sample_state live_store)
      = (st1, Inr (live_mapping ''ab'', ''https://example.com/''))"
    using live_check by (metis prod.collapse)
  moreover have inv: "mem_inv (rs_store (sample_state live_store))" by (simp add: sample_state_def live_store_inv)
  ultimately have "may_redirect sample_redirect_cfg sample_env (\<lambda>i. 50) 0 (get_request ''ab'') None
      (rs_cache (sample_state live_store)) (live_mapping ''ab'') ''https://example.com/''"
    using mem.redirect_check_Inr by blast
  moreover from this have "redirect_target (live_mapping ''ab'') 0 = ''https://example.com/''"
    by (simp add: may_redirect_def)
  ultimately show ?thesis
    using redirect_exact [OF inv sample_hooks_ok f] f live_store_view
    by (simp add: get_request_def sample_state_def Let_def)
qed

section \<open>The click cap\<close>

text \<open>Requests one after the other: the final state, and how many got a 302 for code \<open>c\<close>.\<close>

fun serve_all :: "redirect_cfg \<Rightarrow> env \<Rightarrow> string \<Rightarrow> ((nat \<Rightarrow> time) \<times> int \<times> request \<times> form) list
    \<Rightarrow> mem_store redirect_state \<Rightarrow> mem_store redirect_state \<times> nat" where
  "serve_all cfg env c [] st = (st, 0)"
| "serve_all cfg env c ((clk, draw, r, body) # qs) st =
     (case redirect_ServeHTTP mem_ops cfg env clk draw r body st of
        (st', reply) \<Rightarrow> (case serve_all cfg env c qs st' of
           (st'', n) \<Rightarrow> (st'', (if r_Code r = c \<and> status_of reply = 302 then 1 else 0) + n)))"

lemma serve_one:
  assumes "mem_inv (rs_store st)" and "hooks_ok st" and "mem_view (rs_store st) c = Some m"
    and "redirect_ServeHTTP mem_ops cfg env clk draw r body st = (st', reply)"
  shows "mem_inv (rs_store st') \<and> hooks_ok st'
    \<and> (if r_Code r = c \<and> status_of reply = 302
       then (m_MaxClicks m \<le> 0 \<or> m_ClickCount m < m_MaxClicks m)
         \<and> (\<exists>ev. mem_view (rs_store st') c = Some (click_mapping ev m))
       else mem_view (rs_store st') c = Some m)"
  using mem.redirect_spec [OF assms(1,2,4)] assms(3)
  by (auto simp: Let_def may_redirect_def split: if_splits)

text \<open>
  C24. For requests that run one after the other the click cap is exact: from any state, over any
  sequence of requests (to any codes), a code with cap \<open>n > 0\<close> and \<open>k \<le> n\<close> clicks is redirected
  at most \<open>n - k\<close> more times, and its counter grows by exactly the number of its redirects.
\<close>
theorem click_cap_sequential:
  assumes "mem_inv (rs_store st)" and "hooks_ok st" and "mem_view (rs_store st) c = Some m"
    and "0 < m_MaxClicks m" and "m_ClickCount m \<le> m_MaxClicks m"
    and "serve_all cfg env c qs st = (st', n)"
  shows "int n \<le> m_MaxClicks m - m_ClickCount m
    \<and> (\<exists>m'. mem_view (rs_store st') c = Some m' \<and> m_ClickCount m' = m_ClickCount m + int n
        \<and> m_MaxClicks m' = m_MaxClicks m)"
  using assms
proof (induction qs arbitrary: st m n)
  case Nil
  then show ?case by simp
next
  case (Cons q qs)
  obtain clk draw r body where q: "q = (clk, draw, r, body)" by (cases q)
  obtain st1 reply where h: "redirect_ServeHTTP mem_ops cfg env clk draw r body st = (st1, reply)"
    by (cases "redirect_ServeHTTP mem_ops cfg env clk draw r body st")
  obtain k where k: "serve_all cfg env c qs st1 = (st', k)"
      "n = (if r_Code r = c \<and> status_of reply = 302 then 1 else 0) + k"
    using Cons.prems(6) by (auto simp: q h split: prod.splits)
  note one = serve_one [OF Cons.prems(1-3) h]
  show ?case
  proof (cases "r_Code r = c \<and> status_of reply = 302")
    case True
    then obtain ev where ev: "mem_view (rs_store st1) c = Some (click_mapping ev m)" "m_ClickCount m < m_MaxClicks m"
      using one Cons.prems(4) by auto
    from Cons.IH [OF _ _ ev(1) _ _ k(1)] show ?thesis using True one ev Cons.prems(4) k(2) by auto
  next
    case False
    then have "mem_view (rs_store st1) c = Some m" using one by simp
    from Cons.IH [OF _ _ this _ _ k(1)] show ?thesis using False one Cons.prems(4,5) k(2) by auto
  qed
qed

theorem click_cap_sequential_witness:
  "snd (serve_all sample_redirect_cfg sample_env ''ab'' (replicate 3 (\<lambda>i. 50, 0, get_request ''ab'', None)) (sample_state live_store)) \<le> 1"
proof -
  obtain st' n where s: "serve_all sample_redirect_cfg sample_env ''ab'' (replicate 3 (\<lambda>i. 50, 0, get_request ''ab'', None))
      (sample_state live_store) = (st', n)" by fastforce
  have "int n \<le> 1"
    using click_cap_sequential [OF _ _ _ _ _ s, of "live_mapping ''ab''"] live_store_inv live_store_view
    by (simp add: sample_state_def live_mapping_def sample_mapping_def hooks_ok_def hook_ok_def NewWebhookDispatcher_def)
  then show ?thesis using s by simp
qed

text \<open>
  Interleaved, the cap fails: two requests that both pass their checks before either records
  its click are both redirected, and a code with one click left ends one click over its cap.
\<close>
theorem click_cap_race:
  assumes "mem_inv (rs_store st)" and "hooks_ok st" and "mem_view (rs_store st) c = Some m"
    and "0 < m_MaxClicks m" and "m_ClickCount m = m_MaxClicks m - 1"
    and "r_Code r1 = c" and "r_Code r2 = c"
    and "redirect_check mem_ops cfg env clk1 draw1 r1 body1 st = (st1, Inr (m1, t1))"
    and "redirect_check mem_ops cfg env clk2 draw2 r2 body2 st1 = (st2, Inr (m2, t2))"
    and "redirect_commit mem_ops cfg env (clk1 2) r1 (m1, t1) st2 = (st3, reply1)"
    and "redirect_commit mem_ops cfg env (clk2 2) r2 (m2, t2) st3 = (st4, reply2)"
  shows "reply1 = Payload 302 (Found t1) \<and> reply2 = Payload 302 (Found t2)
    \<and> (\<exists>m'. mem_view (rs_store st4) c = Some m' \<and> m_ClickCount m' = m_MaxClicks m' + 1)"
proof -
  have f1: "rs_store st1 = rs_store st" "rs_webhook st1 = rs_webhook st"
    using mem.redirect_check_store [OF assms(8)] by simp_all
  have f2: "rs_store st2 = rs_store st" "rs_webhook st2 = rs_webhook st"
    using mem.redirect_check_store [OF assms(9)] f1 by simp_all
  have i2: "mem_inv (rs_store st2)" "hooks_ok st2" using assms(1,2) f2 by (simp_all add: hooks_ok_def)
  note c1 = mem.redirect_commit_spec [OF i2 assms(10)]
  then have i3: "mem_inv (rs_store st3)" "hooks_ok st3" by simp_all
  have v3: "mem_view (rs_store st3) c = Some (click_mapping (redirect_event cfg env (clk1 2) r1 m1 t1) m)"
    using c1 assms(3,6) f2 by simp
  note c2 = mem.redirect_commit_spec [OF i3 assms(11)]
  have "mem_view (rs_store st4) c = Some (click_mapping (redirect_event cfg env (clk2 2) r2 m2 t2)
      (click_mapping (redirect_event cfg env (clk1 2) r1 m1 t1) m))"
    using c2 v3 assms(7) by simp
  then show ?thesis using c1 c2 assms(5) by simp
qed

theorem click_cap_race_witness:
  "\<exists>st m'. mem_view (rs_store (st :: mem_store redirect_state)) ''ab'' = Some m' \<and> m_ClickCount m' = m_MaxClicks m' + 1"
proof -
  let ?chk = "redirect_check mem_ops sample_redirect_cfg sample_env (\<lambda>i. 50) 0 (get_request ''ab'') None"
  let ?mt = "(live_mapping ''ab'', ''https://example.com/'')"
  let ?st = "sample_state live_store"
  have c1: "?chk ?st = (fst (?chk ?st), Inr ?mt)" using live_check by (metis prod.collapse)
  have "snd (?chk (fst (?chk ?st))) = Inr ?mt" by code_simp
  then have c2: "?chk (fst (?chk ?st)) = (fst (?chk (fst (?chk ?st))), Inr ?mt)" by (metis prod.collapse)
  let ?com = "redirect_commit mem_ops sample_redirect_cfg sample_env 50 (get_request ''ab'') ?mt"
  obtain st3 rep1 where k1: "?com (fst (?chk (fst (?chk ?st)))) = (st3, rep1)" by fastforce
  obtain st4 rep2 where k2: "?com st3 = (st4, rep2)" by fastforce
  have "mem_inv (rs_store ?st)" "mem_view (rs_store ?st) ''ab'' = Some (live_mapping ''ab'')"
    by (simp_all add: sample_state_def live_store_inv live_store_view)
  from click_cap_race [OF this(1) sample_hooks_ok this(2) _ _ _ _ c1 c2 k1 k2] show ?thesis
    by (auto simp: live_mapping_def sample_mapping_def get_request_def)
qed

text \<open>
  A code that reached its cap stays: without an expiration no cleanup pass ever removes its
  mapping, so the code answers 410 and cannot be claimed again.
\<close>
theorem capped_code_stays:
  assumes "mem_inv s" and "mem_view s c = Some m" and "m_ExpiresAt m = None"
    and "0 < m_MaxClicks m" and "m_MaxClicks m \<le> m_ClickCount m" and "r_Code r = c" and "c \<noteq> ''''"
  shows "mem_view (mem_cleanupExpired t s) c = Some m
    \<and> snd (mem_Set c m' (mem_cleanupExpired t s)) = Some ErrCodeConflict
    \<and> snd (redirect_ServeHTTP mem_ops cfg env clk draw r body (st\<lparr>rs_store := mem_cleanupExpired t s\<rparr>))
        = Plain 410 ''This URL has reached its click limit''"
proof -
  have "distinct_keys (s_urls s)" using assms(1) by (simp add: mem_inv_def urls_inv_def)
  moreover have "\<not> expired_at t m" using assms(3) by (simp add: expired_at_def)
  ultimately have v: "map_of (s_urls (mem_cleanupExpired t s)) c = Some m"
    using assms(2) by (simp add: mem_cleanupExpired_def mem_view_def
        map_of_filter_snd [where P = "\<lambda>u. \<not> expired_at t u"])
  then have "st_Get mem_ops (clk 0) c (mem_cleanupExpired t s) = Inr m"
    using assms(3) by (simp add: mem_Get_def expired_at_def)
  then show ?thesis
    using v assms(4-7) by (simp add: mem_view_def mem_Set_def redirect_ServeHTTP_def redirect_check_def)
qed

theorem capped_code_stays_witness:
  "mem_view (mem_cleanupExpired 10 (fst (mem_Set ''ab'' ((live_mapping ''ab'')\<lparr>m_ExpiresAt := None, m_ClickCount := 1\<rparr>) NewMemoryStore))) ''ab''
    \<noteq> None"
proof -
  let ?m = "(live_mapping ''ab'')\<lparr>m_ExpiresAt := None, m_ClickCount := 1\<rparr>"
  let ?s = "fst (mem_Set ''ab'' ?m NewMemoryStore)"
  have "mem_inv ?s" by (rule mem_Set_inv [OF mem_inv_new]) (simp add: live_mapping_def sample_mapping_def)
  moreover have "mem_view ?s ''ab'' = Some ?m" by (simp add: mem_Set_def NewMemoryStore_def mem_view_def)
  ultimately show ?thesis
    using capped_code_stays [of ?s "''ab''" ?m "get_request ''ab''" 10]
    by (simp add: live_mapping_def sample_mapping_def get_request_def)
qed

end
