(* ===== verification/Shorten_Props.thy ===== *)
theory Shorten_Props
  imports Shorten Mem_Runs
begin

text \<open>
  What \<^verbatim>\<open>shortenOne\<close> guarantees, proved over the contract of the store and stated for the memory
  backend: a rejected request changes nothing, an accepted one adds exactly one mapping under a
  free code, and the token it returns is a credential for that mapping.
\<close>

section \<open>The mapping a request leads to\<close>

lemma ValidateCustomCode_None: "ValidateCustomCode ul c = None \<longleftrightarrow>
    ToLower ul c \<notin> set reservedCodes \<and> customCodeRegex c"
  by (simp add: ValidateCustomCode_def)

lemma fail_item_Inr [simp]: "fail_item n c msg \<noteq> Inr x" "Inr x \<noteq> fail_item n c msg"
  by (simp_all add: fail_item_def)

text \<open>What each stage lets through.\<close>

lemma stage_custom_Inr: "stage_custom ops env req s = Inr c \<longleftrightarrow> c = q_CustomCode req \<and>
    (c \<noteq> '''' \<longrightarrow> ValidateCustomCode (n_lower env) c = None \<and> \<not> st_Exists ops c s)"
  by (auto simp: stage_custom_def split: option.split)

lemma stage_url_Inr: "stage_url cfg env req = Inr u \<longleftrightarrow>
    ValidateDestinationURL (net_env.truncate env) (h_denyList cfg) (q_URL req) = None"
  by (simp add: stage_url_def split: option.split)

lemma stage_expiration_Inr: "stage_expiration cfg req = Inr n \<longleftrightarrow>
    0 \<le> q_ExpirationMins req \<and> n = min (h_maxExpirationMinutes cfg) (q_ExpirationMins req)"
  by (auto simp: stage_expiration_def)

lemma stage_tags_Inr: "stage_tags req = Inr ts \<longleftrightarrow> NormalizeTags (q_Tags req) = Inr ts"
  by (simp add: stage_tags_def split: sum.split)

lemma stage_max_clicks_Inr: "stage_max_clicks req = Inr u \<longleftrightarrow> 0 \<le> q_MaxClicks req"
  by (simp add: stage_max_clicks_def)

lemma stage_password_Inr: "stage_password env dr req = Inr (h, salt) \<longleftrightarrow>
    (if q_Password req = [] then h = [] \<and> salt = []
     else length (q_Password req) \<le> 256 \<and> dr_salt dr = Some salt \<and> e_pbkdf2 env (q_Password req) salt = Some h)"
  by (auto simp: stage_password_def hashPassword_def split: option.split)

lemma stage_destinations_Inr: "stage_destinations cfg env req = Inr ds \<longleftrightarrow>
    ValidateDestinations (net_env.truncate env) (h_denyList cfg) (q_Destinations req) = Inr ds"
  by (simp add: stage_destinations_def split: sum.split)

lemma stage_webhook_Inr: "stage_webhook cfg env dr req = Inr sec \<longleftrightarrow>
    (q_WebhookURL req = '''' \<and> sec = []) \<or>
    (q_WebhookURL req \<noteq> '''' \<and> ValidateDestinationURL (net_env.truncate env) (h_denyList cfg) (q_WebhookURL req) = None
      \<and> dr_secret dr = Some sec)"
  by (auto simp: stage_webhook_def generateWebhookSecret_def split: option.split)

lemma stage_code_Inr: "stage_code ops dr custom s = Inr c \<longleftrightarrow>
    (if custom = '''' then GenerateShortCode ops (dr_codes dr) s = Some c else c = custom)"
  by (auto simp: stage_code_def split: option.split)

lemma stage_token_Inr: "stage_token env dr = Inr (tok, h) \<longleftrightarrow>
    (\<exists>b. dr_token dr = Some b \<and> tok = RawURLEncode b \<and> h = e_sha256 env tok)"
  by (auto simp: stage_token_def generateOwnerToken_def Let_def split: option.split)

lemmas stage_Inr = stage_custom_Inr stage_url_Inr stage_expiration_Inr stage_tags_Inr stage_max_clicks_Inr
  stage_destinations_Inr stage_webhook_Inr stage_code_Inr stage_token_Inr

lemma stage_Inl:
  "stage_url cfg env req = Inl e \<Longrightarrow> i_Status e = 400 \<or> i_Status e = 500"
  "stage_expiration cfg req = Inl e \<Longrightarrow> i_Status e = 400 \<or> i_Status e = 500"
  "stage_tags req = Inl e \<Longrightarrow> i_Status e = 400 \<or> i_Status e = 500"
  "stage_max_clicks req = Inl e \<Longrightarrow> i_Status e = 400 \<or> i_Status e = 500"
  "stage_password env dr req = Inl e \<Longrightarrow> i_Status e = 400 \<or> i_Status e = 500"
  "stage_destinations cfg env req = Inl e \<Longrightarrow> i_Status e = 400 \<or> i_Status e = 500"
  "stage_webhook cfg env dr req = Inl e \<Longrightarrow> i_Status e = 400 \<or> i_Status e = 500"
  "stage_code ops dr custom s = Inl e \<Longrightarrow> i_Status e = 400 \<or> i_Status e = 500"
  "stage_token env dr = Inl e \<Longrightarrow> i_Status e = 400 \<or> i_Status e = 500"
  by (auto simp: stage_url_def stage_expiration_def stage_tags_def stage_max_clicks_def stage_password_def
      stage_destinations_def stage_webhook_def stage_code_def stage_token_def fail_item_def
      split: option.splits if_splits sum.splits)

lemma and_then_Inl: "and_then x f = Inl e \<longleftrightarrow> x = Inl e \<or> (\<exists>v. x = Inr v \<and> f v = Inl e)"
  by (cases x) simp_all

lemma prepare_Inl: "prepare ops cfg env dr clk req key s = Inl e \<Longrightarrow>
    stage_custom ops env req s = Inl e \<or> i_Status e = 400 \<or> i_Status e = 500"
  by (auto simp: prepare_def and_then_Inl split: prod.splits dest: stage_Inl)

text \<open>The specification of the mapping \<open>m\<close> a request creates under the token \<open>tok\<close>.\<close>

definition created_from ::
  "shorten_cfg \<Rightarrow> env \<Rightarrow> draws \<Rightarrow> (nat \<Rightarrow> time) \<Rightarrow> shorten_request \<Rightarrow> int \<Rightarrow> url_mapping \<Rightarrow> string \<Rightarrow> bool" where
  "created_from cfg env dr clk req key m tok =
    (insertable (m_ID m) m \<and> m_OriginalURL m = q_URL req \<and> m_CreatedAt m = clk 1
     \<and> ValidateDestinationURL (net_env.truncate env) (h_denyList cfg) (q_URL req) = None
     \<and> 0 \<le> q_ExpirationMins req
     \<and> m_ExpiresAt m = (let mins = min (h_maxExpirationMinutes cfg) (q_ExpirationMins req) in
         if mins > 0 then Some (clk 0 + minutes mins) else None)
     \<and> NormalizeTags (q_Tags req) = Inr (m_Tags m)
     \<and> 0 \<le> q_MaxClicks req \<and> m_MaxClicks m = q_MaxClicks req
     \<and> ValidateDestinations (net_env.truncate env) (h_denyList cfg) (q_Destinations req) = Inr (m_Destinations m)
     \<and> m_WebhookURL m = q_WebhookURL req
     \<and> (q_WebhookURL req \<noteq> '''' \<longrightarrow>
         ValidateDestinationURL (net_env.truncate env) (h_denyList cfg) (q_WebhookURL req) = None)
     \<and> (if q_WebhookURL req = [] then m_WebhookSecret m = [] else dr_secret dr = Some (m_WebhookSecret m))
     \<and> (if q_Password req = [] then m_PasswordHash m = [] \<and> m_PasswordSalt m = []
        else length (q_Password req) \<le> 256 \<and> dr_salt dr = Some (m_PasswordSalt m)
          \<and> e_pbkdf2 env (q_Password req) (m_PasswordSalt m) = Some (m_PasswordHash m))
     \<and> m_PreviewTitle m = [] \<and> m_PreviewImage m = [] \<and> m_PreviewDescription m = [] \<and> m_PreviewFetchedAt m = None
     \<and> m_APIKeyID m = key
     \<and> (\<exists>b. dr_token dr = Some b \<and> tok = RawURLEncode b) \<and> m_OwnerTokenHash m = e_sha256 env tok)"

text \<open>The code: the custom one, checked, or six random base62 characters.\<close>

definition code_for :: "env \<Rightarrow> shorten_request \<Rightarrow> string \<Rightarrow> bool" where
  "code_for env req c =
    (if q_CustomCode req \<noteq> '''' then c = q_CustomCode req \<and> ValidateCustomCode (n_lower env) c = None
     else length c = 6 \<and> set c \<subseteq> set base62Chars)"

lemma prepare_Inr:
  assumes "prepare ops cfg env dr clk req key s = Inr (m, tok)"
  obtains custom mins tags h salt ds sec code hash where
    "stage_custom ops env req s = Inr custom" "stage_url cfg env req = Inr ()" "stage_expiration cfg req = Inr mins"
    "stage_tags req = Inr tags" "stage_max_clicks req = Inr ()" "stage_password env dr req = Inr (h, salt)"
    "stage_destinations cfg env req = Inr ds" "stage_webhook cfg env dr req = Inr sec"
    "stage_code ops dr custom s = Inr code" "stage_token env dr = Inr (tok, hash)"
    "m = \<lparr>m_ID = code, m_OriginalURL = q_URL req, m_CreatedAt = clk 1,
       m_ExpiresAt = (if mins > 0 then Some (clk 0 + minutes mins) else None),
       m_ClickCount = 0, m_LastAccessed = None, m_OwnerTokenHash = hash, m_Tags = tags,
       m_MaxClicks = q_MaxClicks req, m_PasswordHash = h, m_PasswordSalt = salt,
       m_WebhookURL = q_WebhookURL req, m_WebhookSecret = sec, m_APIKeyID = key,
       m_PreviewTitle = [], m_PreviewImage = [], m_PreviewDescription = [],
       m_PreviewFetchedAt = None, m_Destinations = ds\<rparr>"
  using assms by (auto simp: prepare_def and_then_Inr)

lemma prepare_created:
  assumes "prepare ops cfg env dr clk req key s = Inr (m, tok)"
  shows "created_from cfg env dr clk req key m tok"
  using assms
proof (cases rule: prepare_Inr)
  case (1 custom mins tags h salt ds sec code hash)
  have limits: "0 \<le> q_ExpirationMins req" "mins = min (h_maxExpirationMinutes cfg) (q_ExpirationMins req)"
      "NormalizeTags (q_Tags req) = Inr tags" "0 \<le> q_MaxClicks req"
    using 1(3-5) by (auto simp: stage_expiration_Inr stage_tags_Inr stage_max_clicks_Inr)
  have url: "ValidateDestinationURL (net_env.truncate env) (h_denyList cfg) (q_URL req) = None"
      "ValidateDestinations (net_env.truncate env) (h_denyList cfg) (q_Destinations req) = Inr ds"
    using 1(2,7) by (simp_all add: stage_url_Inr stage_destinations_Inr)
  have hook: "if q_WebhookURL req = [] then sec = [] else dr_secret dr = Some sec
      \<and> ValidateDestinationURL (net_env.truncate env) (h_denyList cfg) (q_WebhookURL req) = None"
    using 1(8) by (auto simp: stage_webhook_Inr)
  obtain b where "dr_token dr = Some b" "tok = RawURLEncode b" "hash = e_sha256 env tok" using 1(10) by (auto simp: stage_token_Inr)
  then show ?thesis
    using limits url hook 1(6) [unfolded stage_password_Inr]
    by (simp add: 1(11) created_from_def insertable_def Let_def)
qed

context key_store
begin

lemma prepare_code:
  assumes "valid s" and "prepare ops cfg env dr clk req key s = Inr (m, tok)"
  shows "view s (m_ID m) = None \<and> code_for env req (m_ID m)"
proof -
  obtain custom where custom: "stage_custom ops env req s = Inr custom" "stage_code ops dr custom s = Inr (m_ID m)"
    using assms(2) by (auto simp: prepare_def and_then_Inr)
  show ?thesis
  proof (cases "custom = ''''")
    case True
    then have "q_CustomCode req = ''''" using custom(1) by (simp add: stage_custom_Inr)
    then show ?thesis
      using True custom(2) generated_code [OF assms(1), of "dr_codes dr" "m_ID m"]
      by (simp add: stage_code_Inr code_for_def)
  next
    case False
    then show ?thesis
      using custom assms(1) by (auto simp: stage_Inr exists_spec code_for_def)
  qed
qed

lemma shortenOne_success:
  assumes "valid s" and "shortenOne ops cfg env dr clk req key reqID s = (s', jobs, Inr resp)"
  shows "\<exists>m. created_from cfg env dr clk req key m (p_AdminToken resp) \<and> code_for env req (m_ID m)
    \<and> resp = shorten_response_of cfg m (p_AdminToken resp)
    \<and> view s (m_ID m) = None \<and> view s' = (view s)(m_ID m \<mapsto> norm_mapping norm m) \<and> valid s' \<and> owner s' = owner s
    \<and> jobs = (if h_unfurler cfg then [(m_ID m, q_URL req)] else [])"
proof -
  obtain m tok where p: "prepare ops cfg env dr clk req key s = Inr (m, tok)"
    using assms(2) by (auto simp: shortenOne_def split: sum.splits)
  note c = prepare_created [OF p] and f = prepare_code [OF assms(1) p]
  have ins: "insertable (m_ID m) m" using c by (simp add: created_from_def)
  obtain s1 where s1: "st_Set ops (m_ID m) m s = (s1, None)" "view s1 = (view s)(m_ID m \<mapsto> norm_mapping norm m)"
    using set_fresh [OF assms(1) ins conjunct1 [OF f]] by (cases "st_Set ops (m_ID m) m s") auto
  have v1: "valid s1" "owner s1 = owner s"
    using set_valid [OF assms(1) ins] set_owner [OF assms(1) ins] s1(1) by simp_all
  let ?e = "audit (if key > 0 then (AuditActorAPIKey, show_int key) else (AuditActorAnon, ''''))
      AuditActionURLCreate ''url'' (m_ID m) '''' reqID"
  have res: "s' = logAuditBestEffort ops (clk 2) ?e s1" "resp = shorten_response_of cfg m tok"
      "jobs = (if h_unfurler cfg then [(m_ID m, q_URL req)] else [])"
    using assms(2) by (simp_all add: shortenOne_def p s1(1) Let_def)
  moreover have "p_AdminToken resp = tok" using res(2) by (simp add: shorten_response_of_def)
  ultimately show ?thesis
    using c f s1(2) v1 logAudit_frame [OF v1(1), of "clk 2" ?e] by (intro exI [of _ m]) simp
qed

lemma shortenOne_failure:
  assumes "valid s" and "shortenOne ops cfg env dr clk req key reqID s = (s', jobs, Inl e)"
  shows "s' = s \<and> jobs = [] \<and> prepare ops cfg env dr clk req key s = Inl e"
proof (cases "prepare ops cfg env dr clk req key s")
  case (Inl e')
  then show ?thesis using assms(2) by (simp add: shortenOne_def)
next
  case (Inr mt)
  then obtain m tok where p: "prepare ops cfg env dr clk req key s = Inr (m, tok)" by (cases mt) simp
  have "insertable (m_ID m) m" using prepare_created [OF p] by (simp add: created_from_def)
  from set_fresh [OF assms(1) this] prepare_code [OF assms(1) p]
  have "snd (st_Set ops (m_ID m) m s) = None" by simp
  then show ?thesis
    using assms(2) by (cases "st_Set ops (m_ID m) m s") (simp add: shortenOne_def p Let_def)
qed

lemma shortenOne_valid:
  assumes "valid s" and "shortenOne ops cfg env dr clk req key reqID s = (s', jobs, res)"
  shows "valid s'"
proof (cases res)
  case (Inl e)
  then show ?thesis using shortenOne_failure [OF assms(1) assms(2) [unfolded Inl]] assms(1) by simp
next
  case (Inr resp)
  then show ?thesis using shortenOne_success [OF assms(1)] assms(2) by blast
qed

lemma detectAPIKey_frame:
  assumes "valid s" and "detectAPIKey ops env t r s = (s', k)"
  shows "valid s' \<and> view s' = view s \<and> owner s' = owner s
    \<and> k = (case extractBearer env r of None \<Rightarrow> 0 | Some (tok, h) \<Rightarrow> opt_or 0 (owner s h))"
proof (cases "extractBearer env r")
  case None
  then show ?thesis using assms by (simp add: detectAPIKey_def)
next
  case (Some th)
  obtain tok h where th: "th = (tok, h)" by (cases th)
  obtain s1 x where l: "st_LookupAPIKey ops t h s = (s1, x)" by (cases "st_LookupAPIKey ops t h s")
  show ?thesis
    using assms(2) Some th l lookup_frame [OF assms(1) l] lookup_result [OF assms(1), of t h]
    by (cases x) (auto simp: detectAPIKey_def dest: sym)
qed

end


section \<open>The properties, for the memory backend\<close>

text \<open>In memory, all that a success does beside the table of mappings is to log one audit event.\<close>

lemma shortenOne_only_audits:
  assumes "shortenOne mem_ops cfg env dr clk req key reqID s = (s', jobs, Inr resp)"
  shows "s' = logAuditBestEffort mem_ops (clk 2)
    (audit (if key > 0 then (AuditActorAPIKey, show_int key) else (AuditActorAnon, [])) AuditActionURLCreate ''url'' (p_ShortCode resp) [] reqID)
    (s\<lparr>s_urls := s_urls s'\<rparr>)"
proof -
  obtain m tok where p: "prepare mem_ops cfg env dr clk req key s = Inr (m, tok)"
    using assms by (auto simp: shortenOne_def split: sum.splits)
  have free: "map_of (s_urls s) (m_ID m) = None"
    using assms by (auto simp: shortenOne_def p mem_Set_def fail_item_def split: option.splits)
  have "p_ShortCode resp = m_ID m" using assms by (auto simp: shortenOne_def p free mem_Set_def Let_def shorten_response_of_def)
  then show ?thesis using assms by (auto simp: shortenOne_def p free mem_Set_def Let_def logAuditBestEffort_def mem_LogAudit_def)
qed

text \<open>
  C7. A successful \<^verbatim>\<open>shortenOne\<close> adds exactly one mapping, under a code that was free: the
  custom code if one was asked for (well-formed and not reserved), else six base62 characters.
  The mapping is the one the request describes (validated destination, capped expiration,
  normalised tags, checked pool and webhook, the key of the caller, no clicks, the hash of the
  returned token as its owner), and the response reports the stored mapping. Every other mapping,
  all click events and all keys are as before; the only other effect on the store is one audit
  event, of the caller's key or of nobody, that names the new code and the request.
\<close>
theorem shorten_adds_mapping:
  assumes "mem_inv s" and "shortenOne mem_ops cfg env dr clk req key reqID s = (s', jobs, Inr resp)"
  shows "\<exists>m. created_from cfg env dr clk req key m (p_AdminToken resp) \<and> code_for env req (m_ID m)
    \<and> resp = shorten_response_of cfg m (p_AdminToken resp)
    \<and> mem_view s (m_ID m) = None \<and> mem_view s' = (mem_view s)(m_ID m \<mapsto> m)
    \<and> mem_inv s' \<and> mem_owner s' = mem_owner s
    \<and> s' = logAuditBestEffort mem_ops (clk 2)
        (audit (if key > 0 then (AuditActorAPIKey, show_int key) else (AuditActorAnon, [])) AuditActionURLCreate ''url'' (m_ID m) [] reqID)
        (s\<lparr>s_urls := s_urls s'\<rparr>)"
proof -
  obtain m where m: "created_from cfg env dr clk req key m (p_AdminToken resp)" "code_for env req (m_ID m)"
      "resp = shorten_response_of cfg m (p_AdminToken resp)" "mem_view s (m_ID m) = None"
      "mem_view s' = (mem_view s)(m_ID m \<mapsto> m)" "mem_inv s'" "mem_owner s' = mem_owner s"
    using mem.shortenOne_success [OF assms] by blast
  have "p_ShortCode resp = m_ID m" using arg_cong [OF m(3), of p_ShortCode] by (simp add: shorten_response_of_def)
  then show ?thesis using m shortenOne_only_audits [OF assms(2)] by (intro exI [of _ m]) simp
qed

theorem shorten_adds_mapping_witness:
  "\<exists>m. m_OriginalURL m = ''https://example.com/a'' \<and> mem_view promo_store = [''promo'' \<mapsto> m]"
proof -
  obtain m where m: "created_from sample_cfg sample_env sample_draws (\<lambda>i. 1000) (sample_req ''promo'') 0 m
      (p_AdminToken promo_response)" "promo_response = shorten_response_of sample_cfg m (p_AdminToken promo_response)"
      "mem_view promo_store = (mem_view NewMemoryStore)(m_ID m \<mapsto> m)"
    using shorten_adds_mapping [OF mem_inv_new promo_run] by blast
  have "m_ID m = ''promo''" "m_OriginalURL m = ''https://example.com/a''"
    using arg_cong [OF m(2), of p_ShortCode] arg_cong [OF m(2), of p_OriginalURL]
    by (simp_all add: shorten_response_of_def promo_response_def)
  then show ?thesis using m(3) by (intro exI [of _ m]) (simp add: mem_view_def NewMemoryStore_def)
qed

text \<open>
  C10. A rejected \<^verbatim>\<open>shortenOne\<close> leaves no trace: the store is unchanged (not even an audit event is
  written), no unfurl job is enqueued, and the status is 400, 409 or 500; it is 409 exactly if
  the custom code is acceptable but taken.
\<close>
theorem shorten_failure_no_effect:
  assumes "mem_inv s" and "shortenOne mem_ops cfg env dr clk req key reqID s = (s', jobs, Inl e)"
  shows "s' = s \<and> jobs = [] \<and> i_Status e \<in> {400, 409, 500}
    \<and> (i_Status e = 409 \<longleftrightarrow> q_CustomCode req \<noteq> '''' \<and> ValidateCustomCode (n_lower env) (q_CustomCode req) = None
        \<and> mem_view s (q_CustomCode req) \<noteq> None)"
proof -
  have p: "s' = s" "jobs = []" "prepare mem_ops cfg env dr clk req key s = Inl e"
    using mem.shortenOne_failure [OF assms] by simp_all
  have ex: "mem_Exists c s \<longleftrightarrow> mem_view s c \<noteq> None" for c by (simp add: mem_Exists_def mem_view_def)
  have first: "stage_custom mem_ops env req s = Inl e \<and> i_Status e \<in> {400, 409} \<and> (i_Status e = 409 \<longleftrightarrow>
      q_CustomCode req \<noteq> '''' \<and> ValidateCustomCode (n_lower env) (q_CustomCode req) = None
        \<and> mem_view s (q_CustomCode req) \<noteq> None)
    \<or> (\<exists>c. stage_custom mem_ops env req s = Inr c)
      \<and> (q_CustomCode req = '''' \<or> ValidateCustomCode (n_lower env) (q_CustomCode req) = None
          \<and> mem_view s (q_CustomCode req) = None) \<and> i_Status e \<in> {400, 500}"
  proof (cases "stage_custom mem_ops env req s")
    case (Inl e')
    then have "e' = e" using p(3) by (simp add: prepare_def)
    with Inl show ?thesis
      by (auto simp: stage_custom_def fail_item_def ex split: if_splits option.splits)
  next
    case (Inr c)
    then have "i_Status e = 400 \<or> i_Status e = 500" using prepare_Inl [OF p(3)] by simp
    with Inr show ?thesis by (auto simp: stage_custom_Inr ex)
  qed
  then show ?thesis using p by auto
qed

theorem shorten_failure_no_effect_witness:
  "fst (sample_shorten ''promo'' promo_store) = promo_store"
proof -
  have "snd (snd (sample_shorten ''promo'' promo_store))
      = Inl \<lparr>i_Status = 409, i_Code = ''code_conflict'', i_Message = ''custom code is already in use''\<rparr>"
    by code_simp
  then obtain s' jobs where "sample_shorten ''promo'' promo_store = (s', jobs,
      Inl \<lparr>i_Status = 409, i_Code = ''code_conflict'', i_Message = ''custom code is already in use''\<rparr>)"
    by (metis prod.collapse)
  moreover have "mem_inv promo_store" using mem.shortenOne_success [OF mem_inv_new promo_run] by blast
  ultimately show ?thesis
    using shorten_failure_no_effect [of promo_store sample_cfg sample_env sample_draws "\<lambda>i. 1000" "sample_req ''promo''" 0 "''r1''"]
    by (simp add: sample_shorten_def)
qed

text \<open>
  The token in a successful response is a working credential: any later request that carries
  it as its bearer token is authorised, by \<^verbatim>\<open>authorizeAccess\<close> and by \<^verbatim>\<open>authorizeOwner\<close>, for the
  mapping the store then holds under the new code, as long as its owner hash was not rotated
  (for any hash function whose values are not empty).
\<close>
theorem shorten_token_authorises:
  assumes "mem_inv s" and "shortenOne mem_ops cfg env dr clk req key reqID s = (s', jobs, Inr resp)"
    and "dr_token dr = Some b" and "b \<noteq> []" and "e_sha256 env (RawURLEncode b) \<noteq> []"
    and "mem_inv t" and "mem_view t (p_ShortCode resp) = Some m'"
    and "map_option m_OwnerTokenHash (mem_view s' (p_ShortCode resp)) = Some (m_OwnerTokenHash m')"
    and "r_Header r ''Authorization'' = ''Bearer '' @ p_AdminToken resp"
  shows "snd (authorizeAccess mem_ops env now r m' t) \<and> authorizeOwner env r (m_OwnerTokenHash m')"
proof -
  obtain m where m: "created_from cfg env dr clk req key m (p_AdminToken resp)"
      "resp = shorten_response_of cfg m (p_AdminToken resp)" "mem_view s' = (mem_view s)(m_ID m \<mapsto> m)"
    using mem.shortenOne_success [OF assms(1,2)] by blast
  have tok: "p_AdminToken resp = RawURLEncode b" and hash: "m_OwnerTokenHash m = e_sha256 env (RawURLEncode b)"
    using m(1) assms(3) by (auto simp: created_from_def)
  have "p_ShortCode resp = m_ID m" using arg_cong [OF m(2), of p_ShortCode] by (simp add: shorten_response_of_def)
  then have h': "m_OwnerTokenHash m' = e_sha256 env (RawURLEncode b)" using assms(8) m(3) hash by simp
  have "extractBearer env r = Some (RawURLEncode b, e_sha256 env (RawURLEncode b))"
    using assms(4,9) tok by (intro extractBearer_token) simp_all
  then show ?thesis
    using h' assms(5) mem.authorizeAccess_iff [OF assms(6), of env now r m']
    by (simp add: grants_def authorizeOwner_def)
qed


definition bearer_request :: "string \<Rightarrow> string \<Rightarrow> request" where
  "bearer_request code tok = \<lparr>r_Method = ''GET'', r_Code = code,
     r_Header = (\<lambda>h. if h = ''Authorization'' then ''Bearer '' @ tok else ''''), r_Query = (\<lambda>q. ''''),
     r_RemoteAddr = ''192.0.2.1:80'', r_RequestID = ''r2''\<rparr>"

theorem shorten_token_authorises_witness:
  "\<exists>m. mem_view promo_store ''promo'' = Some m
     \<and> authorizeOwner sample_env (bearer_request ''promo'' ''AQID'') (m_OwnerTokenHash m)"
proof -
  obtain m where m: "mem_view promo_store ''promo'' = Some m" "m_OwnerTokenHash m = [4, 7]"
    using promo_view by auto
  have inv: "mem_inv promo_store" using mem.shortenOne_success [OF mem_inv_new promo_run] by blast
  have "snd (authorizeAccess mem_ops sample_env 2000 (bearer_request ''promo'' ''AQID'') m promo_store)
      \<and> authorizeOwner sample_env (bearer_request ''promo'' ''AQID'') (m_OwnerTokenHash m)"
    by (rule shorten_token_authorises [OF mem_inv_new promo_run _ _ _ inv, where b = "[1, 2, 3]"])
      (simp_all add: sample_draws_def sample_env_def promo_response_def m bearer_request_def)
  with m(1) show ?thesis by blast
qed

end
