(* ===== verification/Bulk.thy ===== *)
theory Bulk
  imports Shorten_Props
begin

text \<open>
  \<^verbatim>\<open>POST /api/shorten/bulk\<close> (\<^verbatim>\<open>handlers/shorten_bulk.go\<close>): up to \<open>maxItems\<close> items through
  \<^verbatim>\<open>shortenOne\<close>, one after the other, each with its own result.
\<close>

section \<open>The handler\<close>

record bulk_item_result =
  br_Index :: nat
  br_Result :: "shorten_response option"
  br_Error :: "item_error option"

record bulk_response =
  bp_Created :: nat
  bp_Failed :: nat
  bp_Items :: "bulk_item_result list"

definition NewBulkShortenHandler :: "int \<Rightarrow> int" where
  "NewBulkShortenHandler maxItems = (if maxItems \<le> 0 then 50 else maxItems)"

text \<open>
  The loop from item \<open>i\<close> on. \<open>dr i\<close> are the random reads and \<open>clk i\<close> the clocks of item \<open>i\<close>; the
  jobs of the unfurler are collected in order.
\<close>

fun bulk_loop :: "'s store_ops \<Rightarrow> shorten_cfg \<Rightarrow> env \<Rightarrow> (nat \<Rightarrow> draws) \<Rightarrow> (nat \<Rightarrow> nat \<Rightarrow> time) \<Rightarrow> int \<Rightarrow> string
    \<Rightarrow> nat \<Rightarrow> shorten_request list \<Rightarrow> bulk_response \<Rightarrow> 's \<Rightarrow> 's \<times> (string \<times> string) list \<times> bulk_response" where
  "bulk_loop ops cfg env dr clk key reqID i [] resp s = (s, [], resp)"
| "bulk_loop ops cfg env dr clk key reqID i (item # items) resp s =
     (case shortenOne ops cfg env (dr i) (clk i) item key reqID s of
        (s1, jobs, res) \<Rightarrow>
          (let entry = \<lparr>br_Index = i, br_Result = None, br_Error = None\<rparr>;
               resp' = (case res of
                   Inl e \<Rightarrow> resp\<lparr>bp_Failed := bp_Failed resp + 1, bp_Items := bp_Items resp @ [entry\<lparr>br_Error := Some e\<rparr>]\<rparr>
                 | Inr p \<Rightarrow> resp\<lparr>bp_Created := bp_Created resp + 1, bp_Items := bp_Items resp @ [entry\<lparr>br_Result := Some p\<rparr>]\<rparr>)
           in case bulk_loop ops cfg env dr clk key reqID (Suc i) items resp' s1 of
             (s2, jobs', resp'') \<Rightarrow> (s2, jobs @ jobs', resp'')))"

definition bulk_ServeHTTP :: "'s store_ops \<Rightarrow> shorten_cfg \<Rightarrow> int \<Rightarrow> env \<Rightarrow> (nat \<Rightarrow> draws) \<Rightarrow> (nat \<Rightarrow> nat \<Rightarrow> time) \<Rightarrow> time
    \<Rightarrow> request \<Rightarrow> shorten_request list option \<Rightarrow> 's \<Rightarrow> 's \<times> (string \<times> string) list \<times> bulk_response reply" where
  "bulk_ServeHTTP ops cfg maxItems env dr clk now r body s =
     (if r_Method r \<noteq> ''POST'' then (s, [], WriteError 405 ''Only POST method is allowed'')
      else case detectAPIKey ops env now r s of
        (s1, apiKeyID) \<Rightarrow>
          (case body of
             None \<Rightarrow> (s1, [], WriteError 400 ''Invalid request body'')
           | Some items \<Rightarrow>
               if items = [] then (s1, [], WriteError 400 ''items must not be empty'')
               else if int (length items) > maxItems then (s1, [], WriteError 400 ''too many items in one request'')
               else (case bulk_loop ops cfg env dr clk apiKeyID (r_RequestID r) 0 items
                   \<lparr>bp_Created = 0, bp_Failed = 0, bp_Items = []\<rparr> s1 of
                 (s2, jobs, resp) \<Rightarrow> (s2, jobs, Payload 200 resp))))"

section \<open>Accounting and effect\<close>

text \<open>The codes of the successful items, and the shape of the results of items \<open>i\<close>, \<open>i + 1\<close>, ...\<close>

definition created_codes :: "bulk_item_result list \<Rightarrow> string list" where
  "created_codes rs = map (p_ShortCode \<circ> the \<circ> br_Result) (filter (\<lambda>r. br_Result r \<noteq> None) rs)"

definition one_outcome :: "bulk_item_result \<Rightarrow> bool" where
  "one_outcome r = ((br_Result r = None) \<noteq> (br_Error r = None))"

lemma created_codes_simps [simp]:
  "created_codes [] = []" "created_codes (xs @ ys) = created_codes xs @ created_codes ys"
  "created_codes (\<lparr>br_Index = i, br_Result = Some p, br_Error = e\<rparr> # rs) = p_ShortCode p # created_codes rs"
  "created_codes (\<lparr>br_Index = i, br_Result = None, br_Error = e\<rparr> # rs) = created_codes rs"
  by (simp_all add: created_codes_def)

context key_store
begin

lemma shortenOne_codes:
  assumes "valid s" and "shortenOne ops cfg env dr clk req key reqID s = (s', jobs, res)"
  shows "valid s' \<and> (case res of
      Inl e \<Rightarrow> s' = s
    | Inr p \<Rightarrow> view s (p_ShortCode p) = None \<and> (\<exists>m. m_APIKeyID m = key \<and> view s' = (view s)(p_ShortCode p \<mapsto> m)))"
proof (cases res)
  case (Inl e)
  then show ?thesis using shortenOne_failure [OF assms(1) assms(2) [unfolded Inl]] assms(1) by simp
next
  case (Inr p)
  obtain m where m: "created_from cfg env dr clk req key m (p_AdminToken p)"
      "p = shorten_response_of cfg m (p_AdminToken p)" "view s (m_ID m) = None"
      "view s' = (view s)(m_ID m \<mapsto> norm_mapping norm m)" "valid s'"
    using shortenOne_success [OF assms(1) assms(2) [unfolded Inr]] by blast
  have "p_ShortCode p = m_ID m" using arg_cong [OF m(2), of p_ShortCode] by (simp add: shorten_response_of_def)
  then show ?thesis using m Inr by (auto simp: created_from_def intro!: exI [of _ "norm_mapping norm m"])
qed

text \<open>What the loop adds to a response and to the store.\<close>

lemma bulk_loop_spec:
  assumes "valid s" and "bulk_loop ops cfg env dr clk key reqID i items resp s = (s', jobs, resp')"
  shows "valid s' \<and> (\<exists>rs. bp_Items resp' = bp_Items resp @ rs \<and> length rs = length items
    \<and> map br_Index rs = [i..<i + length items] \<and> (\<forall>r \<in> set rs. one_outcome r)
    \<and> bp_Created resp' = bp_Created resp + length (created_codes rs)
    \<and> bp_Failed resp' + length (created_codes rs) = bp_Failed resp + length items
    \<and> distinct (created_codes rs) \<and> (\<forall>c \<in> set (created_codes rs). view s c = None)
    \<and> dom (view s') = dom (view s) \<union> set (created_codes rs)
    \<and> (\<forall>c. c \<notin> set (created_codes rs) \<longrightarrow> view s' c = view s c))"
  using assms
proof (induction items arbitrary: i resp s jobs)
  case Nil
  then show ?case by simp
next
  case (Cons item items)
  obtain s1 j1 res where one: "shortenOne ops cfg env (dr i) (clk i) item key reqID s = (s1, j1, res)"
    by (cases "shortenOne ops cfg env (dr i) (clk i) item key reqID s")
  note o1 = shortenOne_codes [OF Cons.prems(1) one]
  then have v1: "valid s1" by simp
  define entry where "entry = (case res of Inl e \<Rightarrow> \<lparr>br_Index = i, br_Result = None, br_Error = Some e\<rparr>
      | Inr p \<Rightarrow> \<lparr>br_Index = i, br_Result = Some p, br_Error = None\<rparr>)"
  define resp1 where "resp1 = (case res of
      Inl e \<Rightarrow> resp\<lparr>bp_Failed := bp_Failed resp + 1, bp_Items := bp_Items resp @ [entry]\<rparr>
    | Inr p \<Rightarrow> resp\<lparr>bp_Created := bp_Created resp + 1, bp_Items := bp_Items resp @ [entry]\<rparr>)"
  obtain j2 where loop: "bulk_loop ops cfg env dr clk key reqID (Suc i) items resp1 s1 = (s', j2, resp')"
    using Cons.prems(2) one by (auto simp: Let_def resp1_def entry_def split: sum.splits prod.splits)
  from Cons.IH [OF v1 loop] obtain rs where rs: "valid s'" "bp_Items resp' = bp_Items resp1 @ rs" "length rs = length items"
    "map br_Index rs = [Suc i..<Suc i + length items]" "\<forall>r \<in> set rs. one_outcome r"
    "bp_Created resp' = bp_Created resp1 + length (created_codes rs)"
    "bp_Failed resp' + length (created_codes rs) = bp_Failed resp1 + length items"
    "distinct (created_codes rs)" "\<forall>c \<in> set (created_codes rs). view s1 c = None"
    "dom (view s') = dom (view s1) \<union> set (created_codes rs)"
    "\<forall>c. c \<notin> set (created_codes rs) \<longrightarrow> view s' c = view s1 c" by blast
  have idx: "map br_Index (entry # rs) = [i..<i + length (item # items)]"
  proof -
    have "br_Index entry = i" by (cases res) (simp_all add: entry_def)
    moreover have "[i..<i + length (item # items)] = i # [Suc i..<Suc i + length items]"
      by (subst upt_conv_Cons) (simp_all del: upt_Suc)
    ultimately show ?thesis using rs(4) by (simp del: upt_Suc)
  qed
  show ?case
  proof (cases res)
    case (Inl e)
    then have "created_codes (entry # rs) = created_codes rs" "one_outcome entry" "view s1 = view s"
      using o1 by (simp_all add: entry_def one_outcome_def)
    then show ?thesis using rs idx Inl by (intro conjI exI [of _ "entry # rs"]) (simp_all add: resp1_def)
  next
    case (Inr p)
    then have e: "created_codes (entry # rs) = p_ShortCode p # created_codes rs" "one_outcome entry"
      by (simp_all add: entry_def one_outcome_def)
    obtain m where "view s (p_ShortCode p) = None" "view s1 = (view s)(p_ShortCode p \<mapsto> m)" using o1 Inr by auto
    then show ?thesis using rs idx Inr e
      by (intro conjI exI [of _ "entry # rs"]) (auto simp: resp1_def split: if_splits)
  qed
qed

end

text \<open>
  C26. A bulk request answers one result per item, in order, each either a result or an error;
  \<^verbatim>\<open>created\<close> and \<^verbatim>\<open>failed\<close> add up to the number of items. The codes of the results are pairwise
  different and were all free before; they are exactly the codes the store gained, and every
  other mapping is as it was.
\<close>
theorem bulk_accounts:
  assumes "mem_inv s"
    and "bulk_ServeHTTP mem_ops cfg maxItems env dr clk now r (Some items) s = (s', jobs, Payload 200 resp)"
  shows "bp_Created resp + bp_Failed resp = length items \<and> int (length items) \<le> maxItems
    \<and> map br_Index (bp_Items resp) = [0..<length items] \<and> (\<forall>x \<in> set (bp_Items resp). one_outcome x)
    \<and> length (created_codes (bp_Items resp)) = bp_Created resp
    \<and> distinct (created_codes (bp_Items resp)) \<and> (\<forall>c \<in> set (created_codes (bp_Items resp)). mem_view s c = None)
    \<and> dom (mem_view s') = dom (mem_view s) \<union> set (created_codes (bp_Items resp))
    \<and> (\<forall>c. c \<notin> set (created_codes (bp_Items resp)) \<longrightarrow> mem_view s' c = mem_view s c)"
proof -
  obtain s1 key where d: "detectAPIKey mem_ops env now r s = (s1, key)" by (cases "detectAPIKey mem_ops env now r s")
  from mem.detectAPIKey_frame [OF assms(1) d] have s1: "mem_inv s1" "mem_view s1 = mem_view s" by simp_all
  let ?r0 = "\<lparr>bp_Created = 0, bp_Failed = 0, bp_Items = []\<rparr> :: bulk_response"
  have loop: "bulk_loop mem_ops cfg env dr clk key (r_RequestID r) 0 items ?r0 s1 = (s', jobs, resp)"
    and len: "int (length items) \<le> maxItems"
    using assms(2) d by (auto simp: bulk_ServeHTTP_def split: if_splits prod.splits)
  show ?thesis using mem.bulk_loop_spec [OF s1(1) loop] s1(2) len by auto
qed

definition post_request :: request where
  "post_request = \<lparr>r_Method = ''POST'', r_Code = '''', r_Header = (\<lambda>h. ''''), r_Query = (\<lambda>q. ''''),
     r_RemoteAddr = ''192.0.2.1:80'', r_RequestID = ''r4''\<rparr>"

theorem bulk_accounts_witness:
  "\<exists>s' jobs resp. bulk_ServeHTTP mem_ops sample_cfg 50 sample_env (\<lambda>i. sample_draws) (\<lambda>i k. 1000) 9 post_request
     (Some [sample_req ''promo'', sample_req ''promo'']) NewMemoryStore = (s', jobs, Payload 200 resp)
     \<and> bp_Created resp + bp_Failed resp = 2"
proof -
  let ?b = "bulk_ServeHTTP mem_ops sample_cfg 50 sample_env (\<lambda>i. sample_draws) (\<lambda>i k. 1000) 9 post_request
     (Some [sample_req ''promo'', sample_req ''promo'']) NewMemoryStore"
  have "status_of (snd (snd ?b)) = 200 \<and> (case snd (snd ?b) of Payload n x \<Rightarrow> True | _ \<Rightarrow> False)" by code_simp
  then obtain resp where "snd (snd ?b) = Payload 200 resp" by (cases "snd (snd ?b)") simp_all
  then obtain s' jobs where b: "?b = (s', jobs, Payload 200 resp)" by (metis prod.collapse)
  show ?thesis using bulk_accounts [OF mem_inv_new b] b by auto
qed

end
