(* ===== verification/Owner_Ops.thy ===== *)
theory Owner_Ops
  imports Shorten_Props
begin

text \<open>
  The owner's operations on a mapping: \<^verbatim>\<open>DELETE /api/url/{code}\<close> (\<^verbatim>\<open>handlers/delete.go\<close>) and
  \<^verbatim>\<open>POST /api/url/{code}/rotate\<close> (\<^verbatim>\<open>handlers/rotate.go\<close>).
\<close>

section \<open>Delete\<close>

text \<open>
  Clocks: \<open>clk 0\<close> of \<^verbatim>\<open>Get\<close>, \<open>clk 1\<close> and \<open>clk 2\<close> of the key lookups of \<^verbatim>\<open>authorizeAccess\<close> and
  \<^verbatim>\<open>resolveActor\<close>, \<open>clk 3\<close> of the audit write. The mapping read first is kept for the actor.
\<close>

definition delete_ServeHTTP :: "'s store_ops \<Rightarrow> env \<Rightarrow> (nat \<Rightarrow> time) \<Rightarrow> request \<Rightarrow> 's \<Rightarrow> 's \<times> unit reply" where
  "delete_ServeHTTP ops env clk r s =
     (let code = r_Code r in
      if code = '''' then (s, WriteError 400 ''Short code is required'')
      else case st_Get ops (clk 0) code s of
        Inl e \<Rightarrow> (s, get_error e)
      | Inr m \<Rightarrow>
          (case authorizeAccess ops env (clk 1) r m s of
             (s1, False) \<Rightarrow> (s1, WriteError 401 ''missing or invalid admin token'')
           | (s1, True) \<Rightarrow>
               (case st_Delete ops code s1 of
                  (s2, Some ErrNotFound) \<Rightarrow> (s2, Bare 204)
                | (s2, Some e) \<Rightarrow> (s2, HttpError 500 ''Internal server error'')
                | (s2, None) \<Rightarrow>
                    (case resolveActor ops env (clk 2) r (Some m) s2 of
                       (s3, actor) \<Rightarrow>
                         (logAuditBestEffort ops (clk 3)
                            (audit actor AuditActionURLDelete ''url'' code '''' (r_RequestID r)) s3, Bare 204)))))"

section \<open>Rotate\<close>

record rotate_response =
  rr_ShortCode :: string
  rr_AdminToken :: string

definition rotate_ServeHTTP :: "'s store_ops \<Rightarrow> env \<Rightarrow> bytes option \<Rightarrow> (nat \<Rightarrow> time) \<Rightarrow> request \<Rightarrow> 's \<Rightarrow> 's \<times> rotate_response reply" where
  "rotate_ServeHTTP ops env rnd clk r s =
     (let code = r_Code r in
      if code = '''' then (s, WriteError 400 ''Short code is required'')
      else case st_Get ops (clk 0) code s of
        Inl e \<Rightarrow> (s, get_error e)
      | Inr m \<Rightarrow>
          if \<not> authorizeOwner env r (m_OwnerTokenHash m)
          then (s, WriteError 401 ''missing or invalid admin token'')
          else (case generateOwnerToken env rnd of
            None \<Rightarrow> (s, HttpError 500 ''failed to generate token'')
          | Some (token, hash) \<Rightarrow>
              (case st_RotateToken ops code hash s of
                 (s1, Some ErrNotFound) \<Rightarrow> (s1, NotFoundPage)
               | (s1, Some e) \<Rightarrow> (s1, HttpError 500 ''Internal server error'')
               | (s1, None) \<Rightarrow>
                   (logAuditBestEffort ops (clk 1) (audit (AuditActorAdminToken, code) AuditActionURLTokenRotated
                      ''url'' code '''' (r_RequestID r)) s1,
                    Payload 200 \<lparr>rr_ShortCode = code, rr_AdminToken = token\<rparr>))))"

section \<open>Effects\<close>

text \<open>A request that may act on the mapping \<open>m\<close> it reads at \<open>code\<close>.\<close>

definition may_act :: "(string \<Rightarrow> url_mapping option) \<Rightarrow> (bytes \<Rightarrow> int option) \<Rightarrow> env \<Rightarrow> time \<Rightarrow> request \<Rightarrow> url_mapping \<Rightarrow> bool" where
  "may_act v own env t r m = (r_Code r \<noteq> '''' \<and> v (r_Code r) = Some m \<and> \<not> expired_at t m
     \<and> (\<exists>tok h. extractBearer env r = Some (tok, h) \<and> grants own m h))"

context key_store
begin

lemma delete_spec:
  assumes "valid s" and "delete_ServeHTTP ops env clk r s = (s', reply)"
  shows "valid s' \<and> owner s' = owner s
    \<and> (if \<exists>m. may_act (view s) (owner s) env (clk 0) r m
       then reply = Bare 204 \<and> view s' = (view s)(r_Code r := None)
       else status_of reply \<in> {400, 401, 404, 410, 500} \<and> view s' = view s)"
proof (cases "r_Code r = ''''")
  case True
  then show ?thesis using assms by (auto simp: delete_ServeHTTP_def may_act_def Let_def)
next
  case nonempty: False
  show ?thesis
  proof (cases "st_Get ops (clk 0) (r_Code r) s")
    case (Inl e)
    then have "\<not> (\<exists>m. may_act (view s) (owner s) env (clk 0) r m)"
      using get_spec [OF assms(1), of "clk 0" "r_Code r"] by (auto simp: may_act_def)
    moreover have "s' = s" "reply = get_error e" using Inl nonempty assms(2) by (simp_all add: delete_ServeHTTP_def Let_def)
    ultimately show ?thesis using assms(1) get_error_status [where 'a = unit, of e] by auto
  next
    case (Inr m)
    note m = get_Inr [OF assms(1) Inr]
    obtain s1 b where a: "authorizeAccess ops env (clk 1) r m s = (s1, b)"
      by (cases "authorizeAccess ops env (clk 1) r m s")
    have b: "b \<longleftrightarrow> (\<exists>m. may_act (view s) (owner s) env (clk 0) r m)"
      using authorizeAccess_iff [OF assms(1), of env "clk 1" r m] a m nonempty by (auto simp: may_act_def)
    from authorizeAccess_frame [OF assms(1) a] have s1: "valid s1" "view s1 = view s" "owner s1 = owner s" by simp_all
    show ?thesis
    proof (cases b)
      case False
      then have "s' = s1" "reply = WriteError 401 ''missing or invalid admin token''"
        using Inr nonempty a assms(2) by (simp_all add: delete_ServeHTTP_def Let_def)
      then show ?thesis using s1 b False by simp
    next
      case True
      obtain s2 where s2: "st_Delete ops (r_Code r) s1 = (s2, None)"
        using delete_result [OF s1(1), of "r_Code r"] s1(2) m by (cases "st_Delete ops (r_Code r) s1") simp
      have v2: "valid s2" "view s2 = (view s)(r_Code r := None)" "owner s2 = owner s"
        using delete_valid [OF s1(1), of "r_Code r"] delete_view [OF s1(1), of "r_Code r"]
          delete_owner [OF s1(1), of "r_Code r"] s1 s2 by simp_all
      obtain s3 actor where s3: "resolveActor ops env (clk 2) r (Some m) s2 = (s3, actor)"
        by (cases "resolveActor ops env (clk 2) r (Some m) s2")
      from resolveActor_frame [OF v2(1) s3] have v3: "valid s3" "view s3 = view s2" "owner s3 = owner s2" by simp_all
      have "s' = logAuditBestEffort ops (clk 3) (audit actor AuditActionURLDelete ''url'' (r_Code r) '''' (r_RequestID r)) s3"
          "reply = Bare 204"
        using Inr nonempty a True s2 s3 assms(2) by (simp_all add: delete_ServeHTTP_def Let_def)
      then show ?thesis using logAudit_frame [OF v3(1)] v2 v3 b True by simp
    qed
  qed
qed

lemma rotate_spec:
  assumes "valid s" and "rotate_ServeHTTP ops env rnd clk r s = (s', reply)"
  shows "valid s' \<and> owner s' = owner s
    \<and> (if r_Code r \<noteq> '''' \<and> rnd \<noteq> None \<and> (\<exists>m. view s (r_Code r) = Some m \<and> \<not> expired_at (clk 0) m
            \<and> authorizeOwner env r (m_OwnerTokenHash m))
       then let token = RawURLEncode (the rnd); m = the (view s (r_Code r)) in
         reply = Payload 200 \<lparr>rr_ShortCode = r_Code r, rr_AdminToken = token\<rparr>
         \<and> view s' = (view s)(r_Code r \<mapsto> m\<lparr>m_OwnerTokenHash := e_sha256 env token\<rparr>)
       else status_of reply \<in> {400, 401, 404, 410, 500} \<and> s' = s)"
proof (cases "r_Code r = ''''")
  case True
  then show ?thesis using assms by (auto simp: rotate_ServeHTTP_def Let_def)
next
  case nonempty: False
  show ?thesis
  proof (cases "st_Get ops (clk 0) (r_Code r) s")
    case (Inl e)
    moreover have "s' = s" "reply = get_error e" using Inl nonempty assms(2) by (simp_all add: rotate_ServeHTTP_def Let_def)
    ultimately show ?thesis
      using assms(1) get_error_status [where 'a = rotate_response, of e] get_spec [OF assms(1), of "clk 0" "r_Code r"]
      by (auto split: option.splits)
  next
    case (Inr m)
    note m = get_Inr [OF assms(1) Inr]
    show ?thesis
    proof (cases "authorizeOwner env r (m_OwnerTokenHash m) \<and> rnd \<noteq> None")
      case False
      then have "s' = s" "status_of reply \<in> {401, 500}"
        using Inr nonempty assms(2) by (auto simp: rotate_ServeHTTP_def generateOwnerToken_def Let_def split: if_splits option.splits)
      then show ?thesis using assms(1) m False by auto
    next
      case True
      then obtain b where b: "rnd = Some b" by blast
      let ?tok = "RawURLEncode b"
      obtain s1 where s1: "st_RotateToken ops (r_Code r) (e_sha256 env ?tok) s = (s1, None)"
        using rotate_result [OF assms(1), of "r_Code r" "e_sha256 env ?tok"] m
        by (cases "st_RotateToken ops (r_Code r) (e_sha256 env ?tok) s") simp
      have v1: "valid s1" "view s1 = (view s)(r_Code r \<mapsto> m\<lparr>m_OwnerTokenHash := e_sha256 env ?tok\<rparr>)" "owner s1 = owner s"
        using rotate_valid [OF assms(1), of "r_Code r" "e_sha256 env ?tok"] rotate_view [OF assms(1), of "r_Code r" "e_sha256 env ?tok"]
          rotate_owner [OF assms(1), of "r_Code r" "e_sha256 env ?tok"] s1 m by simp_all
      have "s' = logAuditBestEffort ops (clk 1) (audit (AuditActorAdminToken, r_Code r) AuditActionURLTokenRotated
          ''url'' (r_Code r) '''' (r_RequestID r)) s1" "reply = Payload 200 \<lparr>rr_ShortCode = r_Code r, rr_AdminToken = ?tok\<rparr>"
        using Inr nonempty True b s1 assms(2) by (simp_all add: rotate_ServeHTTP_def generateOwnerToken_def Let_def)
      then show ?thesis using logAudit_frame [OF v1(1)] v1 m True nonempty b by (simp add: Let_def)
    qed
  qed
qed

end


section \<open>The properties, for the memory backend\<close>

text \<open>
  C20. \<^verbatim>\<open>DELETE\<close> removes the mapping and answers 204 exactly for a request that names a live,
  unexpired code and carries its owner token or the key it is bound to; every other request is
  answered with an error status and changes no mapping. No key is added, removed or given to another token.
\<close>
theorem delete_exact:
  assumes "mem_inv s" and "delete_ServeHTTP mem_ops env clk r s = (s', reply)"
  shows "mem_owner s' = mem_owner s
    \<and> (if \<exists>m. may_act (mem_view s) (mem_owner s) env (clk 0) r m
       then reply = Bare 204 \<and> mem_view s' = (mem_view s)(r_Code r := None)
       else status_of reply \<in> {400, 401, 404, 410, 500} \<and> mem_view s' = mem_view s)"
  using mem.delete_spec [OF assms] by blast

lemma promo_inv: "mem_inv promo_store"
  using mem.shortenOne_success [OF mem_inv_new promo_run] by blast

theorem delete_exact_witness:
  "mem_view (fst (delete_ServeHTTP mem_ops sample_env (\<lambda>i. 2000) (bearer_request ''promo'' ''no'') promo_store)) = mem_view promo_store"
proof -
  let ?e = "delete_ServeHTTP mem_ops sample_env (\<lambda>i. 2000) (bearer_request ''promo'' ''no'') promo_store"
  have st: "status_of (snd ?e) = 401" by code_simp
  obtain s' reply where e: "?e = (s', reply)" by (cases ?e)
  then have "status_of reply = 401" using st by simp
  then have "\<not> (reply = Bare 204 \<and> mem_view s' = (mem_view promo_store)(r_Code (bearer_request ''promo'' ''no'') := None))"
    by auto
  then have "mem_view s' = mem_view promo_store"
    using delete_exact [OF promo_inv e] by (simp only: split: if_split_asm) blast+
  then show ?thesis using e by simp
qed

text \<open>
  C19. Creating and deleting is a round trip: a request for the new code that carries the returned
  token deletes it (unless it expired by then), and the mappings are again those before the
  creation.
\<close>
theorem create_delete_roundtrip:
  assumes "mem_inv s" and "shortenOne mem_ops cfg env dr clk req key reqID s = (s1, jobs, Inr resp)"
    and "dr_token dr = Some b" and "b \<noteq> []" and "e_sha256 env (RawURLEncode b) \<noteq> []"
    and "r_Code r = p_ShortCode resp" and "p_ShortCode resp \<noteq> ''''"
    and "r_Header r ''Authorization'' = ''Bearer '' @ p_AdminToken resp"
    and "case p_ExpiresAt resp of None \<Rightarrow> True | Some e \<Rightarrow> clk' 0 \<le> e"
    and "delete_ServeHTTP mem_ops env clk' r s1 = (s2, reply)"
  shows "reply = Bare 204 \<and> mem_view s2 = mem_view s"
proof -
  obtain m where m: "created_from cfg env dr clk req key m (p_AdminToken resp)"
      "resp = shorten_response_of cfg m (p_AdminToken resp)" "mem_view s (m_ID m) = None"
      "mem_view s1 = (mem_view s)(m_ID m \<mapsto> m)" "mem_inv s1"
    using mem.shortenOne_success [OF assms(1,2)] by blast
  have f: "p_ShortCode resp = m_ID m" "p_ExpiresAt resp = m_ExpiresAt m"
    using arg_cong [OF m(2), of p_ShortCode] arg_cong [OF m(2), of p_ExpiresAt]
    by (simp_all add: shorten_response_of_def)
  have tok: "p_AdminToken resp = RawURLEncode b" and hash: "m_OwnerTokenHash m = e_sha256 env (RawURLEncode b)"
    using m(1) assms(3) by (auto simp: created_from_def)
  have "extractBearer env r = Some (RawURLEncode b, e_sha256 env (RawURLEncode b))"
    using assms(4,8) tok by (intro extractBearer_token) simp_all
  moreover have "\<not> expired_at (clk' 0) m" using assms(9) f(2) by (simp add: expired_at_def split: option.splits)
  ultimately have "may_act (mem_view s1) (mem_owner s1) env (clk' 0) r m"
    using assms(5-7) m(4) f(1) hash by (simp add: may_act_def grants_def)
  then have ex: "\<exists>m. may_act (mem_view s1) (mem_owner s1) env (clk' 0) r m" by blast
  have "reply = Bare 204 \<and> mem_view s2 = (mem_view s1)(m_ID m := None)"
    using mem.delete_spec [OF m(5) assms(10)] assms(6) f(1) by (simp only: if_P [OF ex])
  then show ?thesis using m(3,4) by (simp add: fun_upd_idem)
qed

theorem create_delete_roundtrip_witness:
  "mem_view (fst (delete_ServeHTTP mem_ops sample_env (\<lambda>i. 2000) (bearer_request ''promo'' ''AQID'') promo_store)) = mem_view NewMemoryStore"
proof -
  let ?d = "delete_ServeHTTP mem_ops sample_env (\<lambda>i. 2000) (bearer_request ''promo'' ''AQID'') promo_store"
  obtain s2 reply where d: "?d = (s2, reply)" by (cases ?d)
  have "reply = Bare 204 \<and> mem_view s2 = mem_view NewMemoryStore"
    by (rule create_delete_roundtrip [OF mem_inv_new promo_run _ _ _ _ _ _ _ d, where b = "[1, 2, 3]"])
      (simp_all add: sample_draws_def sample_env_def promo_response_def bearer_request_def)
  then show ?thesis using d by simp
qed

text \<open>In memory, all that a rotation does beside the table of mappings is to log one audit event.\<close>

lemma rotate_only_audits:
  assumes "rotate_ServeHTTP mem_ops env rnd clk r s = (s', reply)" and "status_of reply = 200"
  shows "s' = logAuditBestEffort mem_ops (clk 1)
    (audit (AuditActorAdminToken, r_Code r) AuditActionURLTokenRotated ''url'' (r_Code r) [] (r_RequestID r)) (s\<lparr>s_urls := s_urls s'\<rparr>)"
proof -
  obtain m where m: "r_Code r \<noteq> []" "mem_Get (clk 0) (r_Code r) s = Inr m" "authorizeOwner env r (m_OwnerTokenHash m)"
    using assms by (cases "mem_Get (clk 0) (r_Code r) s")
      (auto simp: rotate_ServeHTTP_def Let_def get_error_def split: if_splits store_err.splits)
  obtain b where b: "rnd = Some b"
    using assms m by (cases rnd) (auto simp: rotate_ServeHTTP_def Let_def generateOwnerToken_def)
  obtain m' where "map_of (s_urls s) (r_Code r) = Some m'" using m(2) by (auto simp: mem_Get_def split: option.splits)
  then show ?thesis using assms(1) m b
    by (auto simp: rotate_ServeHTTP_def Let_def generateOwnerToken_def mem_RotateToken_def logAuditBestEffort_def mem_LogAudit_def)
qed

text \<open>
  C21. Rotation replaces the credential at once: after a 200 the request that rotated (with the old
  token) is no longer authorised for the mapping by its owner token, a request with the returned
  token is. Nothing else of any mapping, no click event and no key changed; one audit event of the
  owner, naming the code and the request, was added. A request without the owner token (an API key
  included) rotates nothing and leaves the whole store as it was.
\<close>
theorem rotate_swaps_token:
  assumes "mem_inv s" and "rotate_ServeHTTP mem_ops env rnd clk r s = (s', reply)"
    and "rnd = Some b" and "b \<noteq> []" and "e_sha256 env (RawURLEncode b) \<noteq> []"
    and "\<forall>tok h. extractBearer env r = Some (tok, h) \<longrightarrow> h \<noteq> e_sha256 env (RawURLEncode b)"
    and "r_Header r' ''Authorization'' = ''Bearer '' @ RawURLEncode b"
  shows "if status_of reply = 200
    then \<exists>m. mem_view s (r_Code r) = Some m \<and> authorizeOwner env r (m_OwnerTokenHash m)
      \<and> reply = Payload 200 \<lparr>rr_ShortCode = r_Code r, rr_AdminToken = RawURLEncode b\<rparr>
      \<and> mem_view s' = (mem_view s)(r_Code r \<mapsto> m\<lparr>m_OwnerTokenHash := e_sha256 env (RawURLEncode b)\<rparr>)
      \<and> (let m' = the (mem_view s' (r_Code r)) in
          \<not> authorizeOwner env r (m_OwnerTokenHash m') \<and> authorizeOwner env r' (m_OwnerTokenHash m'))
      \<and> s' = logAuditBestEffort mem_ops (clk 1)
          (audit (AuditActorAdminToken, r_Code r) AuditActionURLTokenRotated ''url'' (r_Code r) [] (r_RequestID r)) (s\<lparr>s_urls := s_urls s'\<rparr>)
    else s' = s"
proof -
  have new: "extractBearer env r' = Some (RawURLEncode b, e_sha256 env (RawURLEncode b))"
    using assms(4,7) by (intro extractBearer_token) simp_all
  have old: "\<not> authorizeOwner env r (e_sha256 env (RawURLEncode b))"
    using assms(6) by (auto simp: authorizeOwner_def split: option.splits)
  show ?thesis
  proof (cases "r_Code r \<noteq> '''' \<and> (\<exists>m. mem_view s (r_Code r) = Some m \<and> \<not> expired_at (clk 0) m
      \<and> authorizeOwner env r (m_OwnerTokenHash m))")
    case True
    then obtain m where m: "mem_view s (r_Code r) = Some m" "authorizeOwner env r (m_OwnerTokenHash m)" by blast
    have "authorizeOwner env r' (e_sha256 env (RawURLEncode b))"
      using new assms(5) by (simp add: authorizeOwner_def)
    moreover have "reply = Payload 200 \<lparr>rr_ShortCode = r_Code r, rr_AdminToken = RawURLEncode b\<rparr>
        \<and> mem_view s' = (mem_view s)(r_Code r \<mapsto> m\<lparr>m_OwnerTokenHash := e_sha256 env (RawURLEncode b)\<rparr>)"
      using mem.rotate_spec [OF assms(1,2)] True assms(3) m by (simp add: Let_def)
    ultimately show ?thesis using m old rotate_only_audits [OF assms(2)] by simp
  next
    case False
    then have "status_of reply \<in> {400, 401, 404, 410, 500} \<and> s' = s"
      using mem.rotate_spec [OF assms(1,2)] by (simp only: split: if_split_asm) blast+
    then show ?thesis by auto
  qed
qed

theorem rotate_swaps_token_witness:
  "status_of (snd (rotate_ServeHTTP mem_ops sample_env (Some [9, 9]) (\<lambda>i. 2000) (bearer_request ''promo'' ''AQID'') promo_store)) = 200
   \<and> map_option m_OwnerTokenHash (mem_view (fst (rotate_ServeHTTP mem_ops sample_env (Some [9, 9]) (\<lambda>i. 2000)
       (bearer_request ''promo'' ''AQID'') promo_store)) ''promo'') = Some (e_sha256 sample_env (RawURLEncode [9, 9]))"
proof -
  let ?f = "rotate_ServeHTTP mem_ops sample_env (Some [9, 9]) (\<lambda>i. 2000) (bearer_request ''promo'' ''AQID'') promo_store"
  obtain s' reply where f: "?f = (s', reply)" by (cases ?f)
  have st: "status_of (snd ?f) = 200" by code_simp
  have eb: "extractBearer sample_env (bearer_request ''promo'' ''AQID'') = Some (''AQID'', [4, 7])" by code_simp
  have sh: "e_sha256 sample_env (RawURLEncode [9, 9]) = [3, 7]" by code_simp
  obtain m where "mem_view s' = (mem_view promo_store)(''promo'' \<mapsto> m\<lparr>m_OwnerTokenHash := e_sha256 sample_env (RawURLEncode [9, 9])\<rparr>)"
    using rotate_swaps_token [OF promo_inv f refl _ _ _, of "bearer_request ''promo'' (RawURLEncode [9, 9])"] eb sh st f
    by (auto simp: bearer_request_def)
  then show ?thesis using st f by simp
qed

end
