(* ===== verification/Patch.thy ===== *)
theory Patch
  imports Owner_Ops
begin

text \<open>
  \<^verbatim>\<open>PATCH /api/url/{code}\<close> (\<^verbatim>\<open>handlers/patch.go\<close>). The checks of the handler are stages in the
  source's order, each an early reply or the part of the payload it contributes; \<open>patch_ServeHTTP\<close>
  composes them with the store calls.
\<close>

section \<open>Requests and responses\<close>

record patch_cfg =
  pc_maxExpirationMinutes :: int
  pc_denyList :: deny_list

text \<open>A nil pointer is \<open>None\<close>: the field is absent from the body.\<close>

record patch_request =
  pq_URL :: "string option"
  pq_ExpirationMins :: "int option"
  pq_Tags :: "string list option"
  pq_MaxClicks :: "int option"
  pq_Password :: "string option"
  pq_WebhookURL :: "string option"
  pq_RotateWebhook :: bool
  pq_Destinations :: "destination list option"

text \<open>The response map; \<^verbatim>\<open>webhook_secret\<close> is present only when one was generated.\<close>

record patch_response =
  pr_short_code :: string
  pr_original_url :: string
  pr_expires_at :: "time option"
  pr_tags :: "string list"
  pr_max_clicks :: int
  pr_has_password :: bool
  pr_webhook_url :: string
  pr_destinations :: "destination list"
  pr_webhook_secret :: "string option"

definition patch_empty :: "patch_request \<Rightarrow> bool" where
  "patch_empty q = (pq_URL q = None \<and> pq_ExpirationMins q = None \<and> pq_Tags q = None \<and> pq_MaxClicks q = None
     \<and> pq_Password q = None \<and> pq_WebhookURL q = None \<and> \<not> pq_RotateWebhook q \<and> pq_Destinations q = None)"

section \<open>The stages\<close>

definition patch_url :: "patch_cfg \<Rightarrow> env \<Rightarrow> patch_request \<Rightarrow> patch_response reply + string option" where
  "patch_url cfg env q =
     (case pq_URL q of
        None \<Rightarrow> Inr None
      | Some u \<Rightarrow>
          if u = '''' then Inl (WriteError 400 ''url must be non-empty when provided'')
          else (case ValidateDestinationURL (net_env.truncate env) (pc_denyList cfg) u of
              Some e \<Rightarrow> Inl (WriteError 400 (validationMessage e))
            | None \<Rightarrow> Inr (Some u)))"

text \<open>The new expiry and whether to clear it.\<close>

definition patch_expiration :: "patch_cfg \<Rightarrow> time \<Rightarrow> patch_request \<Rightarrow> patch_response reply + time option \<times> bool" where
  "patch_expiration cfg now q =
     (case pq_ExpirationMins q of
        None \<Rightarrow> Inr (None, False)
      | Some mins \<Rightarrow>
          if mins < 0 then Inl (WriteError 400 ''expiration_mins must be non-negative'')
          else if mins = 0 then Inr (None, True)
          else let mins' = (if mins > pc_maxExpirationMinutes cfg then pc_maxExpirationMinutes cfg else mins)
            in Inr (Some (now + minutes mins'), False))"

definition patch_tags :: "patch_request \<Rightarrow> patch_response reply + string list option" where
  "patch_tags q =
     (case pq_Tags q of
        None \<Rightarrow> Inr None
      | Some ts \<Rightarrow>
          (case NormalizeTags ts of
             Inl e \<Rightarrow> Inl (WriteError 400 (tagsMessage e))
           | Inr normalized \<Rightarrow> Inr (Some normalized)))"

definition patch_max_clicks :: "patch_request \<Rightarrow> url_mapping \<Rightarrow> patch_response reply + int option" where
  "patch_max_clicks q m =
     (case pq_MaxClicks q of
        None \<Rightarrow> Inr None
      | Some newCap \<Rightarrow>
          if newCap < 0 then Inl (WriteError 400 ''max_clicks must be non-negative'')
          else if newCap > 0 \<and> newCap \<le> m_ClickCount m
          then Inl (WriteError 400 ''max_clicks must exceed current click_count'')
          else Inr (Some newCap))"

text \<open>Hash (nil is \<open>None\<close>), salt, and whether to clear the password.\<close>

definition patch_password :: "env \<Rightarrow> bytes option \<Rightarrow> patch_request \<Rightarrow> patch_response reply + bytes option \<times> bytes \<times> bool" where
  "patch_password env rnd q =
     (case pq_Password q of
        None \<Rightarrow> Inr (None, [], False)
      | Some pw \<Rightarrow>
          if pw = '''' then Inr (None, [], True)
          else (case hashPassword env rnd pw of
              None \<Rightarrow> Inl (HttpError 500 ''Internal server error'')
            | Some (hash, salt) \<Rightarrow> Inr (Some hash, salt, False)))"

text \<open>URL, secret, whether to clear the webhook, and the secret to report.\<close>

type_synonym webhook_part = "string option \<times> bytes option \<times> bool \<times> bytes"

definition patch_webhook :: "patch_cfg \<Rightarrow> env \<Rightarrow> bytes option \<Rightarrow> patch_request \<Rightarrow> url_mapping
    \<Rightarrow> patch_response reply + webhook_part" where
  "patch_webhook cfg env rnd q m =
     (case pq_WebhookURL q of
        None \<Rightarrow> Inr (None, None, False, [])
      | Some u \<Rightarrow>
          if u = '''' then Inr (None, None, True, [])
          else (case ValidateDestinationURL (net_env.truncate env) (pc_denyList cfg) u of
              Some e \<Rightarrow> Inl (WriteError 400 (''webhook_url: '' @ validationMessage e))
            | None \<Rightarrow>
                if m_WebhookSecret m = [] \<or> pq_RotateWebhook q
                then (case generateWebhookSecret rnd of
                    None \<Rightarrow> Inl (HttpError 500 ''Internal server error'')
                  | Some secret \<Rightarrow> Inr (Some u, Some secret, False, secret))
                else Inr (Some u, Some (m_WebhookSecret m), False, [])))"

definition patch_destinations :: "patch_cfg \<Rightarrow> env \<Rightarrow> patch_request \<Rightarrow> patch_response reply + destination list option" where
  "patch_destinations cfg env q =
     (case pq_Destinations q of
        None \<Rightarrow> Inr None
      | Some ds \<Rightarrow>
          (case ValidateDestinations (net_env.truncate env) (pc_denyList cfg) ds of
             Inl e \<Rightarrow> Inl (WriteError 400 (''destinations: '' @ destinationsMessage e))
           | Inr dests \<Rightarrow> Inr (Some dests)))"

definition patch_rotate :: "bytes option \<Rightarrow> patch_request \<Rightarrow> url_mapping \<Rightarrow> webhook_part
    \<Rightarrow> patch_response reply + webhook_part" where
  "patch_rotate rnd q m w =
     (if pq_RotateWebhook q \<and> pq_WebhookURL q = None
      then if m_WebhookURL m = '''' then Inl (WriteError 400 ''webhook_rotate_secret requires an existing webhook_url'')
        else (case generateWebhookSecret rnd of
            None \<Rightarrow> Inl (HttpError 500 ''Internal server error'')
          | Some secret \<Rightarrow> Inr (Some (m_WebhookURL m), Some secret, False, secret))
      else Inr w)"

text \<open>The payload of \<^verbatim>\<open>Update\<close> and the new webhook secret (empty when none was generated).\<close>

definition patch_prepare :: "patch_cfg \<Rightarrow> env \<Rightarrow> bytes option \<Rightarrow> bytes option \<Rightarrow> time \<Rightarrow> patch_request \<Rightarrow> url_mapping
    \<Rightarrow> patch_response reply + update_fields \<times> bytes" where
  "patch_prepare cfg env salt rnd now q m =
     and_then (patch_url cfg env q) (\<lambda>url.
     and_then (patch_expiration cfg now q) (\<lambda>(expiry, clear).
     and_then (patch_tags q) (\<lambda>tags.
     and_then (patch_max_clicks q m) (\<lambda>cap.
     and_then (patch_password env salt q) (\<lambda>(pwHash, pwSalt, pwClear).
     and_then (patch_webhook cfg env rnd q m) (\<lambda>w.
     and_then (patch_destinations cfg env q) (\<lambda>dests.
     and_then (patch_rotate rnd q m w) (\<lambda>(whURL, whSecret, whClear, new).
       Inr (no_update\<lparr>f_OriginalURL := url, f_ExpiresAt := expiry, f_ClearExpiration := clear, f_Tags := tags,
              f_MaxClicks := cap, f_PasswordHash := pwHash, f_PasswordSalt := pwSalt, f_ClearPassword := pwClear,
              f_WebhookURL := whURL, f_WebhookSecret := whSecret, f_ClearWebhook := whClear,
              f_Destinations := dests\<rparr>, new)))))))))"

section \<open>The audit metadata\<close>

definition patch_changed :: "patch_request \<Rightarrow> string list" where
  "patch_changed q =
     (if pq_URL q \<noteq> None then [''url''] else []) @
     (if pq_ExpirationMins q \<noteq> None then [''expiration_mins''] else []) @
     (if pq_Tags q \<noteq> None then [''tags''] else []) @
     (if pq_MaxClicks q \<noteq> None then [''max_clicks''] else []) @
     (if pq_Password q \<noteq> None then [''password''] else []) @
     (if pq_WebhookURL q \<noteq> None then [''webhook_url''] else []) @
     (if pq_RotateWebhook q then [''webhook_rotate_secret''] else []) @
     (if pq_Destinations q \<noteq> None then [''destinations''] else [])"

text \<open>\<^verbatim>\<open>json.Marshal\<close> of the one-entry map; the names need no escapes.\<close>

definition json_name :: "string \<Rightarrow> string" where
  "json_name x = [CHR 0x22] @ x @ [CHR 0x22]"

fun json_names :: "string list \<Rightarrow> string" where
  "json_names [] = ''''"
| "json_names [x] = json_name x"
| "json_names (x # xs) = json_name x @ '','' @ json_names xs"

definition patch_metadata :: "patch_request \<Rightarrow> string" where
  "patch_metadata q = ''{'' @ json_name ''fields'' @ '':['' @ json_names (patch_changed q) @ '']}''"

section \<open>The handler\<close>

text \<open>
  Clocks: \<open>clk 0\<close> of the first \<^verbatim>\<open>Get\<close>, \<open>clk 1\<close> of the key lookup, \<open>clk 2\<close> of the new expiry,
  \<open>clk 3\<close> of \<^verbatim>\<open>Update\<close>, \<open>clk 4\<close> of the second \<^verbatim>\<open>Get\<close>, \<open>clk 5\<close> of \<^verbatim>\<open>resolveActor\<close>, \<open>clk 6\<close> of the
  audit write. \<open>salt\<close> and \<open>rnd\<close> are the outcomes of the two random reads.
\<close>

definition patch_response_of :: "url_mapping \<Rightarrow> bytes \<Rightarrow> patch_response" where
  "patch_response_of m new =
     \<lparr>pr_short_code = m_ID m, pr_original_url = m_OriginalURL m, pr_expires_at = m_ExpiresAt m,
       pr_tags = m_Tags m, pr_max_clicks = m_MaxClicks m, pr_has_password = (m_PasswordHash m \<noteq> []),
       pr_webhook_url = m_WebhookURL m, pr_destinations = m_Destinations m,
       pr_webhook_secret = (if new \<noteq> [] then Some (encodeWebhookSecret new) else None)\<rparr>"

definition patch_apply :: "'s store_ops \<Rightarrow> env \<Rightarrow> (nat \<Rightarrow> time) \<Rightarrow> request \<Rightarrow> patch_request \<Rightarrow> url_mapping
    \<Rightarrow> update_fields \<Rightarrow> bytes \<Rightarrow> 's \<Rightarrow> 's \<times> patch_response reply" where
  "patch_apply ops env clk r q m f new s =
     (case st_Update ops (clk 3) (r_Code r) f s of
        (s1, Some ErrNotFound) \<Rightarrow> (s1, NotFoundPage)
      | (s1, Some e) \<Rightarrow> (s1, HttpError 500 ''Internal server error'')
      | (s1, None) \<Rightarrow>
          (case st_Get ops (clk 4) (r_Code r) s1 of
             Inl e \<Rightarrow> (s1, HttpError 500 ''Internal server error'')
           | Inr updated \<Rightarrow>
               (case resolveActor ops env (clk 5) r (Some m) s1 of
                  (s2, actor) \<Rightarrow>
                    (logAuditBestEffort ops (clk 6)
                       (audit actor AuditActionURLPatch ''url'' (r_Code r) (patch_metadata q) (r_RequestID r)) s2,
                     Payload 200 (patch_response_of updated new)))))"

definition patch_ServeHTTP :: "'s store_ops \<Rightarrow> patch_cfg \<Rightarrow> env \<Rightarrow> bytes option \<Rightarrow> bytes option \<Rightarrow> (nat \<Rightarrow> time)
    \<Rightarrow> request \<Rightarrow> patch_request option \<Rightarrow> 's \<Rightarrow> 's \<times> patch_response reply" where
  "patch_ServeHTTP ops cfg env salt rnd clk r body s =
     (if r_Code r = '''' then (s, WriteError 400 ''Short code is required'')
      else case body of
        None \<Rightarrow> (s, WriteError 400 ''Invalid request body'')
      | Some q \<Rightarrow>
          if patch_empty q
          then (s, WriteError 400 ''Provide at least one of url, expiration_mins, tags, max_clicks, password, webhook_url, destinations'')
          else (case st_Get ops (clk 0) (r_Code r) s of
              Inl e \<Rightarrow> (s, get_error e)
            | Inr m \<Rightarrow>
                (case authorizeAccess ops env (clk 1) r m s of
                   (s1, False) \<Rightarrow> (s1, WriteError 401 ''missing or invalid admin token'')
                 | (s1, True) \<Rightarrow>
                     (case patch_prepare cfg env salt rnd (clk 2) q m of
                        Inl reply \<Rightarrow> (s1, reply)
                      | Inr (f, new) \<Rightarrow> patch_apply ops env clk r q m f new s1))))"

end
