(* ===== verification/Patch_Props.thy ===== *)
theory Patch_Props
  imports Patch
begin

text \<open>
  What a \<^verbatim>\<open>PATCH\<close> does: the mapping it leaves is the one the request describes (\<open>patched\<close>), field
  by field, and a request that is turned down leaves every mapping alone.
\<close>

section \<open>The specification\<close>

text \<open>Whether a webhook secret is generated: a new webhook, or an explicit rotation.\<close>

definition draws_secret :: "patch_request \<Rightarrow> url_mapping \<Rightarrow> bool" where
  "draws_secret q m = (case pq_WebhookURL q of
       None \<Rightarrow> pq_RotateWebhook q
     | Some u \<Rightarrow> u \<noteq> '''' \<and> (m_WebhookSecret m = [] \<or> pq_RotateWebhook q))"

definition patched_target :: "patch_cfg \<Rightarrow> env \<Rightarrow> patch_request \<Rightarrow> url_mapping \<Rightarrow> url_mapping \<Rightarrow> bool" where
  "patched_target cfg env q m m' =
     ((case pq_URL q of None \<Rightarrow> m_OriginalURL m' = m_OriginalURL m
       | Some u \<Rightarrow> u \<noteq> '''' \<and> ValidateDestinationURL (net_env.truncate env) (pc_denyList cfg) u = None \<and> m_OriginalURL m' = u)
     \<and> (case pq_Destinations q of None \<Rightarrow> m_Destinations m' = m_Destinations m
       | Some ds \<Rightarrow> ValidateDestinations (net_env.truncate env) (pc_denyList cfg) ds = Inr (m_Destinations m'))
     \<and> (case pq_Tags q of None \<Rightarrow> m_Tags m' = m_Tags m | Some ts \<Rightarrow> NormalizeTags ts = Inr (m_Tags m')))"

definition patched_limits :: "patch_cfg \<Rightarrow> time \<Rightarrow> patch_request \<Rightarrow> url_mapping \<Rightarrow> url_mapping \<Rightarrow> bool" where
  "patched_limits cfg now q m m' =
     ((case pq_ExpirationMins q of None \<Rightarrow> m_ExpiresAt m' = m_ExpiresAt m
       | Some n \<Rightarrow> 0 \<le> n \<and> m_ExpiresAt m' = (if n = 0 then None
           else Some (now + minutes (min n (pc_maxExpirationMinutes cfg)))))
     \<and> (case pq_MaxClicks q of None \<Rightarrow> m_MaxClicks m' = m_MaxClicks m
       | Some n \<Rightarrow> m_MaxClicks m' = n \<and> (n = 0 \<or> m_ClickCount m < n \<and> 0 < n)))"

definition patched_secrets :: "patch_cfg \<Rightarrow> env \<Rightarrow> bytes option \<Rightarrow> bytes option \<Rightarrow> patch_request \<Rightarrow> url_mapping
    \<Rightarrow> url_mapping \<Rightarrow> bool" where
  "patched_secrets cfg env salt rnd q m m' =
     ((case pq_Password q of None \<Rightarrow> m_PasswordHash m' = m_PasswordHash m \<and> m_PasswordSalt m' = m_PasswordSalt m
       | Some pw \<Rightarrow> if pw = '''' then m_PasswordHash m' = [] \<and> m_PasswordSalt m' = []
           else salt = Some (m_PasswordSalt m') \<and> e_pbkdf2 env pw (m_PasswordSalt m') = Some (m_PasswordHash m'))
     \<and> (case pq_WebhookURL q of None \<Rightarrow> m_WebhookURL m' = m_WebhookURL m \<and> (pq_RotateWebhook q \<longrightarrow> m_WebhookURL m \<noteq> '''')
       | Some u \<Rightarrow> m_WebhookURL m' = u
           \<and> (u \<noteq> '''' \<longrightarrow> ValidateDestinationURL (net_env.truncate env) (pc_denyList cfg) u = None))
     \<and> (if draws_secret q m then rnd = Some (m_WebhookSecret m')
        else m_WebhookSecret m' = (if pq_WebhookURL q = Some '''' then [] else m_WebhookSecret m)))"

text \<open>The last conjunct is the frame: no other field changes.\<close>

definition patched :: "patch_cfg \<Rightarrow> env \<Rightarrow> bytes option \<Rightarrow> bytes option \<Rightarrow> time \<Rightarrow> patch_request \<Rightarrow> url_mapping
    \<Rightarrow> url_mapping \<Rightarrow> bool" where
  "patched cfg env salt rnd now q m m' =
     (patched_target cfg env q m m' \<and> patched_limits cfg now q m m' \<and> patched_secrets cfg env salt rnd q m m'
      \<and> m' = m\<lparr>m_OriginalURL := m_OriginalURL m', m_ExpiresAt := m_ExpiresAt m', m_Tags := m_Tags m',
          m_MaxClicks := m_MaxClicks m', m_PasswordHash := m_PasswordHash m', m_PasswordSalt := m_PasswordSalt m',
          m_WebhookURL := m_WebhookURL m', m_WebhookSecret := m_WebhookSecret m', m_Destinations := m_Destinations m'\<rparr>)"

section \<open>The stages meet it\<close>

lemma patch_url_Inr: "patch_url cfg env q = Inr u \<Longrightarrow> u = pq_URL q \<and>
    (\<forall>x. u = Some x \<longrightarrow> x \<noteq> '''' \<and> ValidateDestinationURL (net_env.truncate env) (pc_denyList cfg) x = None)"
  by (auto simp: patch_url_def split: option.splits if_splits)

lemma patch_expiration_Inr: "patch_expiration cfg now q = Inr (e, c) \<Longrightarrow>
    (case pq_ExpirationMins q of None \<Rightarrow> e = None \<and> \<not> c
     | Some n \<Rightarrow> 0 \<le> n \<and> (if n = 0 then e = None \<and> c
         else e = Some (now + minutes (min n (pc_maxExpirationMinutes cfg))) \<and> \<not> c))"
  by (auto simp: patch_expiration_def Let_def min_def split: option.splits if_splits)

lemma patch_tags_Inr: "patch_tags q = Inr ts \<Longrightarrow>
    (case pq_Tags q of None \<Rightarrow> ts = None | Some xs \<Rightarrow> \<exists>n. NormalizeTags xs = Inr n \<and> ts = Some n)"
  by (auto simp: patch_tags_def split: option.splits sum.splits)

lemma patch_max_clicks_Inr: "patch_max_clicks q m = Inr c \<Longrightarrow> c = pq_MaxClicks q \<and>
    (\<forall>n. c = Some n \<longrightarrow> n = 0 \<or> m_ClickCount m < n \<and> 0 < n)"
  by (auto simp: patch_max_clicks_def split: option.splits if_splits)

lemma patch_password_Inr: "patch_password env salt q = Inr (h, s, c) \<Longrightarrow>
    (case pq_Password q of None \<Rightarrow> h = None \<and> \<not> c
     | Some pw \<Rightarrow> if pw = '''' then c else \<not> c \<and> salt = Some s \<and> (\<exists>k. e_pbkdf2 env pw s = Some k \<and> h = Some k))"
  by (auto simp: patch_password_def hashPassword_def split: option.splits if_splits)

lemma patch_webhook_Inr: "patch_webhook cfg env rnd q m = Inr (u, s, c, new) \<Longrightarrow>
    (case pq_WebhookURL q of None \<Rightarrow> u = None \<and> s = None \<and> \<not> c \<and> new = []
     | Some x \<Rightarrow> if x = '''' then c \<and> new = []
         else \<not> c \<and> u = Some x \<and> ValidateDestinationURL (net_env.truncate env) (pc_denyList cfg) x = None
           \<and> (if m_WebhookSecret m = [] \<or> pq_RotateWebhook q then rnd = Some new \<and> s = Some new
              else new = [] \<and> s = Some (m_WebhookSecret m)))"
  by (auto simp: patch_webhook_def generateWebhookSecret_def split: option.splits if_splits)

lemma patch_destinations_Inr: "patch_destinations cfg env q = Inr ds \<Longrightarrow>
    (case pq_Destinations q of None \<Rightarrow> ds = None
     | Some xs \<Rightarrow> \<exists>n. ValidateDestinations (net_env.truncate env) (pc_denyList cfg) xs = Inr n \<and> ds = Some n)"
  by (auto simp: patch_destinations_def split: option.splits sum.splits)

lemma patch_rotate_Inr: "patch_rotate rnd q m w = Inr (u, s, c, new) \<Longrightarrow>
    (if pq_RotateWebhook q \<and> pq_WebhookURL q = None
     then m_WebhookURL m \<noteq> '''' \<and> u = Some (m_WebhookURL m) \<and> rnd = Some new \<and> s = Some new \<and> \<not> c
     else w = (u, s, c, new))"
  by (auto simp: patch_rotate_def generateWebhookSecret_def split: option.splits if_splits)

lemma patch_stage_Inl:
  "patch_url cfg env q = Inl r1 \<Longrightarrow> status_of r1 \<in> {400, 500}"
  "patch_expiration cfg now q = Inl r2 \<Longrightarrow> status_of r2 \<in> {400, 500}"
  "patch_tags q = Inl r3 \<Longrightarrow> status_of r3 \<in> {400, 500}"
  "patch_max_clicks q m = Inl r4 \<Longrightarrow> status_of r4 \<in> {400, 500}"
  "patch_password env salt q = Inl r5 \<Longrightarrow> status_of r5 \<in> {400, 500}"
  "patch_webhook cfg env rnd q m = Inl r6 \<Longrightarrow> status_of r6 \<in> {400, 500}"
  "patch_destinations cfg env q = Inl r7 \<Longrightarrow> status_of r7 \<in> {400, 500}"
  "patch_rotate rnd q m w = Inl r8 \<Longrightarrow> status_of r8 \<in> {400, 500}"
  by (auto simp: patch_url_def patch_expiration_def patch_tags_def patch_max_clicks_def patch_password_def
      patch_webhook_def patch_destinations_def patch_rotate_def Let_def split: option.splits sum.splits if_splits)

lemma patch_prepare_Inl: "patch_prepare cfg env salt rnd now q m = Inl r \<Longrightarrow> status_of r \<in> {400, 500}"
  unfolding patch_prepare_def and_then_Inl by (auto dest: patch_stage_Inl split: prod.splits simp: and_then_Inl)

lemma patch_prepare_Inr:
  assumes "patch_prepare cfg env salt rnd now q m = Inr (f, new)"
  obtains u e c ts cap h s pc w ds wu ws wc where
    "patch_url cfg env q = Inr u" "patch_expiration cfg now q = Inr (e, c)" "patch_tags q = Inr ts"
    "patch_max_clicks q m = Inr cap" "patch_password env salt q = Inr (h, s, pc)"
    "patch_webhook cfg env rnd q m = Inr w" "patch_destinations cfg env q = Inr ds"
    "patch_rotate rnd q m w = Inr (wu, ws, wc, new)"
    "f = no_update\<lparr>f_OriginalURL := u, f_ExpiresAt := e, f_ClearExpiration := c, f_Tags := ts,
        f_MaxClicks := cap, f_PasswordHash := h, f_PasswordSalt := s, f_ClearPassword := pc,
        f_WebhookURL := wu, f_WebhookSecret := ws, f_ClearWebhook := wc, f_Destinations := ds\<rparr>"
  using assms by (auto simp: patch_prepare_def and_then_Inr)

lemma no_update_fields [simp]:
  "f_APIKeyID no_update = None" "f_PreviewTitle no_update = None" "f_PreviewImage no_update = None"
  "f_PreviewDescription no_update = None" "f_SetPreviewFetched no_update = False"
  by (simp_all add: no_update_def)

lemma patch_prepare_target:
  assumes "patch_prepare cfg env salt rnd now q m = Inr (f, new)"
  shows "patched_target cfg env q m (apply_update t f m)"
  using assms
proof (cases rule: patch_prepare_Inr)
  case (1 u e c ts cap h s pc w ds wu ws wc)
  then show ?thesis
    using patch_url_Inr [OF 1(1)] patch_tags_Inr [OF 1(3)] patch_destinations_Inr [OF 1(7)]
    by (auto simp: patched_target_def apply_update_fields split: option.splits)
qed

lemma patch_prepare_limits:
  assumes "patch_prepare cfg env salt rnd now q m = Inr (f, new)"
  shows "patched_limits cfg now q m (apply_update t f m)"
  using assms
proof (cases rule: patch_prepare_Inr)
  case (1 u e c ts cap h s pc w ds wu ws wc)
  then show ?thesis
    using patch_expiration_Inr [OF 1(2)] patch_max_clicks_Inr [OF 1(4)]
    by (auto simp: patched_limits_def apply_update_fields split: option.splits if_splits)
qed

lemma patch_prepare_secrets:
  assumes "patch_prepare cfg env salt rnd now q m = Inr (f, new)"
  shows "patched_secrets cfg env salt rnd q m (apply_update t f m)"
  using assms
proof (cases rule: patch_prepare_Inr)
  case (1 u e c ts cap h s pc w ds wu ws wc)
  obtain u0 s0 c0 n0 where w: "w = (u0, s0, c0, n0)" by (cases w)
  have pw: "case pq_Password q of
      None \<Rightarrow> m_PasswordHash (apply_update t f m) = m_PasswordHash m \<and> m_PasswordSalt (apply_update t f m) = m_PasswordSalt m
    | Some pw \<Rightarrow> if pw = '''' then m_PasswordHash (apply_update t f m) = [] \<and> m_PasswordSalt (apply_update t f m) = []
        else salt = Some (m_PasswordSalt (apply_update t f m))
          \<and> e_pbkdf2 env pw (m_PasswordSalt (apply_update t f m)) = Some (m_PasswordHash (apply_update t f m))"
    using patch_password_Inr [OF 1(5)] 1(9) by (auto simp: apply_update_fields split: option.splits if_splits)
  show ?thesis
    using pw patch_webhook_Inr [OF 1(6) [unfolded w]] patch_rotate_Inr [OF 1(8) [unfolded w]] 1(9)
    unfolding patched_secrets_def
    by (auto simp: draws_secret_def apply_update_webhook split: option.splits if_splits)
qed

lemma patch_prepare_new:
  assumes "patch_prepare cfg env salt rnd now q m = Inr (f, new)"
  shows "new = (if draws_secret q m then m_WebhookSecret (apply_update t f m) else [])"
  using assms
proof (cases rule: patch_prepare_Inr)
  case (1 u e c ts cap h s pc w ds wu ws wc)
  obtain u0 s0 c0 n0 where w: "w = (u0, s0, c0, n0)" by (cases w)
  show ?thesis
    using patch_webhook_Inr [OF 1(6) [unfolded w]] patch_rotate_Inr [OF 1(8) [unfolded w]] 1(9)
    by (auto simp: draws_secret_def apply_update_webhook split: option.splits if_splits)
qed

lemma patch_prepare_patched:
  assumes "patch_prepare cfg env salt rnd now q m = Inr (f, new)"
  shows "patched cfg env salt rnd now q m (apply_update t f m)"
proof -
  from assms have "apply_update t f m = m\<lparr>m_OriginalURL := m_OriginalURL (apply_update t f m),
      m_ExpiresAt := m_ExpiresAt (apply_update t f m), m_Tags := m_Tags (apply_update t f m),
      m_MaxClicks := m_MaxClicks (apply_update t f m), m_PasswordHash := m_PasswordHash (apply_update t f m),
      m_PasswordSalt := m_PasswordSalt (apply_update t f m), m_WebhookURL := m_WebhookURL (apply_update t f m),
      m_WebhookSecret := m_WebhookSecret (apply_update t f m), m_Destinations := m_Destinations (apply_update t f m)\<rparr>"
    by (cases rule: patch_prepare_Inr) (rule mapping_eqI; simp add: apply_update_fields(7) apply_update_preview)
  then show ?thesis
    using patch_prepare_target [OF assms] patch_prepare_limits [OF assms] patch_prepare_secrets [OF assms]
    unfolding patched_def by blast
qed

lemma patch_prepare_paired:
  assumes "patch_prepare cfg env salt rnd now q m = Inr (f, new)"
  shows "paired f"
  using assms
proof (cases rule: patch_prepare_Inr)
  case (1 u e c ts cap h s pc w ds wu ws wc)
  obtain u0 s0 c0 n0 where w: "w = (u0, s0, c0, n0)" by (cases w)
  show ?thesis
    using patch_webhook_Inr [OF 1(6) [unfolded w]] patch_rotate_Inr [OF 1(8) [unfolded w]] 1(9)
    by (auto simp: paired_def split: option.splits if_splits)
qed

section \<open>The handler\<close>

context key_store
begin

lemma patch_apply_spec:
  assumes "valid s" and "view s (r_Code r) = Some m" and "paired f" and "patch_apply ops env clk r q m f new s = (s', reply)"
  shows "valid s' \<and> owner s' = owner s \<and> view s' = (view s)(r_Code r \<mapsto> norm_mapping norm (apply_update (clk 3) f m))
    \<and> (if expired_at (clk 4) (norm_mapping norm (apply_update (clk 3) f m)) then status_of reply = 500
       else reply = Payload 200 (patch_response_of (norm_mapping norm (apply_update (clk 3) f m)) new))"
proof -
  obtain s1 where s1: "st_Update ops (clk 3) (r_Code r) f s = (s1, None)"
    using update_result [OF assms(1), of "clk 3" "r_Code r" f] assms(2) by (cases "st_Update ops (clk 3) (r_Code r) f s") simp
  have v1: "valid s1" "view s1 = (view s)(r_Code r \<mapsto> norm_mapping norm (apply_update (clk 3) f m))" "owner s1 = owner s"
    using update_valid [OF assms(1), of "clk 3" "r_Code r" f] update_view [OF assms(1,3), of "clk 3" "r_Code r"]
      update_owner [OF assms(1), of "clk 3" "r_Code r" f] s1 assms(2,3) by simp_all
  show ?thesis
  proof (cases "expired_at (clk 4) (norm_mapping norm (apply_update (clk 3) f m))")
    case True
    then have "st_Get ops (clk 4) (r_Code r) s1 = Inl ErrExpired" using get_spec [OF v1(1)] v1(2) by simp
    then show ?thesis using True s1 v1 assms(4) by (auto simp: patch_apply_def)
  next
    case False
    then have g: "st_Get ops (clk 4) (r_Code r) s1 = Inr (norm_mapping norm (apply_update (clk 3) f m))" using get_spec [OF v1(1)] v1(2) by simp
    obtain s2 actor where s2: "resolveActor ops env (clk 5) r (Some m) s1 = (s2, actor)"
      by (cases "resolveActor ops env (clk 5) r (Some m) s1")
    from resolveActor_frame [OF v1(1) s2] have v2: "valid s2" "view s2 = view s1" "owner s2 = owner s1" by simp_all
    show ?thesis using False s1 g s2 v1 v2 assms(4) logAudit_frame [OF v2(1)] by (auto simp: patch_apply_def)
  qed
qed

lemma patch_spec:
  assumes "valid s" and "patch_ServeHTTP ops cfg env salt rnd clk r body s = (s', reply)"
  shows "valid s' \<and> owner s' = owner s
    \<and> (view s' = view s \<and> status_of reply \<in> {400, 401, 404, 410, 500}
       \<or> (\<exists>q m m'. body = Some q \<and> may_act (view s) (owner s) env (clk 0) r m
           \<and> patched cfg env salt rnd (clk 2) q m m' \<and> view s' = (view s)(r_Code r \<mapsto> norm_mapping norm m')
           \<and> (if expired_at (clk 4) (norm_mapping norm m') then status_of reply = 500
              else reply = Payload 200 (patch_response_of (norm_mapping norm m') (if draws_secret q m then m_WebhookSecret m' else [])))))"
proof (cases "r_Code r = '''' \<or> (case body of None \<Rightarrow> True | Some q \<Rightarrow> patch_empty q)")
  case True
  then have "s' = s" "status_of reply = 400" using assms(2)
    by (auto simp: patch_ServeHTTP_def split: option.splits if_split_asm)
  then show ?thesis using assms(1) by simp
next
  case False
  then obtain q where q: "body = Some q" "\<not> patch_empty q" "r_Code r \<noteq> ''''" by (auto split: option.splits)
  show ?thesis
  proof (cases "st_Get ops (clk 0) (r_Code r) s")
    case (Inl e)
    then have "s' = s" "reply = get_error e" using q assms(2) by (simp_all add: patch_ServeHTTP_def)
    then show ?thesis using assms(1) get_error_status [where 'a = patch_response, of e] by auto
  next
    case (Inr m)
    note m = get_Inr [OF assms(1) Inr]
    obtain s1 b where a: "authorizeAccess ops env (clk 1) r m s = (s1, b)"
      by (cases "authorizeAccess ops env (clk 1) r m s")
    from authorizeAccess_frame [OF assms(1) a] have s1: "valid s1" "view s1 = view s" "owner s1 = owner s" by simp_all
    show ?thesis
    proof (cases b)
      case False
      then have "s' = s1" "status_of reply = 401" using q Inr a assms(2) by (auto simp: patch_ServeHTTP_def)
      then show ?thesis using s1 by simp
    next
      case True
      then have act: "may_act (view s) (owner s) env (clk 0) r m"
        using authorizeAccess_iff [OF assms(1), of env "clk 1" r m] a m q by (simp add: may_act_def)
      show ?thesis
      proof (cases "patch_prepare cfg env salt rnd (clk 2) q m")
        case (Inl e)
        then have "s' = s1" "status_of reply \<in> {400, 500}"
          using q Inr a True assms(2) patch_prepare_Inl [OF Inl] by (simp_all add: patch_ServeHTTP_def)
        then show ?thesis using s1 by auto
      next
        case prep: (Inr fn)
        obtain f new where fn: "fn = (f, new)" by (cases fn)
        note prep = prep [unfolded fn]
        have "patch_apply ops env clk r q m f new s1 = (s', reply)"
          using q Inr a True prep assms(2) by (simp add: patch_ServeHTTP_def)
        from patch_apply_spec [OF s1(1) _ patch_prepare_paired [OF prep] this] m s1
        have "valid s' \<and> owner s' = owner s \<and> view s' = (view s)(r_Code r \<mapsto> norm_mapping norm (apply_update (clk 3) f m))
          \<and> (if expired_at (clk 4) (norm_mapping norm (apply_update (clk 3) f m)) then status_of reply = 500
             else reply = Payload 200 (patch_response_of (norm_mapping norm (apply_update (clk 3) f m)) new))" by simp
        then show ?thesis
          using act q(1) patch_prepare_patched [OF prep, of "clk 3"] patch_prepare_new [OF prep, of "clk 3"] by blast
      qed
    qed
  qed
qed

end

section \<open>The properties, for the memory backend\<close>

text \<open>
  C8. \<^verbatim>\<open>PATCH\<close> either changes no mapping and answers an error, or it was authorised for a live
  mapping and replaces it by the one the request describes: mentioned fields as asked (expiry
  capped, a new cap above the click count, validated destinations, a webhook secret exactly when
  one is due), every other field kept. It answers that mapping with 200, or 500 if the mapping
  expired before it was read back.
\<close>
theorem patch_exact:
  assumes "mem_inv s" and "patch_ServeHTTP mem_ops cfg env salt rnd clk r body s = (s', reply)"
  shows "mem_view s' = mem_view s \<and> status_of reply \<in> {400, 401, 404, 410, 500}
    \<or> (\<exists>q m m'. body = Some q \<and> may_act (mem_view s) (mem_owner s) env (clk 0) r m
        \<and> patched cfg env salt rnd (clk 2) q m m' \<and> mem_view s' = (mem_view s)(r_Code r \<mapsto> m')
        \<and> (if expired_at (clk 4) m' then status_of reply = 500
           else reply = Payload 200 (patch_response_of m' (if draws_secret q m then m_WebhookSecret m' else []))))"
  using mem.patch_spec [OF assms] by blast

definition sample_patch :: patch_request where
  "sample_patch = \<lparr>pq_URL = None, pq_ExpirationMins = Some 0, pq_Tags = Some [], pq_MaxClicks = Some 9,
     pq_Password = None, pq_WebhookURL = None, pq_RotateWebhook = False, pq_Destinations = None\<rparr>"

definition sample_patch_cfg :: patch_cfg where
  "sample_patch_cfg = \<lparr>pc_maxExpirationMinutes = 60, pc_denyList = None\<rparr>"

theorem patch_exact_witness:
  "case mem_view (fst (patch_ServeHTTP mem_ops sample_patch_cfg sample_env None None (\<lambda>i. 2000)
        (bearer_request ''promo'' ''AQID'') (Some sample_patch) promo_store)) ''promo'' of
     None \<Rightarrow> False | Some m' \<Rightarrow> m_MaxClicks m' = 9 \<and> m_ExpiresAt m' = None \<and> m_Tags m' = []"
proof -
  let ?p = "patch_ServeHTTP mem_ops sample_patch_cfg sample_env None None (\<lambda>i. 2000)
    (bearer_request ''promo'' ''AQID'') (Some sample_patch) promo_store"
  obtain s' reply where p: "?p = (s', reply)" by (cases ?p)
  have "status_of (snd ?p) = 200" by code_simp
  then have "status_of reply = 200" using p by simp
  then obtain m m' where "patched sample_patch_cfg sample_env None None 2000 sample_patch m m'"
      and v: "mem_view s' = (mem_view promo_store)(r_Code (bearer_request ''promo'' ''AQID'') \<mapsto> m')"
    using patch_exact [OF promo_inv p] by fastforce
  then have "m_MaxClicks m' = 9 \<and> m_ExpiresAt m' = None \<and> m_Tags m' = []"
    by (simp add: patched_def patched_target_def patched_limits_def sample_patch_def NormalizeTags_def)
  then show ?thesis using v p by (simp add: bearer_request_def)
qed

text \<open>A refused request has at most looked its bearer up.\<close>

lemma delete_refused:
  assumes "mem_inv s" and gate: "\<And>m t. mem_view s (r_Code r) = Some m \<Longrightarrow> \<not> snd (authorizeAccess mem_ops env t r m s)"
    and "delete_ServeHTTP mem_ops env clk r s = (s', reply)"
  shows "only_stamped env r s s'"
proof (cases "mem_Get (clk 0) (r_Code r) s")
  case (Inl e)
  then show ?thesis using assms(3) by (auto simp: delete_ServeHTTP_def Let_def only_stamped_refl split: if_splits)
next
  case (Inr m)
  obtain s1 b where a: "authorizeAccess mem_ops env (clk 1) r m s = (s1, b)" by (cases "authorizeAccess mem_ops env (clk 1) r m s")
  have "\<not> b" using gate [of m "clk 1"] mem.get_Inr [OF assms(1), of "clk 0" "r_Code r" m] Inr a by simp
  then have "s' = s \<or> s' = s1" using assms(3) Inr a by (auto simp: delete_ServeHTTP_def Let_def split: if_splits)
  then show ?thesis using authorizeAccess_stamps [OF assms(1) a] only_stamped_refl by blast
qed

lemma patch_refused:
  assumes "mem_inv s" and gate: "\<And>m t. mem_view s (r_Code r) = Some m \<Longrightarrow> \<not> snd (authorizeAccess mem_ops env t r m s)"
    and "patch_ServeHTTP mem_ops cfg env salt rnd clk r body s = (s', reply)"
  shows "only_stamped env r s s'"
proof (cases "mem_Get (clk 0) (r_Code r) s")
  case (Inl e)
  then show ?thesis using assms(3) by (auto simp: patch_ServeHTTP_def only_stamped_refl split: if_splits option.splits)
next
  case (Inr m)
  obtain s1 b where a: "authorizeAccess mem_ops env (clk 1) r m s = (s1, b)" by (cases "authorizeAccess mem_ops env (clk 1) r m s")
  have "\<not> b" using gate [of m "clk 1"] mem.get_Inr [OF assms(1), of "clk 0" "r_Code r" m] Inr a by simp
  then have "s' = s \<or> s' = s1" using assms(3) Inr a by (auto simp: patch_ServeHTTP_def split: if_splits option.splits)
  then show ?thesis using authorizeAccess_stamps [OF assms(1) a] only_stamped_refl by blast
qed

text \<open>
  C9. Nothing is changed without the credential: if the bearer is neither the owner token of the
  mapping at the requested code nor a live key it is bound to, then \<^verbatim>\<open>rotate\<close> leaves the store exactly as
  it was, and \<^verbatim>\<open>DELETE\<close> and \<^verbatim>\<open>PATCH\<close> leave it as it was except that, if the bearer is a live key at all,
  its time of last use may be stamped: no mapping, click event, audit event or other key changes, and
  that key keeps its ID, hash, label and creation time. None of them answers a success.
\<close>
theorem no_change_without_credential:
  assumes "mem_inv s"
    and "\<forall>m tok h. mem_view s (r_Code r) = Some m \<longrightarrow> extractBearer env r = Some (tok, h) \<longrightarrow> \<not> grants (mem_owner s) m h"
    and "delete_ServeHTTP mem_ops env clk r s = (s1, reply1)"
    and "patch_ServeHTTP mem_ops cfg env salt rnd clk r body s = (s2, reply2)"
    and "rotate_ServeHTTP mem_ops env rnd clk r s = (s3, reply3)"
  shows "only_stamped env r s s1 \<and> only_stamped env r s s2 \<and> s3 = s
    \<and> mem_view s1 = mem_view s \<and> mem_view s2 = mem_view s
    \<and> mem_owner s1 = mem_owner s \<and> mem_owner s2 = mem_owner s
    \<and> 400 \<le> status_of reply1 \<and> 400 \<le> status_of reply2 \<and> 400 \<le> status_of reply3"
proof -
  have no: "\<not> may_act (mem_view s) (mem_owner s) env (clk 0) r m" for m
    using assms(2) by (auto simp: may_act_def)
  then have no_ex: "\<not> (\<exists>m. may_act (mem_view s) (mem_owner s) env (clk 0) r m)" by blast
  have 1: "mem_owner s1 = mem_owner s \<and> status_of reply1 \<in> {400, 401, 404, 410, 500} \<and> mem_view s1 = mem_view s"
    using mem.delete_spec [OF assms(1,3)] by (simp only: if_not_P [OF no_ex])
  have 2: "mem_owner s2 = mem_owner s \<and> status_of reply2 \<in> {400, 401, 404, 410, 500} \<and> mem_view s2 = mem_view s"
    using mem.patch_spec [OF assms(1,4)] no by blast
  have no_owner: "\<not> authorizeOwner env r (m_OwnerTokenHash m)" if "mem_view s (r_Code r) = Some m" for m
    using that assms(2) by (auto simp: authorizeOwner_def grants_def split: option.splits if_splits)
  then have no_rotate: "\<not> (r_Code r \<noteq> '''' \<and> rnd \<noteq> None \<and> (\<exists>m. mem_view s (r_Code r) = Some m \<and> \<not> expired_at (clk 0) m
      \<and> authorizeOwner env r (m_OwnerTokenHash m)))" by blast
  have 3: "status_of reply3 \<in> {400, 401, 404, 410, 500} \<and> s3 = s"
    using mem.rotate_spec [OF assms(1,5)] by (simp only: if_not_P [OF no_rotate])
  have gate: "\<not> snd (authorizeAccess mem_ops env t r m s)" if "mem_view s (r_Code r) = Some m" for m t
    using that assms(2) mem.authorizeAccess_iff [OF assms(1)] by blast
  have "only_stamped env r s s1" by (rule delete_refused [OF assms(1) gate assms(3)])
  moreover have "only_stamped env r s s2" by (rule patch_refused [OF assms(1) gate assms(4)])
  ultimately show ?thesis using 1 2 3 by auto
qed

theorem no_change_without_credential_witness:
  "mem_view (fst (patch_ServeHTTP mem_ops sample_patch_cfg sample_env None None (\<lambda>i. 2000)
     (bearer_request ''promo'' ''no'') (Some sample_patch) promo_store)) = mem_view promo_store"
proof -
  let ?r = "bearer_request ''promo'' ''no''"
  obtain s1 reply1 where 1: "delete_ServeHTTP mem_ops sample_env (\<lambda>i. 2000) ?r promo_store = (s1, reply1)"
    by (cases "delete_ServeHTTP mem_ops sample_env (\<lambda>i. 2000) ?r promo_store")
  obtain s2 reply2 where 2: "patch_ServeHTTP mem_ops sample_patch_cfg sample_env None None (\<lambda>i. 2000) ?r (Some sample_patch)
      promo_store = (s2, reply2)"
    by (cases "patch_ServeHTTP mem_ops sample_patch_cfg sample_env None None (\<lambda>i. 2000) ?r (Some sample_patch) promo_store")
  obtain s3 reply3 where 3: "rotate_ServeHTTP mem_ops sample_env None (\<lambda>i. 2000) ?r promo_store = (s3, reply3)"
    by (cases "rotate_ServeHTTP mem_ops sample_env None (\<lambda>i. 2000) ?r promo_store")
  have eb: "extractBearer sample_env ?r = Some (''no'', [2, 7])" by code_simp
  have mv: "map_option (\<lambda>m. (m_OwnerTokenHash m, m_APIKeyID m)) (mem_view promo_store ''promo'') = Some ([4, 7], 0)" by code_simp
  have c: "r_Code ?r = ''promo''" by (simp add: bearer_request_def)
  have "\<not> grants (mem_owner promo_store) m h"
    if "mem_view promo_store (r_Code ?r) = Some m" "extractBearer sample_env ?r = Some (tok, h)" for m tok h
    using that eb mv c by (auto simp: grants_def)
  then have "mem_view s2 = mem_view promo_store"
    using no_change_without_credential [OF promo_inv _ 1 2 3] by blast
  then show ?thesis using 2 by simp
qed

end
