(* ===== verification/Mem_Props.thy ===== *)
theory Mem_Props
  imports Mem_Runs
begin

text \<open>
  Further properties of the memory store: the invariant over runs, the audit log as pages of an
  unbounded history, the click histogram as exact counts, the listing of a key's mappings, key
  IDs, and what the cleanup pass leaves behind.
\<close>

section \<open>The invariant over runs\<close>

text \<open>
  C14. In every state the store can reach: every mapping sits under its own code, live keys have
  pairwise different token hashes and IDs between 1 and the counter, no code has more than 1000
  click events, and the audit log holds at most 1000 events whose IDs are the last consecutive
  numbers of the counter.
\<close>
theorem run_invariant:
  assumes "mem_trace cs s"
  shows "mem_inv s"
  using assms by (rule trace_inv)

theorem run_invariant_witness: "mem_inv clicked_twice"
  by (rule run_invariant [OF clicked_twice_trace])

section \<open>Key IDs\<close>

text \<open>
  A key ID is never handed out twice, whatever the store does in between (revoking the
  earlier key included): the ID of a key created later is larger.
\<close>
theorem key_ids_increase:
  assumes "mem_CreateAPIKey t l h s = (s1, Inr k)"
    and "mem_CreateAPIKey t' l' h' (fold exec_call cs s1) = (s2, Inr k')"
  shows "k_ID k < k_ID k'"
proof -
  have "k_ID k = s_nextKeyID s1" using assms(1) by (auto simp: mem_CreateAPIKey_def Let_def)
  moreover have "k_ID k' = s_nextKeyID (fold exec_call cs s1) + 1"
    using assms(2) by (auto simp: mem_CreateAPIKey_def Let_def)
  ultimately show ?thesis using fold_calls_nextKeyID [of s1 cs] by simp
qed

definition one_key :: mem_store where
  "one_key = fst (mem_CreateAPIKey 5 ''ci'' [1] NewMemoryStore)"

theorem key_ids_increase_witness:
  "case (snd (mem_CreateAPIKey 5 ''ci'' [1] NewMemoryStore),
     snd (mem_CreateAPIKey 9 ''ci'' [2] (fold exec_call [CDeleteKey 1] one_key))) of
     (Inr k, Inr k') \<Rightarrow> k_ID k < k_ID k' | _ \<Rightarrow> False"
proof -
  let ?r = "\<lambda>t h s. mem_CreateAPIKey t ''ci'' h s"
  obtain s1 k where r1: "?r 5 [1] NewMemoryStore = (s1, Inr k)" "s1 = one_key"
    by (simp add: mem_CreateAPIKey_def NewMemoryStore_def one_key_def Let_def)
  obtain s2 k' where r2: "?r 9 [2] (fold exec_call [CDeleteKey 1] s1) = (s2, Inr k')"
    by (simp add: mem_CreateAPIKey_def Let_def)
  show ?thesis using key_ids_increase [OF r1(1) r2] r1 r2 by simp
qed

section \<open>The audit log\<close>

text \<open>The specification of the audit log keeps every event, as stored.\<close>

definition stored_event :: "time \<Rightarrow> int \<Rightarrow> audit_event \<Rightarrow> audit_event" where
  "stored_event now i e = e\<lparr>a_ID := i, a_At := Some (opt_or now (a_At e))\<rparr>"

fun audit_call :: "mem_call \<Rightarrow> audit_event list \<Rightarrow> audit_event list" where
  "audit_call (CAudit t e) H = H @ [stored_event t (int (length H) + 1) e]"
| "audit_call _ H = H"

definition audit_refines :: "mem_store \<Rightarrow> audit_event list \<Rightarrow> bool" where
  "audit_refines s H = (s_audit s = last_n memoryAuditCap H \<and> s_nextAuditID s = int (length H))"

lemma exec_call_audit_frame:
  "\<forall>t e. c \<noteq> CAudit t e \<Longrightarrow> s_audit (exec_call c s) = s_audit s \<and> s_nextAuditID (exec_call c s) = s_nextAuditID s"
  by (cases c) (auto simp: mem_url_defs mem_key_defs mem_cleanupExpired_def Let_def split: option.split)

lemma audit_call_refines: "audit_refines s H \<Longrightarrow> audit_refines (exec_call c s) (audit_call c H)"
proof (cases "\<exists>t e. c = CAudit t e")
  case True
  then obtain t e where c: "c = CAudit t e" by blast
  assume r: "audit_refines s H"
  have "(case a_At e of None \<Rightarrow> Some t | Some u \<Rightarrow> Some u) = Some (opt_or t (a_At e))"
    by (cases "a_At e") simp_all
  then show ?thesis using r
    by (simp add: c audit_refines_def mem_LogAudit_def Let_def stored_event_def push_capped_last_n memoryAuditCap_def)
next
  case False
  then have "audit_call c H = H" by (cases c) simp_all
  moreover assume "audit_refines s H"
  ultimately show ?thesis using exec_call_audit_frame [of c s] False by (simp add: audit_refines_def)
qed

lemma trace_audit: "mem_trace cs s \<Longrightarrow> audit_refines s (fold audit_call cs [])"
proof (induction rule: mem_trace.induct)
  case start
  show ?case by (simp add: audit_refines_def NewMemoryStore_def last_n_def)
next
  case (call cs s c)
  then show ?case using audit_call_refines [of s _ c] by simp
qed

lemma nth_upto_slice:
  assumes "b \<le> length xs"
  shows "map (\<lambda>i. xs ! nat i) [int a..int b - 1] = drop a (take b xs)"
proof (rule nth_equalityI)
  fix i
  assume "i < length (map (\<lambda>i. xs ! nat i) [int a..int b - 1])"
  then have i: "int i < int b - int a" by simp
  then have "[int a..int b - 1] ! i = int a + int i" by (simp add: nth_upto)
  moreover have "nat (int a + int i) = a + i" by simp
  ultimately show "map (\<lambda>i. xs ! nat i) [int a..int b - 1] ! i = drop a (take b xs) ! i"
    using i assms by simp
qed (use assms in simp)

lemma rev_slice: "rev (drop (length xs - k - l) (take (length xs - k) xs)) = take l (drop k (rev xs))"
  by (simp add: drop_rev take_rev)

lemma recent_audit_page:
  "mem_RecentAuditEvents limit offset s = Inr (take (page_limit limit) (drop (nat offset) (rev (s_audit s))))"
proof -
  let ?xs = "s_audit s" and ?l = "page_limit limit" and ?o = "nat offset"
  show ?thesis
  proof (cases "?o < length ?xs")
    case False
    then show ?thesis by (auto simp: mem_RecentAuditEvents_def Let_def)
  next
    case True
    define b where "b = length ?xs - ?o"
    define a where "a = length ?xs - ?o - ?l"
    have a: "int a = (if int b - int ?l < 0 then 0 else int b - int ?l)"
      unfolding a_def b_def [symmetric] by (cases "?l \<le> b") (auto simp: of_nat_diff)
    have b: "int b = int (length ?xs) - (if offset < 0 then 0 else offset)" using True by (simp add: b_def)
    have l: "(if limit \<le> 0 then 50 else limit) = int ?l" by (simp add: page_limit_def)
    have "mem_RecentAuditEvents limit offset s = Inr (map (\<lambda>i. ?xs ! nat i) (rev [int a..int b - 1]))"
      using True by (simp add: mem_RecentAuditEvents_def Let_def a b l)
    also have "\<dots> = Inr (rev (drop a (take b ?xs)))"
      by (simp add: rev_map [symmetric] nth_upto_slice b_def)
    finally show ?thesis by (simp only: a_def b_def rev_slice)
  qed
qed

text \<open>
  The audit log refines an unbounded append-only log: after any run, event \<open>n\<close> carries ID
  \<open>n\<close> and a time, and \<^verbatim>\<open>RecentAuditEvents\<close> answers the page \<open>offset, limit\<close> of the newest 1000
  events, newest first, with no event skipped or repeated between pages.
\<close>
theorem audit_log_history:
  assumes "mem_trace cs s"
  shows "mem_RecentAuditEvents limit offset s = Inr (take (page_limit limit) (drop (nat offset)
      (take memoryAuditCap (rev (fold audit_call cs [])))))
    \<and> map a_ID (fold audit_call cs []) = [1..int (length (fold audit_call cs []))]
    \<and> None \<notin> a_At ` set (fold audit_call cs [])"
  (is "?page \<and> ?ids \<and> ?times")
proof (intro conjI)
  have "s_audit s = last_n memoryAuditCap (fold audit_call cs [])"
    using trace_audit [OF assms] by (simp add: audit_refines_def)
  moreover have "rev (last_n n h) = take n (rev h)" for n and h :: "audit_event list"
    using take_rev_last_n [of n n h] by simp
  ultimately show ?page by (simp add: recent_audit_page)
  have step: "map a_ID (audit_call c H) = [1..int (length (audit_call c H))] \<and> None \<notin> a_At ` set (audit_call c H)"
    if "map a_ID H = [1..int (length H)] \<and> None \<notin> a_At ` set H" for c H
    using that upto_rec2 [of 1 "int (length H) + 1"] by (cases c) (auto simp: stored_event_def add.commute)
  have "map a_ID (fold audit_call xs H) = [1..int (length (fold audit_call xs H))]
      \<and> None \<notin> a_At ` set (fold audit_call xs H)"
    if "map a_ID H = [1..int (length H)] \<and> None \<notin> a_At ` set H" for xs H
    using that
  proof (induction xs arbitrary: H)
    case (Cons c xs)
    show ?case using Cons.IH [OF step [OF Cons.prems]] by simp
  qed simp
  from this [of "[]" cs] show ?ids ?times by simp_all
qed

definition one_audit :: "mem_call list" where
  "one_audit = [CAudit 5 \<lparr>a_ID = 0, a_At = None, a_ActorKind = ''anon'', a_ActorID = '''', a_Action = ''url.create'',
     a_TargetKind = ''url'', a_TargetID = ''ab'', a_Metadata = '''', a_RequestID = ''''\<rparr>]"

theorem audit_log_history_witness: "map a_ID (fold audit_call one_audit []) = [1]"
proof -
  have "mem_trace one_audit (the (run_calls one_audit NewMemoryStore))"
    by (rule run_calls_trace) (simp add: one_audit_def)
  from audit_log_history [OF this, of 0 0] show ?thesis by (simp add: one_audit_def)
qed

section \<open>The click histogram\<close>

text \<open>The clicks of bucket \<open>i\<close> of a window that starts at \<open>start\<close>.\<close>

definition in_bucket :: "time \<Rightarrow> duration \<Rightarrow> nat \<Rightarrow> click_event \<Rightarrow> bool" where
  "in_bucket start b i ev = (start + int i * b \<le> ev_At ev \<and> ev_At ev < start + (int i + 1) * b)"

lemma div_eq_iff_int: "0 < b \<Longrightarrow> x div b = i \<longleftrightarrow> i * b \<le> x \<and> x < (i + 1) * (b :: int)"
proof
  assume b: "0 < b" and "x div b = i"
  then have "x = i * b + x mod b" using div_mult_mod_eq [of x b] by simp
  then show "i * b \<le> x \<and> x < (i + 1) * b"
    using pos_mod_bound [OF b, of x] pos_mod_sign [OF b, of x] by (simp add: algebra_simps)
next
  assume "0 < b" and "i * b \<le> x \<and> x < (i + 1) * b"
  then show "x div b = i" by (intro int_div_pos_eq [where r = "x - i * b"]) (simp_all add: algebra_simps)
qed

lemma in_bucket_div: "0 < b \<Longrightarrow> in_bucket start b i ev \<longleftrightarrow> (ev_At ev - start) div b = int i"
  by (auto simp: in_bucket_def div_eq_iff_int algebra_simps)

text \<open>One step of the loop adds the event to its bucket, if the window has one for it.\<close>

lemma bucket_step_eq:
  assumes b: "0 < b" and n: "0 < n" and bound: "n * b < 2 ^ 63" and len: "length out = nat n"
  shows "bucket_step start (start + n * b) b n ev out
    = map (\<lambda>i. out ! i + (if in_bucket start b i ev then 1 else 0)) [0..<nat n]"
    (is "?step = ?new")
proof (cases "ev_At ev < start \<or> \<not> ev_At ev < start + n * b")
  case True
  have "\<not> in_bucket start b i ev" if "i < nat n" for i
  proof -
    have "(int i + 1) * b \<le> n * b" using that b by (intro mult_right_mono) auto
    moreover have "0 \<le> int i * b" using b by simp
    ultimately show ?thesis using True by (auto simp: in_bucket_def)
  qed
  then show ?thesis using True len
    by (intro nth_equalityI) (simp_all add: bucket_step_def)
next
  case False
  define q where "q = (ev_At ev - start) div b"
  have "0 \<le> q" using False b by (simp add: q_def pos_imp_zdiv_nonneg_iff)
  have "q * b \<le> ev_At ev - start" using b div_eq_iff_int [of b "ev_At ev - start" q] by (simp add: q_def)
  then have "q * b < n * b" using False by simp
  then have "q < n" using b by simp
  have "time_sub (ev_At ev) start = ev_At ev - start" using False bound by (simp add: time_sub_def)
  then have "?step = out[nat q := out ! nat q + 1]"
    using False \<open>0 \<le> q\<close> \<open>q < n\<close> by (simp add: bucket_step_def q_def Let_def)
  also have "\<dots> = ?new"
    using len \<open>0 \<le> q\<close> b
    by (intro nth_equalityI) (auto simp: nth_list_update in_bucket_div q_def)
  finally show ?thesis .
qed

lemma bucket_fold:
  assumes b: "0 < b" and n: "0 < n" and bound: "n * b < 2 ^ 63"
  shows "length out = nat n \<Longrightarrow> fold (bucket_step start (start + n * b) b n) es out
    = map (\<lambda>i. out ! i + int (length (filter (in_bucket start b i) es))) [0..<nat n]"
proof (induction es arbitrary: out)
  case Nil
  then show ?case by (intro nth_equalityI) simp_all
next
  case (Cons ev es)
  show ?case
    using Cons.IH [of "bucket_step start (start + n * b) b n ev out"] bucket_step_eq [OF b n bound Cons.prems]
    by (intro nth_equalityI) simp_all
qed

lemma clicks_by_bucket_eq:
  assumes "mem_view s c = Some m" and "0 < n" and "0 < b" and "n * b < 2 ^ 63"
  shows "mem_ClicksByBucket c until b n s
    = Inr (map (\<lambda>i. int (length (filter (in_bucket (until - n * b) b i) (events_of s c)))) [0..<nat n])"
proof -
  have "0 \<le> n * b" using assms by simp
  then have "in_int64 (- (n * b))" using assms(4) by (simp add: in_int64_def)
  then have "wrap64 (- n * b) = - (n * b)" by simp
  then have "mem_ClicksByBucket c until b n s
      = Inr (fold (bucket_step (until - n * b) until b n) (events_of s c) (replicate (nat n) 0))"
    using assms by (simp add: mem_ClicksByBucket_def mem_view_def)
  moreover have "map (\<lambda>i. replicate (nat n) 0 ! i + int (f i)) [0..<nat n] = map (\<lambda>i. int (f i)) [0..<nat n]" for f
    by (intro nth_equalityI) simp_all
  ultimately show ?thesis
    using bucket_fold [OF assms(3,2,4), of "replicate (nat n) 0" "until - n * b" "events_of s c"] by simp
qed

text \<open>
  \<^verbatim>\<open>ClicksByBucket\<close> of a live code answers, for a window of \<open>n\<close> buckets of length \<open>b\<close> that
  ends before \<open>until\<close>, oldest first, exactly the number of stored events of each bucket: every
  event is counted in the one bucket that contains its time, an event outside the window in none
  (provided the length of the window fits a \<^verbatim>\<open>time.Duration\<close>).
\<close>
theorem clicks_by_bucket_counts:
  assumes "mem_view s c = Some m" and "0 < n" and "0 < b" and "n * b < 2 ^ 63"
  shows "mem_ClicksByBucket c until b n s
    = Inr (map (\<lambda>i. int (length (filter (in_bucket (until - n * b) b i) (events_of s c)))) [0..<nat n])"
  using assms by (rule clicks_by_bucket_eq)

theorem clicks_by_bucket_counts_witness:
  "mem_ClicksByBucket ''ab'' 10 2 3 clicked_twice = Inr [0, 1, 1]"
proof -
  show ?thesis
    using clicks_by_bucket_counts [OF clicked_twice_view, of 3 2 10] clicked_twice_events
    by (simp add: upt_conv_Cons in_bucket_def sample_click_def)
qed


section \<open>The mappings of a key\<close>

lemma list_urls_eq:
  assumes "in_int64 (max 0 offset + int (page_limit limit))"
  shows "\<exists>all. mset all = filter_mset (\<lambda>u. m_APIKeyID u = i) (mset (map snd (s_urls s)))
    \<and> sorted_wrt (\<lambda>u v. m_CreatedAt v \<le> m_CreatedAt u) all
    \<and> mem_ListURLsByAPIKey i limit offset s = Inr (take (page_limit limit) (drop (nat offset) all))"
proof -
  define all where "all = sortByCreatedAtDesc (filter (\<lambda>u. m_APIKeyID u = i) (map snd (s_urls s)))"
  have "sorted (map (\<lambda>u. - m_CreatedAt u) all)" by (simp add: all_def sortByCreatedAtDesc_def)
  then have sorted: "sorted_wrt (\<lambda>u v. m_CreatedAt v \<le> m_CreatedAt u) all"
    by (simp add: sorted_map)
  have mset: "mset all = filter_mset (\<lambda>u. m_APIKeyID u = i) (mset (map snd (s_urls s)))"
    by (simp add: all_def sortByCreatedAtDesc_def)
  have l: "(if limit \<le> 0 then 50 else limit) = int (page_limit limit)" by (simp add: page_limit_def)
  have off: "(if offset < 0 then 0 else offset) = int (nat offset)" by simp
  have w: "wrap64 (int (nat offset) + int (page_limit limit)) = int (nat offset + page_limit limit)"
    using assms by (simp add: max_def split: if_splits)
  have "mem_ListURLsByAPIKey i limit offset s = Inr (take (page_limit limit) (drop (nat offset) all))"
    unfolding mem_ListURLsByAPIKey_def Let_def all_def [symmetric] l off w
    by (auto simp: not_le nat_less_iff)
  with sorted mset show ?thesis by blast
qed

section \<open>What the cleanup pass leaves behind\<close>

text \<open>
  \<^verbatim>\<open>cleanupExpired\<close> removes the mapping of an expired code but not its entry in \<^verbatim>\<open>s.events\<close>
  (\<^verbatim>\<open>Delete\<close> removes both).
\<close>

text \<open>
  The cleanup pass loses nothing that is still served: it removes exactly the expired
  mappings, so at its own time and at any later one \<^verbatim>\<open>Get\<close> still answers every code it
  answered before, and a code \<^verbatim>\<open>Get\<close> reported as expired is afterwards not found and free.
\<close>
theorem cleanup_only_expired:
  assumes "mem_inv s" and "t \<le> t'"
  shows "mem_Get t' c (mem_cleanupExpired t s)
    = (case mem_Get t c s of Inl e \<Rightarrow> Inl ErrNotFound | Inr m \<Rightarrow> mem_Get t' c s)"
proof -
  have "distinct_keys (s_urls s)" using assms(1) by (simp add: mem_inv_def urls_inv_def)
  then show ?thesis using assms(2)
    by (auto simp: mem_Get_def mem_cleanupExpired_def map_of_filter_snd [where P = "\<lambda>u. \<not> expired_at t u"]
        split: option.split)
qed

theorem cleanup_only_expired_witness:
  "mem_Get 150 ''ab'' (mem_cleanupExpired 120 clicked_twice) = Inl ErrNotFound"
proof -
  have "mem_Get 120 ''ab'' clicked_twice = Inl ErrExpired"
    using clicked_twice_view twice_mapping_expired by (simp add: mem_Get_def mem_view_def)
  then show ?thesis
    using cleanup_only_expired [OF trace_inv [OF clicked_twice_trace], of 120 150 "''ab''"] by simp
qed

text \<open>
  A code that expired, was cleaned up and is then claimed again by someone else answers the
  previous owner's click events on \<^verbatim>\<open>RecentClicks\<close> (all that had been stored), while its own
  click counter is zero: the two disagree, against what the \<^verbatim>\<open>Store\<close> interface asks of them.
  After a \<^verbatim>\<open>Delete\<close> of the code the same claim starts with no events.
\<close>
theorem reused_code_inherits_clicks:
  assumes "mem_inv s" and "mem_view s c = Some m" and "expired_at t m" and "insertable c m'"
  shows "let s1 = fst (mem_Set c m' (mem_cleanupExpired t s));
      s2 = fst (mem_Set c m' (fst (mem_Delete c s)))
    in mem_view s1 c = Some m' \<and> m_ClickCount m' = 0 \<and> mem_RecentClicks c limit s1 = mem_RecentClicks c limit s
      \<and> mem_view s2 c = Some m' \<and> mem_RecentClicks c limit s2 = Inr []"
proof -
  have d: "distinct_keys (s_urls s)" using assms(1) by (simp add: mem_inv_def urls_inv_def)
  let ?s1 = "fst (mem_Set c m' (mem_cleanupExpired t s))" and ?s2 = "fst (mem_Set c m' (fst (mem_Delete c s)))"
  have live: "map_of (s_urls s) c = Some m" using assms(2) by (simp add: mem_view_def)
  have "map_of (s_urls (mem_cleanupExpired t s)) c = None"
    using d assms(3) live by (simp add: mem_cleanupExpired_def map_of_filter_snd [where P = "\<lambda>u. \<not> expired_at t u"])
  then have s1: "map_of (s_urls ?s1) c = Some m'" "events_of ?s1 c = events_of s c"
    by (simp_all add: mem_Set_def events_of_def mem_cleanupExpired_def)
  have "map_of (s_urls ?s2) c = Some m'" "events_of ?s2 c = []"
    using live by (simp_all add: mem_Set_def mem_Delete_def events_of_def)
  with s1 live assms(4) show ?thesis
    by (simp add: Let_def mem_view_def insertable_def recent_clicks_live)
qed

theorem reused_code_inherits_clicks_witness:
  "mem_RecentClicks ''ab'' 10 (fst (mem_Set ''ab'' (sample_mapping ''ab'')
     (mem_cleanupExpired 120 clicked_twice))) = Inr [sample_click 9, sample_click 7]"
proof -
  have "map_of (s_urls clicked_twice) ''ab'' = Some twice_mapping" using clicked_twice_view by (simp add: mem_view_def)
  then have "mem_RecentClicks ''ab'' 10 clicked_twice = Inr [sample_click 9, sample_click 7]"
    by (simp add: recent_clicks_live clicked_twice_events page_limit_def)
  then show ?thesis
    using reused_code_inherits_clicks [OF trace_inv [OF clicked_twice_trace] clicked_twice_view
        twice_mapping_expired insertable_sample, of 10]
    by (simp add: Let_def)
qed

end
