(* ===== verification/Api_Keys.thy ===== *)
theory Api_Keys
  imports Owner_Ops Mem_Props
begin

text \<open>
  The key endpoints (\<^verbatim>\<open>handlers/apikey.go\<close>: create, get, update, delete and their dispatch), the
  listing of the caller's mappings (\<^verbatim>\<open>MyURLsHandler\<close>), the query parser \<^verbatim>\<open>parsePosInt\<close> they share
  with the operator's audit log (\<^verbatim>\<open>handlers/audit.go\<close>).
\<close>

section \<open>Query parameters\<close>

fun parse_loop :: "string \<Rightarrow> int \<Rightarrow> int \<Rightarrow> int \<Rightarrow> int" where
  "parse_loop [] n def max_n = (if n \<le> 0 then def else n)"
| "parse_loop (c # cs) n def max_n =
     (let d = of_char c in
        if d < (48 :: int) \<or> d > 57 then def
        else let n' = wrap64 (n * 10 + (d - 48)) in
          if n' > max_n then max_n else parse_loop cs n' def max_n)"

definition parsePosInt :: "string \<Rightarrow> int \<Rightarrow> int \<Rightarrow> int" where
  "parsePosInt raw def max_n = (if raw = '''' then def else parse_loop raw 0 def max_n)"

section \<open>Keys\<close>

definition maxLabelLen :: nat where "maxLabelLen = 64"

record api_key_response =
  kr_ID :: int
  kr_Label :: string
  kr_CreatedAt :: time
  kr_LastUsedAt :: "time option"

record create_key_response =
  kc_ID :: int
  kc_Label :: string
  kc_CreatedAt :: time
  kc_Token :: string

text \<open>The two payloads of the endpoint family.\<close>

datatype key_payload = Created create_key_response | KeyInfo api_key_response

definition writeAPIKeyJSON :: "int \<Rightarrow> api_key \<Rightarrow> key_payload reply" where
  "writeAPIKeyJSON status k =
     Payload status (KeyInfo \<lparr>kr_ID = k_ID k, kr_Label = k_Label k, kr_CreatedAt = k_CreatedAt k,
       kr_LastUsedAt = k_LastUsedAt k\<rparr>)"

text \<open>
  \<open>clen\<close> is \<^verbatim>\<open>r.ContentLength\<close>, \<open>body\<close> the decoded label (\<open>None\<close> when decoding fails), \<open>rnd\<close> the
  outcome of the random read; \<open>clk 0\<close> is the clock of \<^verbatim>\<open>CreateAPIKey\<close>, \<open>clk 1\<close> of the audit write.
\<close>

definition key_create :: "'s store_ops \<Rightarrow> env \<Rightarrow> bytes option \<Rightarrow> (nat \<Rightarrow> time) \<Rightarrow> request \<Rightarrow> int \<Rightarrow> string option
    \<Rightarrow> 's \<Rightarrow> 's \<times> key_payload reply" where
  "key_create ops env rnd clk r clen body s =
     (if clen > 0 \<and> body = None then (s, WriteError 400 ''Invalid request body'')
      else let label = (if clen > 0 then the body else '''') in
        if length label > maxLabelLen then (s, WriteError 400 ''label too long'')
        else case generateAPIKeyToken env rnd of
          None \<Rightarrow> (s, WriteError 500 ''Failed to generate token'')
        | Some (rawToken, hash) \<Rightarrow>
            (case st_CreateAPIKey ops (clk 0) label hash s of
               (s1, Inl e) \<Rightarrow> (s1, WriteError 500 ''Failed to persist key'')
             | (s1, Inr key) \<Rightarrow>
                 (logAuditBestEffort ops (clk 1) (audit (AuditActorAnon, '''') AuditActionAPIKeyCreate ''api_key''
                    (show_int (k_ID key)) '''' (r_RequestID r)) s1,
                  Payload 201 (Created \<lparr>kc_ID = k_ID key, kc_Label = k_Label key, kc_CreatedAt = k_CreatedAt key,
                    kc_Token = rawToken\<rparr>))))"

definition requireAPIKey :: "'s store_ops \<Rightarrow> env \<Rightarrow> time \<Rightarrow> request \<Rightarrow> 's \<Rightarrow> 's \<times> (key_payload reply + api_key)" where
  "requireAPIKey ops env now r s =
     (case extractBearer env r of
        None \<Rightarrow> (s, Inl (WriteError 401 ''missing API key''))
      | Some (token, hash) \<Rightarrow>
          (case st_LookupAPIKey ops now hash s of
             (s1, Inl e) \<Rightarrow> (s1, Inl (WriteError 401 ''invalid API key''))
           | (s1, Inr key) \<Rightarrow> (s1, Inr key)))"

definition key_get :: "'s store_ops \<Rightarrow> env \<Rightarrow> (nat \<Rightarrow> time) \<Rightarrow> request \<Rightarrow> 's \<Rightarrow> 's \<times> key_payload reply" where
  "key_get ops env clk r s =
     (case requireAPIKey ops env (clk 0) r s of
        (s1, Inl e) \<Rightarrow> (s1, e)
      | (s1, Inr key) \<Rightarrow> (s1, writeAPIKeyJSON 200 key))"

definition key_audit :: "'s store_ops \<Rightarrow> time \<Rightarrow> request \<Rightarrow> api_key \<Rightarrow> string \<Rightarrow> 's \<Rightarrow> 's" where
  "key_audit ops now r key action s =
     logAuditBestEffort ops now (audit (AuditActorAPIKey, show_int (k_ID key)) action ''api_key''
       (show_int (k_ID key)) '''' (r_RequestID r)) s"

text \<open>\<open>body\<close>: \<open>None\<close> when decoding fails, \<open>Some None\<close> when the label is absent.\<close>

definition key_update :: "'s store_ops \<Rightarrow> env \<Rightarrow> (nat \<Rightarrow> time) \<Rightarrow> request \<Rightarrow> string option option \<Rightarrow> 's
    \<Rightarrow> 's \<times> key_payload reply" where
  "key_update ops env clk r body s =
     (case requireAPIKey ops env (clk 0) r s of
        (s1, Inl e) \<Rightarrow> (s1, e)
      | (s1, Inr key) \<Rightarrow>
          (case body of
             None \<Rightarrow> (s1, WriteError 400 ''Invalid request body'')
           | Some None \<Rightarrow> (s1, WriteError 400 ''label is required'')
           | Some (Some label) \<Rightarrow>
               if length label > maxLabelLen then (s1, WriteError 400 ''label too long'')
               else (case st_UpdateAPIKeyLabel ops (k_ID key) label s1 of
                   (s2, Some e) \<Rightarrow> (s2, WriteError 500 ''Failed to update'')
                 | (s2, None) \<Rightarrow>
                     (key_audit ops (clk 1) r key AuditActionAPIKeyLabelUpdated s2,
                      writeAPIKeyJSON 200 (key\<lparr>k_Label := label\<rparr>)))))"

definition key_delete :: "'s store_ops \<Rightarrow> env \<Rightarrow> (nat \<Rightarrow> time) \<Rightarrow> request \<Rightarrow> 's \<Rightarrow> 's \<times> key_payload reply" where
  "key_delete ops env clk r s =
     (case requireAPIKey ops env (clk 0) r s of
        (s1, Inl e) \<Rightarrow> (s1, e)
      | (s1, Inr key) \<Rightarrow>
          (case st_DeleteAPIKey ops (k_ID key) s1 of
             (s2, Some ErrNotFound) \<Rightarrow> (s2, Bare 204)
           | (s2, Some e) \<Rightarrow> (s2, WriteError 500 ''Failed to revoke'')
           | (s2, None) \<Rightarrow> (key_audit ops (clk 1) r key AuditActionAPIKeyRevoke s2, Bare 204)))"

text \<open>The dispatch on the method; \<open>body\<close> is the label of the decoded body, as for \<open>key_update\<close>.\<close>

definition keys_ServeHTTP :: "'s store_ops \<Rightarrow> env \<Rightarrow> bytes option \<Rightarrow> (nat \<Rightarrow> time) \<Rightarrow> request \<Rightarrow> int \<Rightarrow> string option option
    \<Rightarrow> 's \<Rightarrow> 's \<times> key_payload reply" where
  "keys_ServeHTTP ops env rnd clk r clen body s =
     (if r_Method r = ''POST'' then key_create ops env rnd clk r clen (map_option (\<lambda>l. opt_or '''' l) body) s
      else if r_Method r = ''GET'' then key_get ops env clk r s
      else if r_Method r = ''PATCH'' then key_update ops env clk r body s
      else if r_Method r = ''DELETE'' then key_delete ops env clk r s
      else (s, HttpError 405 ''Method Not Allowed''))"

section \<open>The caller's mappings\<close>

definition NewMyURLsHandler :: "int \<Rightarrow> int" where
  "NewMyURLsHandler max_limit = (if max_limit \<le> 0 then 100 else max_limit)"

definition listing_of :: "url_mapping \<Rightarrow> analytics_response" where
  "listing_of u =
     \<lparr>ar_ShortCode = m_ID u, ar_OriginalURL = m_OriginalURL u, ar_ClickCount = m_ClickCount u,
       ar_CreatedAt = m_CreatedAt u, ar_ExpiresAt = m_ExpiresAt u, ar_LastAccessed = m_LastAccessed u,
       ar_Tags = m_Tags u, ar_MaxClicks = m_MaxClicks u, ar_HasPassword = (m_PasswordHash u \<noteq> []),
       ar_WebhookURL = m_WebhookURL u, ar_PreviewTitle = '''', ar_PreviewImage = '''',
       ar_PreviewDescription = '''', ar_PreviewFetchedAt = None, ar_Destinations = [], ar_TopCountries = []\<rparr>"

definition myurls_ServeHTTP :: "'s store_ops \<Rightarrow> env \<Rightarrow> int \<Rightarrow> (nat \<Rightarrow> time) \<Rightarrow> request \<Rightarrow> 's
    \<Rightarrow> 's \<times> analytics_response list reply" where
  "myurls_ServeHTTP ops env max_limit clk r s =
     (case extractBearer env r of
        None \<Rightarrow> (s, WriteError 401 ''missing API key'')
      | Some (token, hash) \<Rightarrow>
          (case st_LookupAPIKey ops (clk 0) hash s of
             (s1, Inl e) \<Rightarrow> (s1, WriteError 401 ''invalid API key'')
           | (s1, Inr key) \<Rightarrow>
               (case st_ListURLsByAPIKey ops (k_ID key) (parsePosInt (r_Query r ''limit'') 50 max_limit)
                       (parsePosInt (r_Query r ''offset'') 0 (2 ^ 30)) s1 of
                  Inl e \<Rightarrow> (s1, WriteError 500 ''Failed to list URLs'')
                | Inr urls \<Rightarrow> (s1, Payload 200 (map listing_of urls)))))"

section \<open>The operator's audit log\<close>

text \<open>The hash the handler keeps; empty when no token is configured.\<close>

definition NewAuditHandler :: "env \<Rightarrow> string \<Rightarrow> bytes" where
  "NewAuditHandler env metricsToken = (if metricsToken \<noteq> '''' then e_sha256 env metricsToken else [])"

definition audit_maxLimit :: int where "audit_maxLimit = 500"

definition audit_authorized :: "env \<Rightarrow> bytes \<Rightarrow> request \<Rightarrow> bool" where
  "audit_authorized env expectedHash r =
     (if expectedHash = [] then True
      else case extractBearer env r of
        None \<Rightarrow> False
      | Some (token, got) \<Rightarrow> ConstantTimeCompare got expectedHash)"

definition audit_ServeHTTP :: "'s store_ops \<Rightarrow> env \<Rightarrow> bytes \<Rightarrow> request \<Rightarrow> 's \<Rightarrow> audit_event list reply" where
  "audit_ServeHTTP ops env expectedHash r s =
     (if \<not> audit_authorized env expectedHash r then WriteError 401 ''missing or invalid operator token''
      else case st_RecentAuditEvents ops (parsePosInt (r_Query r ''limit'') 50 audit_maxLimit)
                 (parsePosInt (r_Query r ''offset'') 0 (2 ^ 30)) s of
        Inl e \<Rightarrow> HttpError 500 ''Internal server error''
      | Inr events \<Rightarrow> Payload 200 events)"

end
