(* ===== verification/Key_Props.thy ===== *)
theory Key_Props
  imports Api_Keys
begin

text \<open>
  The life of an API key (create, authenticate, revoke), the caller's listing, and the query
  parser of the listings.
\<close>

section \<open>Numbers in queries\<close>

definition digit_val :: "char \<Rightarrow> int" where
  "digit_val c = of_char c - 48"

definition decimal :: "int \<Rightarrow> string \<Rightarrow> int" where
  "decimal n cs = foldl (\<lambda>a c. a * 10 + digit_val c) n cs"

definition is_digit :: "char \<Rightarrow> bool" where
  "is_digit c = (48 \<le> (of_char c :: int) \<and> of_char c \<le> (57 :: int))"

lemma decimal_ge: "0 \<le> n \<Longrightarrow> list_all is_digit cs \<Longrightarrow> n \<le> decimal n cs"
proof (induction cs arbitrary: n)
  case Nil
  then show ?case by (simp add: decimal_def)
next
  case (Cons c cs)
  then have "n * 10 + digit_val c \<le> decimal (n * 10 + digit_val c) cs" by (simp add: is_digit_def digit_val_def)
  moreover have "n \<le> n * 10 + digit_val c" using Cons.prems by (simp add: is_digit_def digit_val_def)
  ultimately show ?case by (simp add: decimal_def)
qed

lemma no_wrap_digit:
  assumes "0 \<le> n" and "n \<le> max_n" and "max_n \<le> 2 ^ 59" and "is_digit c"
  shows "wrap64 (n * 10 + (of_char c - 48)) = n * 10 + digit_val c"
proof -
  have "in_int64 (n * 10 + (of_char c - 48))" using assms by (simp add: in_int64_def is_digit_def)
  then show ?thesis by (simp add: digit_val_def)
qed

lemma parse_loop_range:
  assumes "0 \<le> n" and "n \<le> max_n" and "max_n \<le> 2 ^ 59"
  shows "parse_loop cs n def max_n = def \<or> 1 \<le> parse_loop cs n def max_n \<and> parse_loop cs n def max_n \<le> max_n
    \<or> parse_loop cs n def max_n = max_n"
  using assms
proof (induction cs n def max_n rule: parse_loop.induct)
  case (2 c cs n def max_n)
  show ?case
  proof (cases "is_digit c")
    case True
    then have "0 \<le> n * 10 + digit_val c" using 2 by (simp add: digit_val_def is_digit_def)
    with True 2 no_wrap_digit [OF 2(2-4) True] show ?thesis
      by (simp add: is_digit_def Let_def)
  next
    case False
    then show ?thesis by (auto simp: is_digit_def)
  qed
qed auto

lemma parse_loop_digits:
  assumes "0 \<le> n" and "n \<le> max_n" and "max_n \<le> 2 ^ 59" and "list_all is_digit cs" and "0 < decimal n cs"
  shows "parse_loop cs n def max_n = min (decimal n cs) max_n"
  using assms
proof (induction cs n def max_n rule: parse_loop.induct)
  case (1 n def max_n)
  then show ?case by (simp add: decimal_def)
next
  case (2 c cs n def max_n)
  then have c: "is_digit c" and cs: "list_all is_digit cs" by simp_all
  have nn: "0 \<le> n * 10 + digit_val c" using 2(2) c by (simp add: digit_val_def is_digit_def)
  have dec: "decimal n (c # cs) = decimal (n * 10 + digit_val c) cs" by (simp add: decimal_def)
  note w = no_wrap_digit [OF 2(2-4) c]
  show ?case
  proof (cases "n * 10 + digit_val c > max_n")
    case True
    then show ?thesis using c w dec decimal_ge [OF nn cs] by (simp add: is_digit_def Let_def)
  next
    case False
    have "parse_loop cs (n * 10 + digit_val c) def max_n = min (decimal (n * 10 + digit_val c) cs) max_n"
      using 2 c w nn cs dec False by (simp add: is_digit_def)
    then show ?thesis using c w dec False by (simp add: is_digit_def Let_def)
  qed
qed

lemma digit_char:
  assumes "n < 10"
  shows "is_digit (char_of (48 + n)) \<and> digit_val (char_of (48 + n)) = int n"
proof -
  have "(of_char (char_of (48 + n)) :: int) = int (of_char (char_of (48 + n)))"
    by (rule of_nat_of_char [symmetric])
  also have "of_char (char_of (48 + n)) = 48 + n" using assms by (simp only: of_char_of) simp
  finally show ?thesis using assms by (simp add: is_digit_def digit_val_def)
qed

lemma digits_decimal: "list_all is_digit (digits n) \<and> digits n \<noteq> [] \<and> decimal 0 (digits n) = int n"
proof (induction n rule: digits.induct)
  case (1 n)
  show ?case
  proof (cases "n < 10")
    case True
    then show ?thesis using digit_char [of n] by (simp add: digits.simps [of n] decimal_def)
  next
    case False
    then have "list_all is_digit (digits (n div 10))" "foldl (\<lambda>a c. a * 10 + digit_val c) 0 (digits (n div 10)) = int (n div 10)"
      using 1 by (simp_all add: decimal_def)
    moreover have "int (n div 10) * 10 + int (n mod 10) = int n" by presburger
    ultimately show ?thesis using False digit_char [of "n mod 10"]
      by (simp add: digits.simps [of n] decimal_def)
  qed
qed

text \<open>
  \<^verbatim>\<open>parsePosInt\<close> answers the default or a number between 1 and the maximum, whatever it is
  given, without wrap-around; and it reads every printed positive number back, clamped.
\<close>
theorem parse_pos_int:
  assumes "1 \<le> max_n" and "max_n \<le> 2 ^ 59"
  shows "(parsePosInt raw def max_n = def \<or> 1 \<le> parsePosInt raw def max_n \<and> parsePosInt raw def max_n \<le> max_n)
    \<and> (0 < i \<longrightarrow> parsePosInt (show_int i) def max_n = min i max_n)"
proof -
  have "parsePosInt raw def max_n = def \<or> 1 \<le> parsePosInt raw def max_n \<and> parsePosInt raw def max_n \<le> max_n"
    using parse_loop_range [of 0 max_n raw def] assms by (auto simp: parsePosInt_def)
  moreover have "parsePosInt (show_int i) def max_n = min i max_n" if "0 < i"
    using that digits_decimal [of "nat i"] parse_loop_digits [of 0 max_n "digits (nat i)" def] assms
    by (simp add: parsePosInt_def show_int_def)
  ultimately show ?thesis by blast
qed

theorem parse_pos_int_witness: "parsePosInt (show_int 12345) 50 500 = 500"
  using parse_pos_int [of 500 "[]" 50 12345] by simp

section \<open>The life of a key\<close>

text \<open>What \<^verbatim>\<open>DeleteAPIKey\<close> does to every mapping: those bound to the key are released.\<close>

definition released :: "int \<Rightarrow> (string \<Rightarrow> url_mapping option) \<Rightarrow> string \<Rightarrow> url_mapping option" where
  "released i v = (\<lambda>c. map_option (\<lambda>m. if m_APIKeyID m = i then m\<lparr>m_APIKeyID := 0\<rparr> else m) (v c))"

context key_store
begin

lemma requireAPIKey_spec:
  assumes "valid s" and "requireAPIKey ops env t r s = (s', x)"
  shows "valid s' \<and> view s' = view s \<and> owner s' = owner s
    \<and> (case x of
        Inl e \<Rightarrow> status_of e = 401 \<and> \<not> (\<exists>tok h. extractBearer env r = Some (tok, h) \<and> owner s h \<noteq> None)
      | Inr k \<Rightarrow> \<exists>tok h. extractBearer env r = Some (tok, h) \<and> owner s h = Some (k_ID k))"
proof (cases "extractBearer env r")
  case None
  then show ?thesis using assms by (auto simp: requireAPIKey_def)
next
  case (Some th)
  obtain tok h where th: "th = (tok, h)" by (cases th)
  obtain s1 y where l: "st_LookupAPIKey ops t h s = (s1, y)" by (cases "st_LookupAPIKey ops t h s")
  note fr = lookup_frame [OF assms(1) l]
  show ?thesis
  proof (cases y)
    case (Inl e)
    then show ?thesis using Some th l fr assms(2) lookup_Inl [OF assms(1), of t h s1 e] by (auto simp: requireAPIKey_def)
  next
    case (Inr k)
    then show ?thesis using Some th l fr assms(2) lookup_Inr [OF assms(1), of t h s1 k] by (auto simp: requireAPIKey_def)
  qed
qed

lemma key_create_spec:
  assumes "valid s" and "key_create ops env rnd clk r clen body s = (s', reply)"
    and "\<forall>b. rnd = Some b \<longrightarrow> owner s (e_sha256 env (RawURLEncode b)) = None"
  shows "valid s' \<and> view s' = view s
    \<and> (status_of reply \<in> {400, 500} \<and> s' = s
       \<or> (\<exists>b k. rnd = Some b \<and> reply = Payload 201 (Created k) \<and> kc_Token k = RawURLEncode b
           \<and> length (kc_Label k) \<le> maxLabelLen \<and> kc_CreatedAt k = clk 0 \<and> kc_ID k \<notin> ran (owner s)
           \<and> owner s' = (owner s)(e_sha256 env (RawURLEncode b) \<mapsto> kc_ID k)))"
proof -
  define label where "label = (if clen > 0 then the body else '''')"
  have rest: "key_create ops env rnd clk r clen body s = (case st_CreateAPIKey ops (clk 0) label (e_sha256 env (RawURLEncode b)) s of
      (s1, Inl e) \<Rightarrow> (s1, WriteError 500 ''Failed to persist key'')
    | (s1, Inr key) \<Rightarrow>
        (logAuditBestEffort ops (clk 1) (audit (AuditActorAnon, '''') AuditActionAPIKeyCreate ''api_key''
           (show_int (k_ID key)) '''' (r_RequestID r)) s1,
         Payload 201 (Created \<lparr>kc_ID = k_ID key, kc_Label = k_Label key, kc_CreatedAt = k_CreatedAt key,
           kc_Token = RawURLEncode b\<rparr>)))"
    if "\<not> (clen > 0 \<and> body = None)" "\<not> length label > maxLabelLen" "rnd = Some b" for b
    unfolding key_create_def Let_def label_def [symmetric] if_not_P [OF that(1)] if_not_P [OF that(2)]
    by (simp add: generateAPIKeyToken_def that(3) Let_def del: One_nat_def)
  consider (bad) "clen > 0 \<and> body = None" | (long) "\<not> (clen > 0 \<and> body = None)" "length label > maxLabelLen"
    | (rnd) "\<not> (clen > 0 \<and> body = None)" "\<not> length label > maxLabelLen" "rnd = None"
    | (ok) b where "\<not> (clen > 0 \<and> body = None)" "\<not> length label > maxLabelLen" "rnd = Some b"
    by blast
  then show ?thesis
  proof cases
    case bad
    then show ?thesis using assms(1,2) by (auto simp: key_create_def)
  next
    case long
    have "key_create ops env rnd clk r clen body s = (s, WriteError 400 ''label too long'')"
      unfolding key_create_def Let_def label_def [symmetric] if_not_P [OF long(1)] if_P [OF long(2)] ..
    then show ?thesis using assms(1,2) by auto
  next
    case rnd
    have "key_create ops env rnd clk r clen body s = (s, WriteError 500 ''Failed to generate token'')"
      unfolding key_create_def Let_def label_def [symmetric] if_not_P [OF rnd(1)] if_not_P [OF rnd(2)]
      by (simp add: generateAPIKeyToken_def rnd(3))
    then show ?thesis using assms(1,2) by auto
  next
    case ok
    let ?h = "e_sha256 env (RawURLEncode b)"
    have fresh: "owner s ?h = None" using assms(3) ok(3) by simp
    obtain s1 k where k: "st_CreateAPIKey ops (clk 0) label ?h s = (s1, Inr k)" "valid s1" "view s1 = view s"
        "owner s1 = (owner s)(?h \<mapsto> k_ID k)" "k_ID k \<notin> ran (owner s)" "k_Label k = label" "k_CreatedAt k = clk 0"
      using create_key [OF assms(1) fresh, of "clk 0" label] by blast
    have "s' = logAuditBestEffort ops (clk 1) (audit (AuditActorAnon, '''') AuditActionAPIKeyCreate ''api_key''
          (show_int (k_ID k)) '''' (r_RequestID r)) s1"
        and "reply = Payload 201 (Created \<lparr>kc_ID = k_ID k, kc_Label = k_Label k, kc_CreatedAt = k_CreatedAt k,
          kc_Token = RawURLEncode b\<rparr>)"
      using rest [OF ok] k(1) assms(2) by simp_all
    then show ?thesis using k ok logAudit_frame [OF k(2)] by simp
  qed
qed

lemma key_delete_spec:
  assumes "valid s" and "key_delete ops env clk r s = (s', reply)"
  shows "valid s'
    \<and> (status_of reply = 401 \<and> view s' = view s \<and> owner s' = owner s
         \<and> \<not> (\<exists>tok h. extractBearer env r = Some (tok, h) \<and> owner s h \<noteq> None)
       \<or> (\<exists>tok h i. extractBearer env r = Some (tok, h) \<and> owner s h = Some i \<and> reply = Bare 204
           \<and> owner s' = (owner s)(h := None) \<and> view s' = released i (view s)))"
proof -
  obtain s1 x where q: "requireAPIKey ops env (clk 0) r s = (s1, x)" by (cases "requireAPIKey ops env (clk 0) r s")
  note req = requireAPIKey_spec [OF assms(1) q]
  show ?thesis
  proof (cases x)
    case (Inl e)
    then have "s' = s1" "reply = e" using q assms(2) by (simp_all add: key_delete_def)
    then show ?thesis using req Inl by simp
  next
    case (Inr k)
    with req obtain tok h where h: "extractBearer env r = Some (tok, h)" "owner s h = Some (k_ID k)" by auto
    have v1: "valid s1" "view s1 = view s" "owner s1 = owner s" using req by simp_all
    obtain s2 where s2: "st_DeleteAPIKey ops (k_ID k) s1 = (s2, None)" "valid s2" "owner s2 = (owner s)(h := None)"
        "view s2 = released (k_ID k) (view s)"
      using delete_key [OF v1(1), of h "k_ID k"] v1 h(2) by (auto simp: released_def)
    have "s' = key_audit ops (clk 1) r k AuditActionAPIKeyRevoke s2" "reply = Bare 204"
      using q Inr s2(1) assms(2) by (simp_all add: key_delete_def)
    then show ?thesis using logAudit_frame [OF s2(2)] s2 h by (auto simp: key_audit_def)
  qed
qed

lemma key_get_spec:
  assumes "valid s" and "key_get ops env clk r s = (s', reply)"
  shows "status_of reply = (if \<exists>tok h. extractBearer env r = Some (tok, h) \<and> owner s h \<noteq> None then 200 else 401)"
proof -
  obtain s1 x where q: "requireAPIKey ops env (clk 0) r s = (s1, x)" by (cases "requireAPIKey ops env (clk 0) r s")
  from requireAPIKey_spec [OF assms(1) q] q assms(2) show ?thesis
    by (cases x) (auto simp: key_get_def writeAPIKeyJSON_def)
qed


text \<open>The endpoint family as a whole: it changes no mapping but the bindings to a revoked key.\<close>

lemma key_update_frame:
  assumes "valid s" and "key_update ops env clk r body s = (s', reply)"
  shows "valid s' \<and> view s' = view s \<and> owner s' = owner s"
proof -
  obtain s1 x where q: "requireAPIKey ops env (clk 0) r s = (s1, x)" by (cases "requireAPIKey ops env (clk 0) r s")
  note req = requireAPIKey_spec [OF assms(1) q]
  show ?thesis
  proof (cases "\<exists>k label. x = Inr k \<and> body = Some (Some label) \<and> length label \<le> maxLabelLen")
    case False
    then have "s' = s1" using q assms(2) by (auto simp: key_update_def split: sum.splits option.splits if_splits)
    then show ?thesis using req by simp
  next
    case True
    then obtain k label where k: "x = Inr k" "body = Some (Some label)" "length label \<le> maxLabelLen" by blast
    obtain h where h: "owner s1 h = Some (k_ID k)" using req k(1) by auto
    have v1: "valid s1" using req by simp
    obtain s2 where s2: "st_UpdateAPIKeyLabel ops (k_ID k) label s1 = (s2, None)" "valid s2" "owner s2 = owner s1" "view s2 = view s1"
      using label_key [OF v1 h] by blast
    have "s' = key_audit ops (clk 1) r k AuditActionAPIKeyLabelUpdated s2"
      using q k s2(1) assms(2) by (simp add: key_update_def)
    then show ?thesis using logAudit_frame [OF s2(2)] s2 req by (simp add: key_audit_def)
  qed
qed

lemma key_get_frame:
  assumes "valid s" and "key_get ops env clk r s = (s', reply)"
  shows "valid s' \<and> view s' = view s \<and> owner s' = owner s"
  using requireAPIKey_spec [OF assms(1) prod.collapse [symmetric], of env "clk 0" r] assms(2)
  by (auto simp: key_get_def case_prod_unfold split: sum.splits)

lemma keys_frame:
  assumes "valid s" and "keys_ServeHTTP ops env rnd clk r clen body s = (s', reply)"
    and "\<forall>b. r_Method r = ''POST'' \<longrightarrow> rnd = Some b \<longrightarrow> owner s (e_sha256 env (RawURLEncode b)) = None"
  shows "valid s' \<and> (view s' = view s \<or> (\<exists>i. view s' = released i (view s)))"
proof -
  consider (post) "r_Method r = ''POST''" | (get) "r_Method r = ''GET''" | (patch) "r_Method r = ''PATCH''"
    | (delete) "r_Method r = ''DELETE''" | (other) "r_Method r \<notin> {''POST'', ''GET'', ''PATCH'', ''DELETE''}" by blast
  then show ?thesis
  proof cases
    case post
    then show ?thesis using key_create_spec [OF assms(1)] assms(2,3) by (simp add: keys_ServeHTTP_def)
  next
    case get
    then show ?thesis using key_get_frame [OF assms(1)] assms(2) by (simp add: keys_ServeHTTP_def)
  next
    case patch
    then show ?thesis using key_update_frame [OF assms(1)] assms(2) by (simp add: keys_ServeHTTP_def)
  next
    case delete
    then show ?thesis using key_delete_spec [OF assms(1), of env clk r s' reply] assms(2) by (auto simp: keys_ServeHTTP_def)
  next
    case other
    then show ?thesis using assms(1,2) by (simp add: keys_ServeHTTP_def)
  qed
qed
end

section \<open>The properties, for the memory backend\<close>

text \<open>
  C22. A key lives from its creation to its revocation: creating it registers one fresh ID under
  the hash of the returned token and touches no mapping; a request that carries the token then
  authenticates; revoking it with the token answers 204 and restores the keys to what they were,
  and the token no longer authenticates.
\<close>
theorem key_lifecycle:
  assumes "mem_inv s" and "key_create mem_ops env rnd clk r clen body s = (s1, reply1)" and "status_of reply1 = 201"
    and "rnd = Some b" and "b \<noteq> []" and "mem_owner s (e_sha256 env (RawURLEncode b)) = None"
    and "r_Header r' ''Authorization'' = ''Bearer '' @ RawURLEncode b"
    and "key_delete mem_ops env clk r' s1 = (s2, reply2)"
  shows "mem_view s1 = mem_view s
    \<and> status_of (snd (key_get mem_ops env clk r' s)) = 401 \<and> status_of (snd (key_get mem_ops env clk r' s1)) = 200
    \<and> reply2 = Bare 204 \<and> mem_owner s2 = mem_owner s \<and> status_of (snd (key_get mem_ops env clk r' s2)) = 401"
proof -
  let ?h = "e_sha256 env (RawURLEncode b)"
  have bearer: "extractBearer env r' = Some (RawURLEncode b, ?h)"
    using assms(5,7) by (intro extractBearer_token) simp_all
  have fresh: "\<forall>x. rnd = Some x \<longrightarrow> mem_owner s (e_sha256 env (RawURLEncode x)) = None" using assms(4,6) by simp
  note created = mem.key_create_spec [OF assms(1,2) fresh]
  obtain x i where x: "rnd = Some x" "mem_owner s1 = (mem_owner s)(e_sha256 env (RawURLEncode x) \<mapsto> i)"
    using created assms(3) by fastforce
  then have 1: "mem_inv s1" "mem_view s1 = mem_view s" "mem_owner s1 = (mem_owner s)(?h \<mapsto> i)"
    using created assms(4) by simp_all
  have 2: "mem_inv s2" "reply2 = Bare 204" "mem_owner s2 = (mem_owner s1)(?h := None)"
    using mem.key_delete_spec [OF 1(1) assms(8)] bearer 1(3) by auto
  have get: "status_of (snd (key_get mem_ops env clk r' t)) = (if mem_owner t ?h \<noteq> None then 200 else 401)" if "mem_inv t" for t
    using mem.key_get_spec [OF that prod.collapse [symmetric], of env clk r'] bearer by simp
  have "mem_owner s2 = mem_owner s" using 2(3) 1(3) assms(6) by (simp add: fun_upd_idem)
  then show ?thesis using get [OF assms(1)] get [OF 1(1)] get [OF 2(1)] 1 2 assms(6) by simp
qed

theorem key_lifecycle_witness:
  "mem_owner (fst (key_delete mem_ops sample_env (\<lambda>i. 7) (bearer_request '''' ''AQID'')
     (fst (key_create mem_ops sample_env (Some [1, 2, 3]) (\<lambda>i. 7) (bearer_request '''' ''-'') 0 None NewMemoryStore))))
   = mem_owner NewMemoryStore"
proof -
  let ?c = "key_create mem_ops sample_env (Some [1, 2, 3]) (\<lambda>i. 7) (bearer_request '''' ''-'') 0 None NewMemoryStore"
  let ?d = "key_delete mem_ops sample_env (\<lambda>i. 7) (bearer_request '''' ''AQID'') (fst ?c)"
  have st: "status_of (snd ?c) = 201" by code_simp
  have none: "mem_owner NewMemoryStore h = None" for h by (simp add: mem_owner_def NewMemoryStore_def)
  have hd: "r_Header (bearer_request '''' ''AQID'') ''Authorization'' = ''Bearer '' @ RawURLEncode [1, 2, 3]" by code_simp
  have ne: "[1, 2, 3 :: 8 word] \<noteq> []" by simp
  show ?thesis
    using key_lifecycle [OF mem_inv_new prod.collapse [symmetric] st refl ne none hd prod.collapse [symmetric]] by blast
qed

text \<open>In memory, all that a revocation does beside the mappings and the keys is to log one audit event.\<close>

lemma key_delete_parts:
  assumes "mem_inv s" and "key_delete mem_ops env clk r s = (s', reply)" and "status_of reply = 204"
  obtains tok h i where "extractBearer env r = Some (tok, h)" "mem_owner s h = Some i"
    "map_of (s_apiKeys s') = (map_of (s_apiKeys s))(i := None)"
    "s' = logAuditBestEffort mem_ops (clk 1) (audit (AuditActorAPIKey, show_int i) AuditActionAPIKeyRevoke ''api_key'' (show_int i) []
       (r_RequestID r)) (s\<lparr>s_urls := s_urls s', s_apiKeys := s_apiKeys s'\<rparr>)"
proof -
  obtain tok h i where h: "extractBearer env r = Some (tok, h)" "mem_owner s h = Some i"
    using mem.key_delete_spec [OF assms(1,2)] assms(3) by auto
  have keys: "keys_inv s" using assms(1) by (simp add: mem_inv_def)
  obtain k where k: "find_key h (s_apiKeys s) = Some (i, k)" using h(2) by (auto simp: mem_owner_def find_key_owner)
  have id: "k_ID k = i" "map_of (s_apiKeys s) i = Some k" using k keys keys_inv_key by (auto simp: find_key_map_of)
  have eq: "s' = fst (mem_LogAudit (clk 1) (audit (AuditActorAPIKey, show_int i) AuditActionAPIKeyRevoke ''api_key'' (show_int i) []
      (r_RequestID r)) (fst (mem_DeleteAPIKey i (fst (mem_LookupAPIKey (clk 0) h s)))))"
    using assms(2) h(1) k id
    by (auto simp: key_delete_def requireAPIKey_def mem_LookupAPIKey_def Let_def mem_DeleteAPIKey_def key_audit_def logAuditBestEffort_def)
  have "map_of (s_apiKeys s') = (map_of (s_apiKeys s))(i := None)"
    by (simp add: eq mem_LogAudit_def mem_DeleteAPIKey_def mem_LookupAPIKey_def k Let_def delete_conv update_conv)
  moreover have "s' = logAuditBestEffort mem_ops (clk 1) (audit (AuditActorAPIKey, show_int i) AuditActionAPIKeyRevoke ''api_key'' (show_int i) []
       (r_RequestID r)) (s\<lparr>s_urls := s_urls s', s_apiKeys := s_apiKeys s'\<rparr>)"
    by (simp add: eq mem_LogAudit_def mem_DeleteAPIKey_def mem_LookupAPIKey_def k Let_def logAuditBestEffort_def)
  ultimately show ?thesis using h that by blast
qed

text \<open>
  C23. A revocation that answers 204 takes away exactly the authority of the caller's key: the key
  looked up for the bearer, and no other, leaves the table; no mapping is removed, those bound to
  the key are unbound and every other field and mapping is as before; the revoked token is granted
  only what it owns by a mapping's own admin token, every other credential is granted on every
  mapping what it was granted before; and click events stay, one audit event of that key being added.
\<close>
theorem revoke_takes_only_its_authority:
  assumes "mem_inv s" and "key_delete mem_ops env clk r s = (s', reply)" and "status_of reply = 204"
  shows "\<exists>tok h i. extractBearer env r = Some (tok, h) \<and> mem_owner s h = Some i
    \<and> mem_owner s' = (mem_owner s)(h := None) \<and> map_of (s_apiKeys s') = (map_of (s_apiKeys s))(i := None)
    \<and> mem_view s' = (\<lambda>c. map_option (\<lambda>m. if m_APIKeyID m = i then m\<lparr>m_APIKeyID := 0\<rparr> else m) (mem_view s c))
    \<and> (\<forall>c m. mem_view s c = Some m \<longrightarrow> (\<exists>m'. mem_view s' c = Some m'
        \<and> (grants (mem_owner s') m' h \<longleftrightarrow> m_OwnerTokenHash m \<noteq> [] \<and> h = m_OwnerTokenHash m)
        \<and> (\<forall>h'. h' \<noteq> h \<longrightarrow> grants (mem_owner s') m' h' = grants (mem_owner s) m h')))
    \<and> s' = logAuditBestEffort mem_ops (clk 1) (audit (AuditActorAPIKey, show_int i) AuditActionAPIKeyRevoke ''api_key'' (show_int i) []
        (r_RequestID r)) (s\<lparr>s_urls := s_urls s', s_apiKeys := s_apiKeys s'\<rparr>)"
proof -
  obtain tok h i where h: "extractBearer env r = Some (tok, h)" "mem_owner s h = Some i"
      "map_of (s_apiKeys s') = (map_of (s_apiKeys s))(i := None)"
      "s' = logAuditBestEffort mem_ops (clk 1) (audit (AuditActorAPIKey, show_int i) AuditActionAPIKeyRevoke ''api_key'' (show_int i) []
         (r_RequestID r)) (s\<lparr>s_urls := s_urls s', s_apiKeys := s_apiKeys s'\<rparr>)"
    using key_delete_parts [OF assms] .
  have own: "mem_owner s' = (mem_owner s)(h := None)" and view: "mem_view s' = released i (mem_view s)"
    using mem.key_delete_spec [OF assms(1,2)] assms(3) h(1,2) by auto
  have other: "h' = h" if "mem_owner s h' = Some i" for h'
    using that h(2) assms(1) by (auto simp: mem_inv_def mem_owner_iff)
  have "\<exists>m'. mem_view s' c = Some m'
      \<and> (grants (mem_owner s') m' h \<longleftrightarrow> m_OwnerTokenHash m \<noteq> [] \<and> h = m_OwnerTokenHash m)
      \<and> (\<forall>h'. h' \<noteq> h \<longrightarrow> grants (mem_owner s') m' h' = grants (mem_owner s) m h')" if "mem_view s c = Some m" for c m
    using that other by (auto simp: view own released_def grants_def)
  then show ?thesis using h own view by (intro exI [of _ tok] exI [of _ h] exI [of _ i]) (simp add: released_def)
qed

definition bound_store :: mem_store where
  "bound_store = NewMemoryStore\<lparr>s_apiKeys := [(1, \<lparr>k_ID = 1, k_TokenHash = [4, 7], k_Label = '''', k_CreatedAt = 0, k_LastUsedAt = None\<rparr>)],
     s_nextKeyID := 1, s_urls := [(''ab'', sample_mapping ''ab''\<lparr>m_APIKeyID := 1\<rparr>)]\<rparr>"

lemma bound_inv: "mem_inv bound_store"
  by (simp add: bound_store_def mem_inv_def NewMemoryStore_def keys_inv_def urls_inv_def events_inv_def audit_inv_def
      distinct_keys_def sample_mapping_def memoryAuditCap_def events_of_def)

theorem revoke_takes_only_its_authority_witness:
  "map_option m_APIKeyID (mem_view (fst (key_delete mem_ops sample_env (\<lambda>i. 7) (bearer_request [] ''AQID'') bound_store)) ''ab'') = Some 0
   \<and> map_of (s_apiKeys (fst (key_delete mem_ops sample_env (\<lambda>i. 7) (bearer_request [] ''AQID'') bound_store))) 1 = None"
proof -
  let ?d = "key_delete mem_ops sample_env (\<lambda>i. 7) (bearer_request [] ''AQID'') bound_store"
  have st: "status_of (snd ?d) = 204" by code_simp
  have eb: "extractBearer sample_env (bearer_request [] ''AQID'') = Some (''AQID'', [4, 7])" by code_simp
  have own: "mem_owner bound_store [4, 7] = Some 1" by code_simp
  have ab: "map_option m_APIKeyID (mem_view bound_store ''ab'') = Some 1" by code_simp
  have "map_of (s_apiKeys (fst ?d)) = (map_of (s_apiKeys bound_store))(1 := None)
    \<and> mem_view (fst ?d) = (\<lambda>c. map_option (\<lambda>m. if m_APIKeyID m = 1 then m\<lparr>m_APIKeyID := 0\<rparr> else m) (mem_view bound_store c))"
    using revoke_takes_only_its_authority [OF bound_inv prod.collapse [symmetric] st] eb own by auto
  then show ?thesis using ab by auto
qed

section \<open>The caller's listing\<close>

lemma lookup_urls: "s_urls (fst (mem_LookupAPIKey t h s)) = s_urls s"
  by (simp add: mem_LookupAPIKey_def Let_def split: option.split prod.split)

lemma parse_range:
  assumes "1 \<le> max_n" and "max_n \<le> 2 ^ 59"
  shows "parsePosInt raw def max_n = def \<or> 1 \<le> parsePosInt raw def max_n \<and> parsePosInt raw def max_n \<le> max_n"
  using parse_loop_range [of 0 max_n raw def] assms by (auto simp: parsePosInt_def)

lemma page_of_query:
  assumes "1 \<le> max_limit" and "max_limit \<le> 2 ^ 59"
    and l_def: "l = parsePosInt q1 50 max_limit" and k_def: "k = parsePosInt q2 0 (2 ^ 30)"
  shows "int (page_limit l) \<le> max 50 max_limit \<and> 0 < page_limit l \<and> in_int64 (max 0 k + int (page_limit l))"
proof -
  have l: "1 \<le> l \<and> l \<le> max 50 max_limit" using parse_range [OF assms(1,2), of q1 50] by (auto simp: l_def)
  have k: "0 \<le> k \<and> k \<le> 2 ^ 30" using parse_range [of "2 ^ 30" q2 0] by (auto simp: k_def)
  have "max 0 k + l \<le> 2 ^ 30 + 2 ^ 59" using l k assms(2) by auto
  then show ?thesis using l k by (auto simp: page_limit_def in_int64_def)
qed

text \<open>
  \<^verbatim>\<open>GET /api/urls\<close> answers 401 unless the bearer is a live key; then it answers a page of the
  newest-first list of exactly the mappings bound to that key, each once, of at most
  \<open>max 50 max_limit\<close> entries, whatever the query says. It changes no mapping, and adds, removes or reassigns no key.
\<close>
theorem my_urls_exact:
  assumes "mem_inv s" and "1 \<le> max_limit" and "max_limit \<le> 2 ^ 59"
    and "myurls_ServeHTTP mem_ops env max_limit clk r s = (s', reply)"
  shows "mem_view s' = mem_view s \<and> mem_owner s' = mem_owner s
    \<and> (if \<exists>tok h. extractBearer env r = Some (tok, h) \<and> mem_owner s h \<noteq> None
       then \<exists>tok h i all n k. extractBearer env r = Some (tok, h) \<and> mem_owner s h = Some i
         \<and> mset all = filter_mset (\<lambda>u. m_APIKeyID u = i) (mset (map snd (s_urls s)))
         \<and> sorted_wrt (\<lambda>u v. m_CreatedAt v \<le> m_CreatedAt u) all \<and> int n \<le> max 50 max_limit
         \<and> reply = Payload 200 (map listing_of (take n (drop k all)))
       else status_of reply = 401)"
proof (cases "extractBearer env r")
  case None
  then show ?thesis using assms(4) by (auto simp: myurls_ServeHTTP_def)
next
  case (Some th)
  obtain tok h where th: "th = (tok, h)" by (cases th)
  obtain s1 x where l: "mem_LookupAPIKey (clk 0) h s = (s1, x)" by (cases "mem_LookupAPIKey (clk 0) h s")
  have fr: "mem_view s1 = mem_view s" "mem_owner s1 = mem_owner s"
    using mem.lookup_frame [OF assms(1), of "clk 0" h s1 x] l by simp_all
  show ?thesis
  proof (cases x)
    case (Inl e)
    then have "mem_owner s h = None" using mem.lookup_Inl [OF assms(1), of "clk 0" h s1 e] l by simp
    then show ?thesis using Some th l fr Inl assms(4) by (auto simp: myurls_ServeHTTP_def)
  next
    case (Inr key)
    let ?l = "parsePosInt (r_Query r ''limit'') 50 max_limit" and ?k = "parsePosInt (r_Query r ''offset'') 0 (2 ^ 30)"
    note page = page_of_query [OF assms(2,3) refl refl, of "r_Query r ''limit''" "r_Query r ''offset''"]
    have own: "mem_owner s h = Some (k_ID key)" using mem.lookup_Inr [OF assms(1), of "clk 0" h s1 key] l Inr by simp
    have urls: "s_urls s1 = s_urls s" using lookup_urls [of "clk 0" h s] l by simp
    obtain all where all: "mset all = filter_mset (\<lambda>u. m_APIKeyID u = k_ID key) (mset (map snd (s_urls s)))"
        "sorted_wrt (\<lambda>u v. m_CreatedAt v \<le> m_CreatedAt u) all"
        "mem_ListURLsByAPIKey (k_ID key) ?l ?k s1 = Inr (take (page_limit ?l) (drop (nat ?k) all))"
      using list_urls_eq [of ?k ?l "k_ID key" s1] page urls by auto
    have "s' = s1" and reply: "reply = Payload 200 (map listing_of (take (page_limit ?l) (drop (nat ?k) all)))"
      using Some th l Inr all(3) assms(4) by (simp_all add: myurls_ServeHTTP_def)
    moreover have "\<exists>tok h. extractBearer env r = Some (tok, h) \<and> mem_owner s h \<noteq> None" using Some th own by simp
    ultimately show ?thesis using fr Some th own all(1,2) page by auto
  qed
qed

theorem my_urls_exact_witness:
  "status_of (snd (myurls_ServeHTTP mem_ops sample_env 100 (\<lambda>i. 7) (bearer_request '''' ''AQID'') bound_store)) = 200"
proof -
  have b: "extractBearer sample_env (bearer_request '''' ''AQID'') = Some (''AQID'', [4, 7])" by code_simp
  have n: "mem_owner bound_store [4, 7] = Some 1" by code_simp
  show ?thesis
    using my_urls_exact [OF bound_inv _ _ prod.collapse [symmetric], of 100 sample_env "\<lambda>i. 7" "bearer_request '''' ''AQID''"] b n
    by auto
qed

end
