(* ===== verification/Reads.thy ===== *)
theory Reads
  imports Owner_Ops "HOL-Library.Product_Lexorder" "HOL-Library.List_Lexorder"
begin

text \<open>
  The reads of a short code: its analytics (\<^verbatim>\<open>handlers/analytics.go\<close>), click log
  (\<^verbatim>\<open>handlers/clicks.go\<close>) and click series (\<^verbatim>\<open>handlers/series.go\<close>) for the owner, the badge
  (\<^verbatim>\<open>handlers/badge.go\<close>) and QR code (\<^verbatim>\<open>handlers/qr.go\<close>) for everybody.
\<close>

section \<open>The gate of the owner's reads\<close>

text \<open>
  The prefix the owner's reads share word for word: the code, the mapping, the credential.
  \<open>clk 0\<close> is the clock of \<^verbatim>\<open>Get\<close>, \<open>clk 1\<close> of the key lookup.
\<close>

definition owner_gate :: "'s store_ops \<Rightarrow> env \<Rightarrow> (nat \<Rightarrow> time) \<Rightarrow> request \<Rightarrow> 's \<Rightarrow> 's \<times> ('a reply + url_mapping)" where
  "owner_gate ops env clk r s =
     (if r_Code r = '''' then (s, Inl (WriteError 400 ''Short code is required''))
      else case st_Get ops (clk 0) (r_Code r) s of
        Inl e \<Rightarrow> (s, Inl (get_error e))
      | Inr m \<Rightarrow>
          (case authorizeAccess ops env (clk 1) r m s of
             (s1, False) \<Rightarrow> (s1, Inl (WriteError 401 ''missing or invalid admin token''))
           | (s1, True) \<Rightarrow> (s1, Inr m)))"

section \<open>strconv.Atoi\<close>

fun atoi_digits :: "string \<Rightarrow> int \<Rightarrow> int option" where
  "atoi_digits [] n = Some n"
| "atoi_digits (c # cs) n =
     (let d = of_char c in if d < (48 :: int) \<or> d > 57 then None else atoi_digits cs (n * 10 + (d - 48)))"

text \<open>\<open>None\<close> is a syntax or range error.\<close>

definition Atoi :: "string \<Rightarrow> int option" where
  "Atoi s =
     (let neg = HasPrefix s ''-''; ds = (if neg \<or> HasPrefix s ''+'' then tl s else s)
      in if ds = '''' then None
         else case atoi_digits ds 0 of
           None \<Rightarrow> None
         | Some n \<Rightarrow> let v = (if neg then - n else n) in if in_int64 v then Some v else None)"

text \<open>The limit parameter of the click log and the export: invalid values leave the default.\<close>

definition query_limit :: "string \<Rightarrow> int \<Rightarrow> int \<Rightarrow> int" where
  "query_limit v def max_limit =
     (if v = '''' then def
      else case Atoi v of
        None \<Rightarrow> def
      | Some parsed \<Rightarrow> if parsed > 0 then (if parsed > max_limit then max_limit else parsed) else def)"

section \<open>Analytics\<close>

definition analyticsTopCountriesSample :: int where "analyticsTopCountriesSample = 1000"
definition analyticsTopCountriesLimit :: nat where "analyticsTopCountriesLimit = 10"

text \<open>The counting loop, on a Go map.\<close>

fun count_countries :: "click_event list \<Rightarrow> (string \<times> int) list \<Rightarrow> (string \<times> int) list" where
  "count_countries [] counts = counts"
| "count_countries (ev # evs) counts =
     (if ev_Country ev = '''' then count_countries evs counts
      else count_countries evs (AList.update (ev_Country ev) (opt_or 0 (map_of counts (ev_Country ev)) + 1) counts))"

text \<open>\<^verbatim>\<open>sort.Slice\<close> by descending count, then ISO code (bytewise).\<close>

definition sort_countries :: "country_count list \<Rightarrow> country_count list" where
  "sort_countries = sort_key (\<lambda>c. (- cc_Count c, cc_ISO c))"

definition topCountries :: "'s store_ops \<Rightarrow> string \<Rightarrow> 's \<Rightarrow> country_count list" where
  "topCountries ops code s =
     (case st_RecentClicks ops code analyticsTopCountriesSample s of
        Inl e \<Rightarrow> []
      | Inr events \<Rightarrow>
          (let counts = count_countries events [];
               out = sort_countries (map (\<lambda>(iso, n). \<lparr>cc_ISO = iso, cc_Count = n\<rparr>) counts)
           in if length out > analyticsTopCountriesLimit then take analyticsTopCountriesLimit out else out))"

definition analytics_ServeHTTP :: "'s store_ops \<Rightarrow> env \<Rightarrow> (nat \<Rightarrow> time) \<Rightarrow> request \<Rightarrow> 's \<Rightarrow> 's \<times> analytics_response reply" where
  "analytics_ServeHTTP ops env clk r s =
     (case owner_gate ops env clk r s of
        (s1, Inl e) \<Rightarrow> (s1, e)
      | (s1, Inr m) \<Rightarrow>
          (s1, Payload 200 \<lparr>ar_ShortCode = m_ID m, ar_OriginalURL = m_OriginalURL m, ar_ClickCount = m_ClickCount m,
            ar_CreatedAt = m_CreatedAt m, ar_ExpiresAt = m_ExpiresAt m, ar_LastAccessed = m_LastAccessed m,
            ar_Tags = m_Tags m, ar_MaxClicks = m_MaxClicks m, ar_HasPassword = (m_PasswordHash m \<noteq> []),
            ar_WebhookURL = m_WebhookURL m, ar_PreviewTitle = m_PreviewTitle m, ar_PreviewImage = m_PreviewImage m,
            ar_PreviewDescription = m_PreviewDescription m, ar_PreviewFetchedAt = m_PreviewFetchedAt m,
            ar_Destinations = m_Destinations m, ar_TopCountries = topCountries ops (r_Code r) s1\<rparr>))"

section \<open>The click log\<close>

record clicks_response =
  cr_ShortCode :: string
  cr_Count :: int
  cr_Events :: "click_event list"

definition NewClicksHandler :: "int \<Rightarrow> int" where
  "NewClicksHandler max_limit = (if max_limit \<le> 0 then 200 else max_limit)"

definition clicks_ServeHTTP :: "'s store_ops \<Rightarrow> env \<Rightarrow> int \<Rightarrow> (nat \<Rightarrow> time) \<Rightarrow> request \<Rightarrow> 's \<Rightarrow> 's \<times> clicks_response reply" where
  "clicks_ServeHTTP ops env max_limit clk r s =
     (case owner_gate ops env clk r s of
        (s1, Inl e) \<Rightarrow> (s1, e)
      | (s1, Inr m) \<Rightarrow>
          (case st_RecentClicks ops (r_Code r) (query_limit (r_Query r ''limit'') max_limit max_limit) s1 of
             Inl e \<Rightarrow> (s1, HttpError 500 ''Internal server error'')
           | Inr events \<Rightarrow> (s1, Payload 200 \<lparr>cr_ShortCode = r_Code r, cr_Count = int (length events), cr_Events = events\<rparr>)))"

section \<open>The click series\<close>

record range_cap =
  g_bucket :: duration
  g_defN :: int
  g_maxN :: int

definition rangeCaps :: "string \<Rightarrow> range_cap option" where
  "rangeCaps = map_of
     [(''minute'', \<lparr>g_bucket = 60000000000, g_defN = 60, g_maxN = 240\<rparr>),
      (''hour'', \<lparr>g_bucket = 3600000000000, g_defN = 24, g_maxN = 168\<rparr>),
      (''day'', \<lparr>g_bucket = 24 * 3600000000000, g_defN = 30, g_maxN = 365\<rparr>)]"

record series_response =
  sr_ShortCode :: string
  sr_Bucket :: string
  sr_BucketSecs :: int
  sr_End :: time
  sr_Counts :: "int list"

text \<open>Go's integer division, which truncates.\<close>

definition go_div :: "int \<Rightarrow> int \<Rightarrow> int" where
  "go_div a b = (if (a < 0) = (b < 0) then \<bar>a\<bar> div \<bar>b\<bar> else - (\<bar>a\<bar> div \<bar>b\<bar>))"

text \<open>The number of buckets, or the reply to a bad \<^verbatim>\<open>range\<close>.\<close>

definition series_count :: "string \<Rightarrow> range_cap \<Rightarrow> int option" where
  "series_count v cfg =
     (if v = '''' then Some (g_defN cfg)
      else case Atoi v of
        None \<Rightarrow> None
      | Some parsed \<Rightarrow> if parsed \<le> 0 then None
          else Some (if parsed > g_maxN cfg then g_maxN cfg else parsed))"

text \<open>The end of the newest bucket: \<^verbatim>\<open>now\<close> cut to a bucket boundary, plus one bucket.\<close>

definition series_end :: "time \<Rightarrow> duration \<Rightarrow> time" where
  "series_end now w = go_div now w * w + w"

text \<open>\<open>clk 2\<close> is the clock the window ends at.\<close>

definition series_ServeHTTP :: "'s store_ops \<Rightarrow> env \<Rightarrow> (nat \<Rightarrow> time) \<Rightarrow> request \<Rightarrow> 's \<Rightarrow> 's \<times> series_response reply" where
  "series_ServeHTTP ops env clk r s =
     (case owner_gate ops env clk r s of
        (s1, Inl e) \<Rightarrow> (s1, e)
      | (s1, Inr m) \<Rightarrow>
          (let q = r_Query r ''bucket''; bucketName = (if q = '''' then ''hour'' else q) in
           case rangeCaps bucketName of
             None \<Rightarrow> (s1, WriteError 400 ''bucket must be one of minute, hour, day'')
           | Some cfg \<Rightarrow>
               (case series_count (r_Query r ''range'') cfg of
                  None \<Rightarrow> (s1, WriteError 400 ''range must be a positive integer'')
                | Some n \<Rightarrow>
                    (let e = series_end (clk 2) (g_bucket cfg) in
                     case st_ClicksByBucket ops (r_Code r) e (g_bucket cfg) n s1 of
                       Inl ErrNotFound \<Rightarrow> (s1, NotFoundPage)
                     | Inl _ \<Rightarrow> (s1, HttpError 500 ''Internal server error'')
                     | Inr counts \<Rightarrow>
                         (s1, Payload 200 \<lparr>sr_ShortCode = r_Code r, sr_Bucket = bucketName,
                            sr_BucketSecs = g_bucket cfg div 1000000000, sr_End = e, sr_Counts = counts\<rparr>)))))"

section \<open>Public reads\<close>

text \<open>
  The badge as an SVG. \<^verbatim>\<open>html.EscapeString\<close> leaves a printed number as it is.
\<close>

definition renderBadge :: "int \<Rightarrow> string" where
  "renderBadge n =
     (let labelW = 6 * int (length ''clicks'') + 10; countStr = show_int n;
          w = 8 * int (length countStr) + 10; countW = (if w < 24 then 24 else w);
          totalW = labelW + countW; labelMid = labelW div 2; countMid = labelW + countW div 2
      in ''<svg xmlns=\"http://www.w3.org/2000/svg\" width=\"'' @ show_int totalW @ ''\" height=\"20\" role=\"img\" aria-label=\"clicks: '' @ countStr @ ''\">'' @ [CHR 0x0A] @
      ''<linearGradient id=\"g\" x2=\"0\" y2=\"100%\"><stop offset=\"0\" stop-color=\"#bbb\" stop-opacity=\".1\"/><stop offset=\"1\" stop-opacity=\".1\"/></linearGradient>'' @ [CHR 0x0A] @
      ''<mask id=\"m\"><rect width=\"'' @ show_int totalW @ ''\" height=\"20\" rx=\"3\" fill=\"#fff\"/></mask>'' @ [CHR 0x0A] @
      ''<g mask=\"url(#m)\">'' @ [CHR 0x0A] @
      ''<rect width=\"'' @ show_int labelW @ ''\" height=\"20\" fill=\"#555\"/>'' @ [CHR 0x0A] @
      ''<rect x=\"'' @ show_int labelW @ ''\" width=\"'' @ show_int countW @ ''\" height=\"20\" fill=\"#10b981\"/>'' @ [CHR 0x0A] @
      ''<rect width=\"'' @ show_int totalW @ ''\" height=\"20\" fill=\"url(#g)\"/>'' @ [CHR 0x0A] @
      ''</g>'' @ [CHR 0x0A] @
      ''<g fill=\"#fff\" text-anchor=\"middle\" font-family=\"DejaVu Sans,Verdana,Geneva,sans-serif\" font-size=\"11\">'' @ [CHR 0x0A] @
      ''<text x=\"'' @ show_int labelMid @ ''\" y=\"14\">'' @ ''clicks'' @ ''</text>'' @ [CHR 0x0A] @
      ''<text x=\"'' @ show_int countMid @ ''\" y=\"14\">'' @ countStr @ ''</text>'' @ [CHR 0x0A] @
      ''</g>'' @ [CHR 0x0A] @
      ''</svg>'')"

definition badge_code :: "string \<Rightarrow> string" where
  "badge_code rawCode =
     (if length rawCode > 4 \<and> drop (length rawCode - 4) rawCode = ''.svg''
      then take (length rawCode - 4) rawCode else rawCode)"

definition badge_ServeHTTP :: "'s store_ops \<Rightarrow> time \<Rightarrow> request \<Rightarrow> 's \<Rightarrow> string reply" where
  "badge_ServeHTTP ops now r s =
     (let code = badge_code (r_Code r) in
        if code = '''' then NotFoundPage
        else case st_Get ops now code s of
          Inl ErrNotFound \<Rightarrow> NotFoundPage
        | Inl ErrExpired \<Rightarrow> Bare 410
        | Inl _ \<Rightarrow> HttpError 500 ''Internal server error''
        | Inr m \<Rightarrow> Payload 200 (renderBadge (m_ClickCount m)))"

text \<open>\<open>qr\<close> is the QR library's encoder; \<open>None\<close> is its error.\<close>

definition qr_ServeHTTP :: "'s store_ops \<Rightarrow> string \<Rightarrow> (string \<Rightarrow> bytes option) \<Rightarrow> time \<Rightarrow> request \<Rightarrow> 's \<Rightarrow> bytes reply" where
  "qr_ServeHTTP ops baseURL qr now r s =
     (let code = r_Code r in
        if code = '''' then NotFoundPage
        else case st_Get ops now code s of
          Inl e \<Rightarrow> get_error e
        | Inr m \<Rightarrow>
            (case qr (baseURL @ ''/'' @ code) of
               None \<Rightarrow> HttpError 500 ''qr generation failed''
             | Some png \<Rightarrow> Payload 200 png))"

end
