(* ===== verification/Export.thy ===== *)
theory Export
  imports Reads Click_Stream
begin

text \<open>
  The export of a click log as CSV or JSON (\<^verbatim>\<open>handlers/export.go\<close>) and the live stream of clicks
  as server-sent events (\<^verbatim>\<open>handlers/stream.go\<close>), with the parts of Go's \<^verbatim>\<open>encoding/csv\<close> and
  \<^verbatim>\<open>time\<close> packages they write with.
\<close>

section \<open>Timestamps\<close>

text \<open>The civil date of a day number, counted from 1970-01-01: year, month, day.\<close>

definition civil :: "int \<Rightarrow> int \<times> int \<times> int" where
  "civil days =
     (let z = days + 719468; era = z div 146097; doe = z mod 146097;
          yoe = (doe - doe div 1460 + doe div 36524 - doe div 146096) div 365;
          doy = doe - (365 * yoe + yoe div 4 - yoe div 100);
          mp = (5 * doy + 2) div 153; d = doy - (153 * mp + 2) div 5 + 1;
          m = (if mp < 10 then mp + 3 else mp - 9)
      in (yoe + era * 400 + (if m \<le> 2 then 1 else 0), m, d))"

definition pad :: "nat \<Rightarrow> int \<Rightarrow> string" where
  "pad w n = (let s = show_int n in replicate (w - length s) (CHR ''0'') @ s)"

text \<open>\<^verbatim>\<open>At.UTC().Format("2006-01-02T15:04:05Z")\<close>, of nanoseconds since 1970.\<close>

definition format_utc :: "time \<Rightarrow> string" where
  "format_utc t =
     (let secs = t div 1000000000; (y, m, d) = civil (secs div 86400); r = secs mod 86400
      in pad 4 y @ ''-'' @ pad 2 m @ ''-'' @ pad 2 d @ ''T'' @ pad 2 (r div 3600) @ '':'' @
         pad 2 (r mod 3600 div 60) @ '':'' @ pad 2 (r mod 60) @ ''Z'')"

section \<open>encoding/csv\<close>

definition csv_special :: "char \<Rightarrow> bool" where
  "csv_special c = (c = CHR '','' \<or> c = CHR 0x22 \<or> c = CHR 0x0A \<or> c = CHR 0x0D)"

definition fieldNeedsQuotes :: "string \<Rightarrow> bool" where
  "fieldNeedsQuotes f = (f \<noteq> [] \<and> (f = [CHR 0x5C, CHR ''.''] \<or> list_ex csv_special f \<or> leading spaces f \<noteq> None))"

definition double_quotes :: "string \<Rightarrow> string" where
  "double_quotes f = concat (map (\<lambda>c. if c = CHR 0x22 then [CHR 0x22, CHR 0x22] else [c]) f)"

definition csv_field :: "string \<Rightarrow> string" where
  "csv_field f = (if fieldNeedsQuotes f then [CHR 0x22] @ double_quotes f @ [CHR 0x22] else f)"

fun csv_fields :: "string list \<Rightarrow> string" where
  "csv_fields [] = []"
| "csv_fields [f] = csv_field f"
| "csv_fields (f # fs) = csv_field f @ [CHR '',''] @ csv_fields fs"

definition csv_row :: "string list \<Rightarrow> string" where
  "csv_row fs = csv_fields fs @ [CHR 0x0A]"

definition csv_header :: "string list" where
  "csv_header = [''at'', ''ua_class'', ''referer'', ''country'', ''ip_hash'', ''destination_url'']"

definition csv_record :: "click_event \<Rightarrow> string list" where
  "csv_record ev = [format_utc (ev_At ev), ev_UAClass ev, ev_Referer ev, ev_Country ev, ev_IPHash ev, ev_DestinationURL ev]"

definition writeClicksCSV :: "click_event list \<Rightarrow> string" where
  "writeClicksCSV events = csv_row csv_header @ concat (map (\<lambda>ev. csv_row (csv_record ev)) events)"

section \<open>The export\<close>

definition exportMaxLimit :: int where "exportMaxLimit = 50000"
definition exportDefaultLimit :: int where "exportDefaultLimit = 5000"

definition NewExportHandler :: "int \<Rightarrow> int" where
  "NewExportHandler max_limit = (if max_limit \<le> 0 then exportMaxLimit else max_limit)"

text \<open>The two payloads: the CSV text, or the value that is encoded as JSON.\<close>

datatype export_payload = CSV string | JSON clicks_response

definition export_ServeHTTP :: "'s store_ops \<Rightarrow> env \<Rightarrow> int \<Rightarrow> (nat \<Rightarrow> time) \<Rightarrow> request \<Rightarrow> 's \<Rightarrow> 's \<times> export_payload reply" where
  "export_ServeHTTP ops env max_limit clk r s =
     (case owner_gate ops env clk r s of
        (s1, Inl e) \<Rightarrow> (s1, e)
      | (s1, Inr m) \<Rightarrow>
          (let q = r_Query r ''format''; fmt = (if q = '''' then ''csv'' else q) in
           if fmt \<noteq> ''csv'' \<and> fmt \<noteq> ''json'' then (s1, WriteError 400 ''format must be csv or json'')
           else case st_RecentClicks ops (r_Code r) (query_limit (r_Query r ''limit'') exportDefaultLimit max_limit) s1 of
             Inl e \<Rightarrow> (s1, HttpError 500 ''Internal server error'')
           | Inr events \<Rightarrow>
               (s1, Payload 200 (if fmt = ''csv'' then CSV (writeClicksCSV events)
                  else JSON \<lparr>cr_ShortCode = r_Code r, cr_Count = int (length events), cr_Events = events\<rparr>))))"

section \<open>The live stream\<close>

text \<open>
  The part up to the subscription: on success the reply is a bare 200 and the click stream has a
  new subscriber. \<open>flusher\<close> says whether the response writer can flush.
\<close>

definition stream_open :: "'s store_ops \<Rightarrow> env \<Rightarrow> (nat \<Rightarrow> time) \<Rightarrow> bool \<Rightarrow> request \<Rightarrow> 's \<Rightarrow> click_stream
    \<Rightarrow> 's \<times> click_stream \<times> unit reply" where
  "stream_open ops env clk flusher r s cs =
     (if r_Code r = '''' then (s, cs, WriteError 400 ''Short code is required'')
      else case st_Get ops (clk 0) (r_Code r) s of
        Inl ErrNotFound \<Rightarrow> (s, cs, NotFoundPage)
      | Inl ErrExpired \<Rightarrow> (s, cs, Bare 410)
      | Inl _ \<Rightarrow> (s, cs, HttpError 500 ''Internal server error'')
      | Inr m \<Rightarrow>
          (case authorizeAccess ops env (clk 1) r m s of
             (s1, False) \<Rightarrow> (s1, cs, WriteError 401 ''missing or invalid admin token'')
           | (s1, True) \<Rightarrow>
               if \<not> flusher then (s1, cs, HttpError 500 ''streaming not supported'')
               else (s1, Subscribe (r_Code r) cs, Bare 200)))"

text \<open>The heartbeat \<^verbatim>\<open>NewStreamHandler\<close> sets, in nanoseconds.\<close>

definition stream_heartbeat :: int where
  "stream_heartbeat = 15 * 1000000000"

text \<open>What the \<^verbatim>\<open>select\<close> of the loop may see, with whether the write it leads to succeeds.\<close>

datatype sse_input = CtxDone | Recv click_event | ChanClosed | Heartbeat

text \<open>
  The frames written after the opening comment; \<open>marshal\<close> is \<^verbatim>\<open>json.Marshal\<close> of an event, \<open>None\<close>
  its error.
\<close>

fun sse_loop :: "(click_event \<Rightarrow> string option) \<Rightarrow> (sse_input \<times> bool) list \<Rightarrow> string list" where
  "sse_loop marshal [] = []"
| "sse_loop marshal ((CtxDone, ok) # rest) = []"
| "sse_loop marshal ((ChanClosed, ok) # rest) = []"
| "sse_loop marshal ((Recv ev, ok) # rest) =
     (case marshal ev of
        None \<Rightarrow> sse_loop marshal rest
      | Some data \<Rightarrow>
          if \<not> ok then [] else (''event: click'' @ [CHR 0x0A] @ ''data: '' @ data @ [CHR 0x0A, CHR 0x0A]) # sse_loop marshal rest)"
| "sse_loop marshal ((Heartbeat, ok) # rest) =
     (if \<not> ok then [] else ('': heartbeat'' @ [CHR 0x0A, CHR 0x0A]) # sse_loop marshal rest)"

definition sse_output :: "(click_event \<Rightarrow> string option) \<Rightarrow> (sse_input \<times> bool) list \<Rightarrow> string list" where
  "sse_output marshal inputs = ('': connected'' @ [CHR 0x0A, CHR 0x0A]) # sse_loop marshal inputs"

end
