(* ===== verification/Export_Props.thy ===== *)
theory Export_Props
  imports Export Patch_Props Mem_Props
begin

text \<open>
  The CSV export read back by an RFC 4180 reader, and what the owner's reads answer.
\<close>

section \<open>A CSV reader\<close>

text \<open>
  Where the reader is: at the start of a field, inside an unquoted one, inside quotes, after a
  closing quote. \<open>None\<close> is a malformed text.
\<close>

datatype csv_mode = Start | Plain | Quoted | Closed

fun csv_read :: "csv_mode \<Rightarrow> string \<Rightarrow> string list \<Rightarrow> string \<Rightarrow> string list list option" where
  "csv_read Start f row [] = (if row = [] then Some [] else None)"
| "csv_read _ f row [] = None"
| "csv_read Start f row (c # s) =
     (if c = CHR 0x22 then csv_read Quoted [] row s
      else if c = CHR '','' then csv_read Start [] (row @ [[]]) s
      else if c = CHR 0x0A then map_option ((#) (row @ [[]])) (csv_read Start [] [] s)
      else csv_read Plain [c] row s)"
| "csv_read Plain f row (c # s) =
     (if c = CHR '','' then csv_read Start [] (row @ [f]) s
      else if c = CHR 0x0A then map_option ((#) (row @ [f])) (csv_read Start [] [] s)
      else if c = CHR 0x22 then None
      else csv_read Plain (f @ [c]) row s)"
| "csv_read Quoted f row (c # s) =
     (if c = CHR 0x22 then csv_read Closed f row s else csv_read Quoted (f @ [c]) row s)"
| "csv_read Closed f row (c # s) =
     (if c = CHR 0x22 then csv_read Quoted (f @ [CHR 0x22]) row s
      else if c = CHR '','' then csv_read Start [] (row @ [f]) s
      else if c = CHR 0x0A then map_option ((#) (row @ [f])) (csv_read Start [] [] s)
      else None)"

definition read_csv :: "string \<Rightarrow> string list list option" where
  "read_csv s = csv_read Start [] [] s"

section \<open>The reader undoes the writer\<close>

text \<open>What happens at the end of a field: a comma starts the next one, a newline ends the row.\<close>

definition field_end :: "string \<Rightarrow> string list \<Rightarrow> string \<Rightarrow> string list list option" where
  "field_end f row s = (case s of
     [] \<Rightarrow> None
   | c # r \<Rightarrow> if c = CHR '','' then csv_read Start [] (row @ [f]) r
       else if c = CHR 0x0A then map_option ((#) (row @ [f])) (csv_read Start [] [] r) else None)"

lemma read_plain:
  assumes "\<not> list_ex csv_special g" and "s \<noteq> []" and "hd s \<in> {CHR '','', CHR 0x0A}"
  shows "csv_read Plain f row (g @ s) = field_end (f @ g) row s"
  using assms
proof (induction g arbitrary: f)
  case Nil
  then show ?case by (cases s) (auto simp: field_end_def)
next
  case (Cons c g)
  then show ?case by (auto simp: csv_special_def)
qed

lemma read_quoted:
  assumes "s \<noteq> []" and "hd s \<in> {CHR '','', CHR 0x0A}"
  shows "csv_read Quoted f row (double_quotes g @ [CHR 0x22] @ s) = field_end (f @ g) row s"
proof (induction g arbitrary: f)
  case Nil
  then show ?case using assms by (cases s) (auto simp: field_end_def double_quotes_def)
next
  case (Cons c g)
  have "csv_read Quoted f row (double_quotes (c # g) @ [CHR 0x22] @ s)
      = csv_read Quoted (f @ [c]) row (double_quotes g @ [CHR 0x22] @ s)"
    by (simp add: double_quotes_def)
  then show ?case using Cons.IH [of "f @ [c]"] by simp
qed

lemma read_field:
  assumes "s \<noteq> []" and "hd s \<in> {CHR '','', CHR 0x0A}"
  shows "csv_read Start [] row (csv_field f @ s) = field_end f row s"
proof (cases "fieldNeedsQuotes f")
  case True
  then show ?thesis using read_quoted [OF assms, of "[]" row f] by (simp add: csv_field_def)
next
  case plain: False
  show ?thesis
  proof (cases f)
    case Nil
    then show ?thesis using plain assms by (cases s) (auto simp: csv_field_def field_end_def)
  next
    case (Cons c g)
    with plain have sp: "\<not> csv_special c" "\<not> list_ex csv_special g" by (auto simp: fieldNeedsQuotes_def)
    then have "csv_read Start [] row (csv_field f @ s) = csv_read Plain [c] row (g @ s)"
      using plain Cons by (simp add: csv_field_def csv_special_def)
    then show ?thesis using read_plain [OF sp(2) assms, of "[c]" row] Cons by simp
  qed
qed

lemma read_fields:
  "fs \<noteq> [] \<Longrightarrow> csv_read Start [] row (csv_fields fs @ [CHR 0x0A] @ s) = map_option ((#) (row @ fs)) (csv_read Start [] [] s)"
proof (induction fs arbitrary: row rule: csv_fields.induct)
  case (2 f)
  then show ?case using read_field [of "[CHR 0x0A] @ s" row f] by (simp add: field_end_def)
next
  case (3 f g fs)
  have "csv_read Start [] row (csv_fields (f # g # fs) @ [CHR 0x0A] @ s)
      = csv_read Start [] row (csv_field f @ (CHR '','' # csv_fields (g # fs) @ [CHR 0x0A] @ s))" by simp
  also have "\<dots> = csv_read Start [] (row @ [f]) (csv_fields (g # fs) @ [CHR 0x0A] @ s)"
    by (subst read_field) (simp_all add: field_end_def)
  finally show ?case using "3.IH" [of "row @ [f]"] by simp
qed simp

lemma read_rows:
  "list_all (\<lambda>r. r \<noteq> []) rows \<Longrightarrow> read_csv (concat (map csv_row rows)) = Some rows"
  by (induction rows) (simp_all add: read_csv_def csv_row_def read_fields [simplified])

text \<open>
  C36. The CSV export loses nothing and confuses nothing: a standard CSV reader reads back exactly
  the header and one row of six fields per event, whatever bytes (commas, quotes, newlines) the
  stored strings hold.
\<close>
theorem csv_roundtrip:
  "read_csv (writeClicksCSV events) = Some (csv_header # map csv_record events)"
proof -
  have "writeClicksCSV events = concat (map csv_row (csv_header # map csv_record events))"
    by (simp add: writeClicksCSV_def comp_def)
  moreover have "list_all (\<lambda>r. r \<noteq> []) (csv_header # map csv_record events)"
    by (simp add: csv_header_def csv_record_def list_all_iff)
  ultimately show ?thesis using read_rows by metis
qed

end
