(* ===== verification/Read_Props.thy ===== *)
theory Read_Props
  imports Export_Props
begin

text \<open>What the owner's reads answer, and to whom.\<close>

section \<open>The gate\<close>

context key_store
begin

lemma owner_gate_spec:
  assumes "valid s" and "owner_gate ops env clk r s = (s', x)"
  shows "valid s' \<and> view s' = view s \<and> owner s' = owner s
    \<and> (case x of
        Inl e \<Rightarrow> status_of e \<in> {400, 401, 404, 410, 500} \<and> \<not> (\<exists>m. may_act (view s) (owner s) env (clk 0) r m)
      | Inr m \<Rightarrow> may_act (view s) (owner s) env (clk 0) r m)"
proof (cases "r_Code r = ''''")
  case True
  then show ?thesis using assms by (auto simp: owner_gate_def may_act_def)
next
  case nonempty: False
  show ?thesis
  proof (cases "st_Get ops (clk 0) (r_Code r) s")
    case (Inl e)
    then have "\<not> (\<exists>m. may_act (view s) (owner s) env (clk 0) r m)"
      using get_spec [OF assms(1), of "clk 0" "r_Code r"] by (auto simp: may_act_def)
    then show ?thesis using Inl nonempty assms get_error_status [where 'a = 'b, of e] by (auto simp: owner_gate_def)
  next
    case (Inr m)
    note m = get_Inr [OF assms(1) Inr]
    obtain s1 b where a: "authorizeAccess ops env (clk 1) r m s = (s1, b)"
      by (cases "authorizeAccess ops env (clk 1) r m s")
    have b: "b \<longleftrightarrow> (\<exists>m. may_act (view s) (owner s) env (clk 0) r m)" "b \<longleftrightarrow> may_act (view s) (owner s) env (clk 0) r m"
      using authorizeAccess_iff [OF assms(1), of env "clk 1" r m] a m nonempty by (auto simp: may_act_def)
    from authorizeAccess_frame [OF assms(1) a] have fr: "valid s1 \<and> view s1 = view s \<and> owner s1 = owner s" .
    show ?thesis
    proof (cases b)
      case True
      then have "s' = s1" "x = Inr m" using a Inr nonempty assms(2) by (simp_all add: owner_gate_def)
      then show ?thesis using fr b(2) True by simp
    next
      case False
      then have "s' = s1" "x = Inl (WriteError 401 ''missing or invalid admin token'')"
        using a Inr nonempty assms(2) by (simp_all add: owner_gate_def)
      then show ?thesis using fr b(1) False by simp
    qed
  qed
qed

text \<open>A handler that answers the reply of the gate, or goes on without changing the state.\<close>

lemma gated_read:
  assumes "valid s" and "owner_gate ops env clk r s = (s1, x)"
    and "\<And>e. x = Inl e \<Longrightarrow> s' = s1 \<and> status_of reply = status_of e" and "\<And>m. x = Inr m \<Longrightarrow> s' = s1"
  shows "valid s' \<and> view s' = view s \<and> owner s' = owner s
    \<and> (status_of reply = 200 \<longrightarrow> (\<exists>m. may_act (view s) (owner s) env (clk 0) r m))"
  using owner_gate_spec [OF assms(1,2)] assms(3,4) by (cases x) auto

lemma analytics_gated:
  assumes "valid s" and "analytics_ServeHTTP ops env clk r s = (s', reply)"
  shows "valid s' \<and> view s' = view s \<and> owner s' = owner s
    \<and> (status_of reply = 200 \<longrightarrow> (\<exists>m. may_act (view s) (owner s) env (clk 0) r m))"
  using assms(2) by (cases "owner_gate ops env clk r s :: 's \<times> (analytics_response reply + url_mapping)")
    (rule gated_read [OF assms(1)], auto simp: analytics_ServeHTTP_def split: sum.splits)

lemma clicks_gated:
  assumes "valid s" and "clicks_ServeHTTP ops env max_limit clk r s = (s', reply)"
  shows "valid s' \<and> view s' = view s \<and> owner s' = owner s
    \<and> (status_of reply = 200 \<longrightarrow> (\<exists>m. may_act (view s) (owner s) env (clk 0) r m))"
  using assms(2) by (cases "owner_gate ops env clk r s :: 's \<times> (clicks_response reply + url_mapping)")
    (rule gated_read [OF assms(1)], auto simp: clicks_ServeHTTP_def split: sum.splits)

lemma series_gated:
  assumes "valid s" and "series_ServeHTTP ops env clk r s = (s', reply)"
  shows "valid s' \<and> view s' = view s \<and> owner s' = owner s
    \<and> (status_of reply = 200 \<longrightarrow> (\<exists>m. may_act (view s) (owner s) env (clk 0) r m))"
  using assms(2) by (cases "owner_gate ops env clk r s :: 's \<times> (series_response reply + url_mapping)")
    (rule gated_read [OF assms(1)], auto simp: series_ServeHTTP_def Let_def split: sum.splits option.splits store_err.splits)

lemma export_gated:
  assumes "valid s" and "export_ServeHTTP ops env max_limit clk r s = (s', reply)"
  shows "valid s' \<and> view s' = view s \<and> owner s' = owner s
    \<and> (status_of reply = 200 \<longrightarrow> (\<exists>m. may_act (view s) (owner s) env (clk 0) r m))"
  using assms(2) by (cases "owner_gate ops env clk r s :: 's \<times> (export_payload reply + url_mapping)")
    (rule gated_read [OF assms(1)], auto simp: export_ServeHTTP_def Let_def split: sum.splits if_splits)

lemma stream_gated:
  assumes "valid s" and "stream_open ops env clk flusher r s cs = (s', cs', reply)"
  shows "valid s' \<and> view s' = view s \<and> owner s' = owner s
    \<and> (if status_of reply = 200 then cs' = Subscribe (r_Code r) cs \<and> (\<exists>m. may_act (view s) (owner s) env (clk 0) r m)
       else cs' = cs)"
proof (cases "r_Code r = ''''")
  case True
  then show ?thesis using assms by (auto simp: stream_open_def)
next
  case nonempty: False
  show ?thesis
  proof (cases "st_Get ops (clk 0) (r_Code r) s")
    case (Inl e)
    then show ?thesis using nonempty assms by (cases e) (auto simp: stream_open_def)
  next
    case (Inr m)
    note m = get_Inr [OF assms(1) Inr]
    obtain s1 b where a: "authorizeAccess ops env (clk 1) r m s = (s1, b)"
      by (cases "authorizeAccess ops env (clk 1) r m s")
    have "b \<Longrightarrow> may_act (view s) (owner s) env (clk 0) r m"
      using authorizeAccess_iff [OF assms(1), of env "clk 1" r m] a m nonempty by (auto simp: may_act_def)
    then show ?thesis using authorizeAccess_frame [OF assms(1) a] a Inr nonempty assms(2)
      by (cases b) (auto simp: stream_open_def split: if_splits)
  qed
qed

end

text \<open>The reads at most look their bearer up.\<close>

lemma owner_gate_stamps:
  assumes "mem_inv s" and "owner_gate mem_ops env clk r s = (s1, x)"
  shows "only_stamped env r s s1"
proof (cases "mem_Get (clk 0) (r_Code r) s")
  case (Inl e)
  then show ?thesis using assms(2) by (auto simp: owner_gate_def only_stamped_refl split: if_splits)
next
  case (Inr m)
  obtain s2 b where a: "authorizeAccess mem_ops env (clk 1) r m s = (s2, b)" by (cases "authorizeAccess mem_ops env (clk 1) r m s")
  then have "s1 = s \<or> s1 = s2" using assms(2) Inr by (cases b) (auto simp: owner_gate_def split: if_splits)
  then show ?thesis using authorizeAccess_stamps [OF assms(1) a] only_stamped_refl by blast
qed

lemma stream_stamps:
  assumes "mem_inv s" and "stream_open mem_ops env clk flusher r s cs = (s1, cs', reply)"
  shows "only_stamped env r s s1"
proof (cases "mem_Get (clk 0) (r_Code r) s")
  case (Inl e)
  then show ?thesis using assms(2) by (cases e) (auto simp: stream_open_def only_stamped_refl split: if_splits)
next
  case (Inr m)
  obtain s2 b where a: "authorizeAccess mem_ops env (clk 1) r m s = (s2, b)" by (cases "authorizeAccess mem_ops env (clk 1) r m s")
  then have "s1 = s \<or> s1 = s2" using assms(2) Inr by (cases b) (auto simp: stream_open_def split: if_splits)
  then show ?thesis using authorizeAccess_stamps [OF assms(1) a] only_stamped_refl by blast
qed

lemma reads_stamp:
  assumes "mem_inv s"
    and "analytics_ServeHTTP mem_ops env clk r s = (s1, reply1)"
    and "clicks_ServeHTTP mem_ops env max_limit clk r s = (s2, reply2)"
    and "series_ServeHTTP mem_ops env clk r s = (s3, reply3)"
    and "export_ServeHTTP mem_ops env max_limit clk r s = (s4, reply4)"
    and "stream_open mem_ops env clk flusher r s cs = (s5, cs', reply5)"
  shows "only_stamped env r s s1 \<and> only_stamped env r s s2 \<and> only_stamped env r s s3 \<and> only_stamped env r s s4
    \<and> only_stamped env r s s5"
proof -
  note gate = owner_gate_stamps [OF assms(1)]
  obtain x1 :: "analytics_response reply + url_mapping" where 1: "owner_gate mem_ops env clk r s = (s1, x1)"
    using assms(2) by (auto simp: analytics_ServeHTTP_def split: prod.splits sum.splits)
  obtain x2 :: "clicks_response reply + url_mapping" where 2: "owner_gate mem_ops env clk r s = (s2, x2)"
    using assms(3) by (auto simp: clicks_ServeHTTP_def split: prod.splits sum.splits)
  obtain x3 :: "series_response reply + url_mapping" where 3: "owner_gate mem_ops env clk r s = (s3, x3)"
    using assms(4) by (auto simp: series_ServeHTTP_def Let_def split: prod.splits sum.splits option.splits store_err.splits)
  obtain x4 :: "export_payload reply + url_mapping" where 4: "owner_gate mem_ops env clk r s = (s4, x4)"
    using assms(5) by (auto simp: export_ServeHTTP_def Let_def split: prod.splits sum.splits if_splits)
  show ?thesis by (intro conjI gate [OF 1] gate [OF 2] gate [OF 3] gate [OF 4] stream_stamps [OF assms(1,6)])
qed

text \<open>
  C12. The owner's reads show nothing to others and leave the store as it was: whatever the request,
  analytics, click log, series, export and live stream change no mapping, click event, audit event or
  key, except that the time of last use of the key presented as the bearer may be stamped; and each
  answers 200 (and the stream gains a subscriber) only for a live code and a bearer that is its owner
  token or the key it is bound to.
\<close>
theorem reads_gated:
  assumes "mem_inv s"
    and "analytics_ServeHTTP mem_ops env clk r s = (s1, reply1)"
    and "clicks_ServeHTTP mem_ops env max_limit clk r s = (s2, reply2)"
    and "series_ServeHTTP mem_ops env clk r s = (s3, reply3)"
    and "export_ServeHTTP mem_ops env max_limit clk r s = (s4, reply4)"
    and "stream_open mem_ops env clk flusher r s cs = (s5, cs', reply5)"
  shows "(\<forall>t \<in> {s1, s2, s3, s4, s5}. only_stamped env r s t \<and> mem_view t = mem_view s \<and> mem_owner t = mem_owner s)
    \<and> (200 \<in> {status_of reply1, status_of reply2, status_of reply3, status_of reply4, status_of reply5} \<or> cs' \<noteq> cs
       \<longrightarrow> (\<exists>m. may_act (mem_view s) (mem_owner s) env (clk 0) r m))"
  using mem.analytics_gated [OF assms(1,2)] mem.clicks_gated [OF assms(1,3)] mem.series_gated [OF assms(1,4)]
    mem.export_gated [OF assms(1,5)] mem.stream_gated [OF assms(1,6)] reads_stamp [OF assms]
  by (auto split: if_split_asm)

theorem reads_gated_witness:
  "status_of (snd (analytics_ServeHTTP mem_ops sample_env (\<lambda>i. 2000) (bearer_request ''promo'' ''no'') promo_store)) \<noteq> 200"
proof -
  let ?r = "bearer_request ''promo'' ''no''"
  obtain s1 reply1 where 1: "analytics_ServeHTTP mem_ops sample_env (\<lambda>i. 2000) ?r promo_store = (s1, reply1)"
    by (cases "analytics_ServeHTTP mem_ops sample_env (\<lambda>i. 2000) ?r promo_store")
  obtain s2 reply2 where 2: "clicks_ServeHTTP mem_ops sample_env 200 (\<lambda>i. 2000) ?r promo_store = (s2, reply2)"
    by (cases "clicks_ServeHTTP mem_ops sample_env 200 (\<lambda>i. 2000) ?r promo_store")
  obtain s3 reply3 where 3: "series_ServeHTTP mem_ops sample_env (\<lambda>i. 2000) ?r promo_store = (s3, reply3)"
    by (cases "series_ServeHTTP mem_ops sample_env (\<lambda>i. 2000) ?r promo_store")
  obtain s4 reply4 where 4: "export_ServeHTTP mem_ops sample_env 200 (\<lambda>i. 2000) ?r promo_store = (s4, reply4)"
    by (cases "export_ServeHTTP mem_ops sample_env 200 (\<lambda>i. 2000) ?r promo_store")
  obtain s5 cs' reply5 where 5: "stream_open mem_ops sample_env (\<lambda>i. 2000) True ?r promo_store NewClickStream = (s5, cs', reply5)"
    by (cases "stream_open mem_ops sample_env (\<lambda>i. 2000) True ?r promo_store NewClickStream")
  have eb: "extractBearer sample_env ?r = Some (''no'', [2, 7])" by code_simp
  have mv: "map_option (\<lambda>m. (m_OwnerTokenHash m, m_APIKeyID m)) (mem_view promo_store ''promo'') = Some ([4, 7], 0)" by code_simp
  have c: "r_Code ?r = ''promo''" by (simp add: bearer_request_def)
  have no: "\<not> (\<exists>m. may_act (mem_view promo_store) (mem_owner promo_store) sample_env 2000 ?r m)"
    using eb mv c by (auto simp: may_act_def grants_def)
  show ?thesis using reads_gated [OF promo_inv 1 2 3 4 5] no 1 by auto
qed

section \<open>Countries\<close>

definition country_clicks :: "string \<Rightarrow> click_event list \<Rightarrow> nat" where
  "country_clicks k evs = length (filter (\<lambda>ev. ev_Country ev = k) evs)"

lemma count_countries_keys:
  "distinct_keys cs \<Longrightarrow> distinct_keys (count_countries evs cs)"
  by (induction evs cs rule: count_countries.induct) auto

lemma count_countries_map:
  "k \<noteq> '''' \<Longrightarrow> map_of (count_countries evs cs) k =
     (if country_clicks k evs = 0 then map_of cs k
      else Some (opt_or 0 (map_of cs k) + int (country_clicks k evs)))"
proof (induction evs cs rule: count_countries.induct)
  case (1 counts)
  then show ?case by (simp add: country_clicks_def)
next
  case (2 ev evs counts)
  then show ?case by (auto simp: country_clicks_def map_of_update)
qed

lemma count_countries_empty: "map_of (count_countries evs cs) '''' = map_of cs ''''"
  by (induction evs cs rule: count_countries.induct) (auto simp: map_of_update)

text \<open>
  The country breakdown is exact over the sampled clicks: it is the first ten entries of the
  list of all countries of these clicks, each once with its number of clicks, unknown countries
  left out, in strictly descending order of count and ascending ISO code on ties.
\<close>
theorem top_countries_exact:
  assumes "st_RecentClicks ops code analyticsTopCountriesSample s = Inr evs"
  shows "\<exists>all. topCountries ops code s = take 10 all
    \<and> set all = {\<lparr>cc_ISO = k, cc_Count = int (country_clicks k evs)\<rparr> | k. k \<noteq> '''' \<and> 0 < country_clicks k evs}
    \<and> distinct (map cc_ISO all)
    \<and> sorted_wrt (\<lambda>a b. cc_Count b < cc_Count a \<or> cc_Count a = cc_Count b \<and> cc_ISO a < cc_ISO b) all"
proof -
  define counts where "counts = count_countries evs []"
  define cs where "cs = map (\<lambda>(iso, n). \<lparr>cc_ISO = iso, cc_Count = n\<rparr>) counts"
  define all where "all = sort_countries cs"
  have keys: "distinct_keys counts" using count_countries_keys [of "[]" evs] by (simp add: counts_def)
  have mem: "(k, n) \<in> set counts \<longleftrightarrow> k \<noteq> '''' \<and> 0 < country_clicks k evs \<and> n = int (country_clicks k evs)" for k n
  proof -
    have "map_of counts k = (if k = '''' \<or> country_clicks k evs = 0 then None else Some (int (country_clicks k evs)))"
      using count_countries_map [of k evs "[]"] count_countries_empty [of evs "[]"]
      by (cases "k = ''''") (simp_all add: counts_def)
    moreover have "(k, n) \<in> set counts \<longleftrightarrow> map_of counts k = Some n" using keys by (simp add: distinct_keys_def)
    ultimately show ?thesis by auto
  qed
  have cs: "set cs = {\<lparr>cc_ISO = k, cc_Count = int (country_clicks k evs)\<rparr> | k. k \<noteq> '''' \<and> 0 < country_clicks k evs}"
    using mem by (force simp: cs_def)
  have iso: "map cc_ISO cs = map fst counts" by (simp add: cs_def comp_def case_prod_unfold)
  have all: "mset all = mset cs" "sorted (map (\<lambda>c. (- cc_Count c, cc_ISO c)) all)"
    by (simp_all add: all_def sort_countries_def)
  have "mset (map cc_ISO all) = mset (map cc_ISO cs)" using all(1) by simp
  then have dist: "distinct (map cc_ISO all)"
    using keys iso by (metis distinct_keys_def mset_eq_imp_distinct_iff)
  have "sorted_wrt (\<lambda>a b. (- cc_Count a, cc_ISO a) \<le> (- cc_Count b, cc_ISO b)) all \<and> sorted_wrt (\<lambda>a b. cc_ISO a \<noteq> cc_ISO b) all"
    using all(2) dist by (simp add: sorted_map distinct_map distinct_conv_nth inj_on_def sorted_wrt_iff_nth_less)
  then have "sorted_wrt (\<lambda>a b. cc_Count b < cc_Count a \<or> cc_Count a = cc_Count b \<and> cc_ISO a < cc_ISO b) all"
    by (auto simp: sorted_wrt_iff_nth_less less_eq_prod_def order.order_iff_strict)
  moreover have "topCountries ops code s = take 10 all"
    using assms by (simp add: topCountries_def Let_def counts_def cs_def all_def analyticsTopCountriesLimit_def)
  moreover have "set all = {\<lparr>cc_ISO = k, cc_Count = int (country_clicks k evs)\<rparr> | k. k \<noteq> '''' \<and> 0 < country_clicks k evs}"
    using mset_eq_setD [OF all(1)] cs by simp
  ultimately show ?thesis using dist by (intro exI [of _ all] conjI)
qed

definition abroad_store :: mem_store where
  "abroad_store = NewMemoryStore\<lparr>s_urls := [(''ab'', sample_mapping ''ab'')],
     s_events := [(''ab'', map (\<lambda>k. (sample_click 5)\<lparr>ev_Country := k\<rparr>) [''DE'', '''', ''AT'', ''DE''])]\<rparr>"

theorem top_countries_exact_witness:
  "\<exists>all. topCountries mem_ops ''ab'' abroad_store = take 10 all \<and> \<lparr>cc_ISO = ''DE'', cc_Count = 2\<rparr> \<in> set all"
proof -
  obtain evs where evs: "st_RecentClicks mem_ops ''ab'' analyticsTopCountriesSample abroad_store = Inr evs"
      "map ev_Country evs = [''DE'', ''AT'', '''', ''DE'']"
  proof -
    have "(case st_RecentClicks mem_ops ''ab'' analyticsTopCountriesSample abroad_store of Inl e \<Rightarrow> None
        | Inr evs \<Rightarrow> Some (map ev_Country evs)) = Some [''DE'', ''AT'', '''', ''DE'']" by code_simp
    then show ?thesis by (auto intro: that split: sum.splits)
  qed
  have "country_clicks ''DE'' evs = length (filter (\<lambda>k. k = ''DE'') (map ev_Country evs))"
    by (simp add: country_clicks_def filter_map comp_def)
  then have "country_clicks ''DE'' evs = 2" using evs(2) by simp
  moreover obtain all where "topCountries mem_ops ''ab'' abroad_store = take 10 all"
      "set all = {\<lparr>cc_ISO = k, cc_Count = int (country_clicks k evs)\<rparr> | k. k \<noteq> '''' \<and> 0 < country_clicks k evs}"
    using top_countries_exact [OF evs(1)] by blast
  ultimately show ?thesis by (intro exI [of _ all]) force
qed

section \<open>The series\<close>

lemma lookup_events: "s_events (fst (mem_LookupAPIKey t h s)) = s_events s"
  by (simp add: mem_LookupAPIKey_def Let_def split: option.split prod.split)

lemma authorize_events: "authorizeAccess mem_ops env t r m s = (s', b) \<Longrightarrow> s_events s' = s_events s"
  using lookup_events [of t _ s]
  by (auto simp: authorizeAccess_def split: option.splits prod.splits if_splits sum.splits) (metis fst_conv)+

lemma owner_gate_pass:
  assumes "mem_inv s" and "may_act (mem_view s) (mem_owner s) env (clk 0) r m"
  shows "\<exists>s1. owner_gate mem_ops env clk r s = (s1, Inr m) \<and> mem_view s1 = mem_view s \<and> s_events s1 = s_events s"
proof -
  have g: "mem_Get (clk 0) (r_Code r) s = Inr m" "r_Code r \<noteq> ''''"
    using mem.get_spec [OF assms(1), of "clk 0" "r_Code r"] assms(2) by (auto simp: may_act_def)
  obtain s1 b where a: "authorizeAccess mem_ops env (clk 1) r m s = (s1, b)"
    by (cases "authorizeAccess mem_ops env (clk 1) r m s")
  have b using mem.authorizeAccess_iff [OF assms(1), of env "clk 1" r m] a assms(2) by (auto simp: may_act_def)
  then have "owner_gate mem_ops env clk r s = (s1, Inr m)" using g a by (simp add: owner_gate_def)
  then show ?thesis using mem.authorizeAccess_frame [OF assms(1) a] authorize_events [OF a] by blast
qed

lemma rangeCaps_bounds: "rangeCaps b = Some cfg \<Longrightarrow> 0 < g_bucket cfg \<and> 0 < g_defN cfg \<and> g_defN cfg \<le> g_maxN cfg
    \<and> g_bucket cfg \<le> 86400000000000 \<and> g_maxN cfg \<le> 365"
  by (auto simp: rangeCaps_def split: if_splits)

lemma series_count_range: "series_count v cfg = Some n \<Longrightarrow> 0 < g_defN cfg \<Longrightarrow> g_defN cfg \<le> g_maxN cfg \<Longrightarrow>
    1 \<le> n \<and> n \<le> g_maxN cfg"
  by (auto simp: series_count_def split: if_splits option.splits)

lemma series_end_aligned:
  assumes "0 \<le> now" and "0 < w"
  shows "w dvd series_end now w \<and> series_end now w - w \<le> now \<and> now < series_end now w"
proof -
  have e: "series_end now w = (now div w + 1) * w" using assms by (simp add: series_end_def go_div_def algebra_simps)
  have "now div w * w \<le> now \<and> now < now div w * w + w"
    using assms(2) pos_mod_bound [of w now] pos_mod_sign [of w now] div_mult_mod_eq [of now w] by linarith
  then show ?thesis unfolding e by (simp add: algebra_simps)
qed

text \<open>
  C33. For an authorised request with a known bucket width and a readable range, the series answers
  200 with between 1 and the cap of that width many counts; the window ends at the first multiple
  of the width after now, and count \<open>i\<close> is exactly the number of stored clicks of the code in its
  \<open>i\<close>-th bucket, oldest first.
\<close>
theorem series_exact:
  assumes "mem_inv s" and "may_act (mem_view s) (mem_owner s) env (clk 0) r m" and "0 \<le> clk 2"
    and "rangeCaps (r_Query r ''bucket'') = Some cfg" and "series_count (r_Query r ''range'') cfg = Some n"
  shows "\<exists>e. snd (series_ServeHTTP mem_ops env clk r s) = Payload 200 \<lparr>sr_ShortCode = r_Code r,
        sr_Bucket = r_Query r ''bucket'', sr_BucketSecs = g_bucket cfg div 1000000000, sr_End = e,
        sr_Counts = map (\<lambda>i. int (length (filter (in_bucket (e - n * g_bucket cfg) (g_bucket cfg) i) (events_of s (r_Code r)))))
          [0..<nat n]\<rparr>
    \<and> g_bucket cfg dvd e \<and> e - g_bucket cfg \<le> clk 2 \<and> clk 2 < e \<and> 1 \<le> n \<and> n \<le> g_maxN cfg"
proof -
  let ?w = "g_bucket cfg" and ?e = "series_end (clk 2) (g_bucket cfg)"
  note b = rangeCaps_bounds [OF assms(4)]
  have n: "1 \<le> n" "n \<le> g_maxN cfg" using series_count_range [OF assms(5)] b by auto
  obtain s1 where g: "owner_gate mem_ops env clk r s = (s1, Inr m :: series_response reply + url_mapping)"
      "mem_view s1 = mem_view s" "s_events s1 = s_events s"
    using owner_gate_pass [where clk = clk, OF assms(1,2)] by blast
  have "n * ?w \<le> 365 * 86400000000000" using n b by (intro mult_mono) auto
  then have "n * ?w < 2 ^ 63" by simp
  then have "mem_ClicksByBucket (r_Code r) ?e ?w n s1
      = Inr (map (\<lambda>i. int (length (filter (in_bucket (?e - n * ?w) ?w i) (events_of s1 (r_Code r))))) [0..<nat n])"
    using n b g(2) assms(2) by (intro clicks_by_bucket_eq) (auto simp: may_act_def)
  moreover have "events_of s1 (r_Code r) = events_of s (r_Code r)" using g(3) by (simp add: events_of_def)
  moreover have "r_Query r ''bucket'' \<noteq> ''''" using assms(4) by (auto simp: rangeCaps_def)
  ultimately have "snd (series_ServeHTTP mem_ops env clk r s) = Payload 200 \<lparr>sr_ShortCode = r_Code r,
        sr_Bucket = r_Query r ''bucket'', sr_BucketSecs = ?w div 1000000000, sr_End = ?e,
        sr_Counts = map (\<lambda>i. int (length (filter (in_bucket (?e - n * ?w) ?w i) (events_of s (r_Code r))))) [0..<nat n]\<rparr>"
    using g(1) assms(4,5) by (simp add: series_ServeHTTP_def Let_def)
  then show ?thesis using series_end_aligned [OF assms(3), of ?w] b n by blast
qed

definition series_request :: request where
  "series_request = (bearer_request ''promo'' ''AQID'')\<lparr>r_Query := (\<lambda>q. if q = ''bucket'' then ''minute'' else if q = ''range'' then ''3'' else '''')\<rparr>"

theorem series_exact_witness:
  "case snd (series_ServeHTTP mem_ops sample_env (\<lambda>i. 2000) series_request promo_store) of
     Payload st p \<Rightarrow> st = 200 \<and> length (sr_Counts p) = 3 | _ \<Rightarrow> False"
proof -
  have eb: "extractBearer sample_env series_request = Some (''AQID'', [4, 7])" by code_simp
  have c: "r_Code series_request = ''promo''" by (simp add: series_request_def bearer_request_def)
  have mv: "map_option (\<lambda>m. (m_OwnerTokenHash m, m_ExpiresAt m)) (mem_view promo_store ''promo'') = Some ([4, 7], Some 3600000001000)"
    by code_simp
  then obtain m where m: "mem_view promo_store ''promo'' = Some m" "m_OwnerTokenHash m = [4, 7]" "m_ExpiresAt m = Some 3600000001000"
    by auto
  then have act: "may_act (mem_view promo_store) (mem_owner promo_store) sample_env ((\<lambda>i. 2000) 0) series_request m"
    using eb c by (simp add: may_act_def grants_def expired_at_def)
  have q: "rangeCaps (r_Query series_request ''bucket'') = Some \<lparr>g_bucket = 60000000000, g_defN = 60, g_maxN = 240\<rparr>"
    "series_count (r_Query series_request ''range'') \<lparr>g_bucket = 60000000000, g_defN = 60, g_maxN = 240\<rparr> = Some 3"
    by code_simp+
  obtain e where "snd (series_ServeHTTP mem_ops sample_env (\<lambda>i. 2000) series_request promo_store) = Payload 200
      \<lparr>sr_ShortCode = r_Code series_request, sr_Bucket = r_Query series_request ''bucket'', sr_BucketSecs = 60, sr_End = e,
        sr_Counts = map (\<lambda>i. int (length (filter (in_bucket (e - 3 * 60000000000) 60000000000 i)
          (events_of promo_store (r_Code series_request))))) [0..<nat 3]\<rparr>"
    using series_exact [OF promo_inv act _ q] by auto
  then show ?thesis by simp
qed

end
