(* ===== verification/IP_Guard.thy ===== *)
theory IP_Guard
  imports Validation
begin

text \<open>
  What the destination check accepts. The bit tests of Go's \<^verbatim>\<open>net.IP\<close> methods and of
  \<^verbatim>\<open>categorizeIP\<close> are compared with the address ranges they stand for, on the numeric value of
  an address.
\<close>

section \<open>Bytes and addresses as numbers\<close>

lemma all_bytes: "(\<forall>n \<in> set [0..<256]. P (of_nat n :: 8 word)) \<Longrightarrow> P x"
proof -
  assume all: "\<forall>n \<in> set [0..<256]. P (of_nat n :: 8 word)"
  have "unat x < 2 ^ LENGTH(8)" by (rule unsigned_less)
  then have "unat x < 256" by simp
  then have "P (of_nat (unat x))" by (intro bspec [OF all]) simp
  then show "P x" by simp
qed

lemma byte_masks:
  "and x 0xf0 = 16 \<longleftrightarrow> 16 \<le> unat x \<and> unat x < 32"
  "and x 0xf0 = 0xe0 \<longleftrightarrow> 224 \<le> unat x \<and> unat x < 240"
  "and x 0xc0 = 64 \<longleftrightarrow> 64 \<le> unat x \<and> unat x < 128"
  "and x 0xc0 = 0x80 \<longleftrightarrow> 128 \<le> unat x \<and> unat x < 192"
  "and x 0xfe = 0xfc \<longleftrightarrow> 252 \<le> unat x \<and> unat x < 254" for x :: "8 word"
  by (rule all_bytes [where x = x], code_simp)+

lemma unat_byte_less: "unat (x :: 8 word) < 256"
proof -
  have "unat x < 2 ^ LENGTH(8)" by (rule unsigned_less)
  then show ?thesis by simp
qed

lemma byte_eq_numeral:
  "x = 0 \<longleftrightarrow> unat x = 0" "x = 1 \<longleftrightarrow> unat x = 1" "x = 10 \<longleftrightarrow> unat x = 10" "x = 100 \<longleftrightarrow> unat x = 100" "x = 127 \<longleftrightarrow> unat x = 127"
  "x = 168 \<longleftrightarrow> unat x = 168" "x = 169 \<longleftrightarrow> unat x = 169" "x = 172 \<longleftrightarrow> unat x = 172"
  "x = 192 \<longleftrightarrow> unat x = 192" "x = 254 \<longleftrightarrow> unat x = 254" "x = 255 \<longleftrightarrow> unat x = 255" for x :: "8 word"
  by (simp_all add: word_unat_eq_iff)

text \<open>The value of an address, most significant byte first.\<close>

fun ip_value :: "bytes \<Rightarrow> nat" where
  "ip_value [] = 0"
| "ip_value (x # xs) = unat x * 256 ^ length xs + ip_value xs"

lemma ip_value_less: "ip_value bs < 256 ^ length bs"
proof (induction bs)
  case (Cons x xs)
  have "unat x * 256 ^ length xs + ip_value xs < (unat x + 1) * 256 ^ length xs" using Cons by simp
  also have "\<dots> \<le> 256 * 256 ^ length xs"
    using unat_byte_less [of x] by (intro mult_right_mono) simp_all
  finally show ?case by simp
qed simp

lemma ip_value_inj: "length a = length b \<Longrightarrow> ip_value a = ip_value b \<longleftrightarrow> a = b"
proof (induction a b rule: list_induct2)
  case (Cons x xs y ys)
  let ?k = "256 ^ length ys :: nat"
  have "unat x * ?k + ip_value xs = unat y * ?k + ip_value ys \<longleftrightarrow> unat x = unat y \<and> ip_value xs = ip_value ys"
  proof
    assume eq: "unat x * ?k + ip_value xs = unat y * ?k + ip_value ys"
    have "ip_value xs < ?k" "ip_value ys < ?k" using ip_value_less [of xs] ip_value_less [of ys] Cons.hyps by simp_all
    then have "(unat x * ?k + ip_value xs) div ?k = unat x" "(unat y * ?k + ip_value ys) div ?k = unat y" by simp_all
    then show "unat x = unat y \<and> ip_value xs = ip_value ys" using eq by simp
  qed simp
  then show ?case using Cons by (simp add: word_unat_eq_iff)
qed simp

section \<open>The ranges\<close>

text \<open>
  The ranges \<^verbatim>\<open>[lo, hi)\<close> the guard refuses. IPv4: 0.0.0.0, 10/8, 100.64/10, 127/8, 169.254/16,
  172.16/12, 192.168/16 and 224/4. IPv6: ::, ::1, fc00::/7, fe80::/10 and ff00::/8.
\<close>

definition v4_ranges :: "(nat \<times> nat) list" where
  "v4_ranges = [(0, 1), (10 * 2 ^ 24, 11 * 2 ^ 24), (100 * 2 ^ 24 + 64 * 2 ^ 16, 100 * 2 ^ 24 + 128 * 2 ^ 16),
     (127 * 2 ^ 24, 128 * 2 ^ 24), (169 * 2 ^ 24 + 254 * 2 ^ 16, 169 * 2 ^ 24 + 255 * 2 ^ 16),
     (172 * 2 ^ 24 + 16 * 2 ^ 16, 172 * 2 ^ 24 + 32 * 2 ^ 16),
     (192 * 2 ^ 24 + 168 * 2 ^ 16, 192 * 2 ^ 24 + 169 * 2 ^ 16), (224 * 2 ^ 24, 240 * 2 ^ 24)]"

definition v6_ranges :: "(nat \<times> nat) list" where
  "v6_ranges = [(0, 1), (1, 2), (252 * 2 ^ 120, 254 * 2 ^ 120),
     (254 * 2 ^ 120 + 128 * 2 ^ 112, 254 * 2 ^ 120 + 192 * 2 ^ 112), (255 * 2 ^ 120, 256 * 2 ^ 120)]"

definition in_ranges :: "(nat \<times> nat) list \<Rightarrow> nat \<Rightarrow> bool" where
  "in_ranges rs n = list_ex (\<lambda>(lo, hi). lo \<le> n \<and> n < hi) rs"

lemma in_ranges_simps:
  "in_ranges [] n \<longleftrightarrow> False"
  "in_ranges ((lo, hi) # rs) n \<longleftrightarrow> lo \<le> n \<and> n < hi \<or> in_ranges rs n"
  by (simp_all add: in_ranges_def)

text \<open>An IPv4-mapped IPv6 address counts as the IPv4 address it carries.\<close>

definition guarded :: "bytes \<Rightarrow> bool" where
  "guarded ip = (case To4 ip of
       Some ip4 \<Rightarrow> in_ranges v4_ranges (ip_value ip4)
     | None \<Rightarrow> length ip = 16 \<and> in_ranges v6_ranges (ip_value ip))"

lemma block_range: "r < k \<Longrightarrow> (lo * k \<le> x * k + r \<longleftrightarrow> lo \<le> x) \<and> (x * k + r < hi * k \<longleftrightarrow> x < hi)" for r k lo hi x :: nat
proof -
  assume r: "r < k"
  have "lo * k \<le> x * k + r \<longleftrightarrow> lo \<le> x"
  proof
    assume "lo * k \<le> x * k + r"
    then have "lo * k < (x + 1) * k" using r by simp
    then have "lo < x + 1" by (simp only: mult_less_cancel2)
    then show "lo \<le> x" by simp
  next
    assume "lo \<le> x"
    then have "lo * k \<le> x * k" by (rule mult_right_mono) simp
    then show "lo * k \<le> x * k + r" by (rule trans_le_add1)
  qed
  moreover have "x * k + r < hi * k \<longleftrightarrow> x < hi"
  proof
    assume "x < hi"
    then have "(x + 1) * k \<le> hi * k" by (intro mult_right_mono) simp_all
    then show "x * k + r < hi * k" using r by simp
  next
    assume "x * k + r < hi * k"
    then have "x * k < hi * k" by (rule le_less_trans [rotated]) simp
    then show "x < hi" by (simp only: mult_less_cancel2)
  qed
  ultimately show ?thesis by blast
qed

lemma second_block:
  "b < 256 \<Longrightarrow> y \<le> 256 \<Longrightarrow> k * 256 + x \<le> a * 256 + b \<and> a * 256 + b < k * 256 + y \<longleftrightarrow> a = k \<and> x \<le> b \<and> b < y" for a b k x y :: nat
proof (rule iffI)
  assume "b < 256" "y \<le> 256" and r: "k * 256 + x \<le> a * 256 + b \<and> a * 256 + b < k * 256 + y"
  then have "\<not> a < k" "\<not> k < a" by linarith+
  then have "a = k" by simp
  then show "a = k \<and> x \<le> b \<and> b < y" using r by simp
qed simp

lemma To4_Some: "To4 ip = Some q \<Longrightarrow> length q = 4 \<and> (ip = q \<or> ip = v4_mapped q)"
proof -
  assume t: "To4 ip = Some q"
  show ?thesis
  proof (cases "length ip = 4")
    case False
    then have len: "length ip = 16" and pre: "take 10 ip = replicate 10 0" "ip ! 10 = 0xff" "ip ! 11 = 0xff" and q: "q = drop 12 ip"
      using t by (auto simp: To4_def split: if_splits)
    have "drop 10 ip = ip ! 10 # drop 11 ip" "drop 11 ip = ip ! 11 # drop 12 ip"
      using len Cons_nth_drop_Suc [of 10 ip] Cons_nth_drop_Suc [of 11 ip] by simp_all
    then have "ip = take 10 ip @ ip ! 10 # ip ! 11 # drop 12 ip" by (metis append_take_drop_id)
    then have "ip = replicate 10 0 @ 0xff # 0xff # q" by (simp only: pre q)
    then show ?thesis using len q by (simp add: v4_mapped_def)
  qed (use t in \<open>auto simp: To4_def\<close>)
qed

lemma list4: "length q = 4 \<Longrightarrow> \<exists>a b c d. q = [a, b, c, d]"
  by (auto simp: length_Suc_conv numeral_eq_Suc)

lemma categorize_v4:
  assumes "To4 ip = Some [a, b, c, d]"
  shows "categorizeIP ip \<noteq> '''' \<longleftrightarrow> [a, b, c, d] = [0, 0, 0, 0] \<or> a = 10 \<or> (a = 100 \<and> and b 0xC0 = 64) \<or> a = 127
    \<or> (a = 169 \<and> b = 254) \<or> (a = 172 \<and> and b 0xf0 = 16) \<or> (a = 192 \<and> b = 168) \<or> and a 0xf0 = 0xe0"
proof -
  have "ip = [a, b, c, d] \<or> ip = v4_mapped [a, b, c, d]" using To4_Some [OF assms] by simp
  then have "IsUnspecified ip \<longleftrightarrow> [a, b, c, d] = [0, 0, 0, 0]"
    by (auto simp: IsUnspecified_def ip_equal_def v4_mapped_def numeral_eq_Suc)
  then show ?thesis
    by (simp add: categorizeIP_def assms IsLoopback_def IsLinkLocalUnicast_def IsMulticast_def IsPrivate_def)
qed

lemma in_v4_ranges:
  fixes a b c d :: "8 word"
  shows "in_ranges v4_ranges (ip_value [a, b, c, d]) \<longleftrightarrow> [a, b, c, d] = [0, 0, 0, 0] \<or> a = 10 \<or> (a = 100 \<and> and b 0xC0 = 64) \<or> a = 127
    \<or> (a = 169 \<and> b = 254) \<or> (a = 172 \<and> and b 0xf0 = 16) \<or> (a = 192 \<and> b = 168) \<or> and a 0xf0 = 0xe0"
proof -
  have lt: "unat a < 256" "unat b < 256" "unat c < 256" "unat d < 256" by (rule unat_byte_less)+
  let ?r = "unat b * 65536 + (unat c * 256 + unat d)" and ?q = "unat c * 256 + unat d"
  have n: "ip_value [a, b, c, d] = unat a * 16777216 + ?r" by simp
  have q: "unat a * 16777216 + ?r = (unat a * 256 + unat b) * 65536 + ?q" by simp
  have r: "?r < 16777216" "?q < 65536" using lt by linarith+
  have top: "lo * 16777216 \<le> unat a * 16777216 + ?r \<and> unat a * 16777216 + ?r < hi * 16777216 \<longleftrightarrow> lo \<le> unat a \<and> unat a < hi" for lo hi
    using block_range [OF r(1)] by blast
  have two: "lo * 65536 \<le> unat a * 16777216 + ?r \<and> unat a * 16777216 + ?r < hi * 65536
      \<longleftrightarrow> lo \<le> unat a * 256 + unat b \<and> unat a * 256 + unat b < hi" for lo hi
    unfolding q using block_range [OF r(2)] by blast
  let ?n = "unat a * 16777216 + ?r"
  have eqs: "?n < 1 \<longleftrightarrow> unat a = 0 \<and> unat b = 0 \<and> unat c = 0 \<and> unat d = 0"
    "167772160 \<le> ?n \<and> ?n < 184549376 \<longleftrightarrow> unat a = 10"
    "1681915904 \<le> ?n \<and> ?n < 1686110208 \<longleftrightarrow> unat a = 100 \<and> 64 \<le> unat b \<and> unat b < 128"
    "2130706432 \<le> ?n \<and> ?n < 2147483648 \<longleftrightarrow> unat a = 127"
    "2851995648 \<le> ?n \<and> ?n < 2852061184 \<longleftrightarrow> unat a = 169 \<and> unat b = 254"
    "2886729728 \<le> ?n \<and> ?n < 2887778304 \<longleftrightarrow> unat a = 172 \<and> 16 \<le> unat b \<and> unat b < 32"
    "3232235520 \<le> ?n \<and> ?n < 3232301056 \<longleftrightarrow> unat a = 192 \<and> unat b = 168"
    "3758096384 \<le> ?n \<and> ?n < 4026531840 \<longleftrightarrow> 224 \<le> unat a \<and> unat a < 240"
    subgoal by auto
    subgoal using top [of 10 11] by auto
    subgoal using two [of 25664 25728] second_block [OF lt(2), of 128 100 64] by simp
    subgoal using top [of 127 128] by auto
    subgoal using two [of 43518 43519] second_block [OF lt(2), of 255 169 254] by simp linarith
    subgoal using two [of 44048 44064] second_block [OF lt(2), of 32 172 16] by simp
    subgoal using two [of 49320 49321] second_block [OF lt(2), of 169 192 168] by simp linarith
    subgoal using top [of 224 240] by auto
    done
  have "in_ranges v4_ranges (ip_value [a, b, c, d]) \<longleftrightarrow> ?n < 1 \<or> 167772160 \<le> ?n \<and> ?n < 184549376
    \<or> 1681915904 \<le> ?n \<and> ?n < 1686110208 \<or> 2130706432 \<le> ?n \<and> ?n < 2147483648 \<or> 2851995648 \<le> ?n \<and> ?n < 2852061184
    \<or> 2886729728 \<le> ?n \<and> ?n < 2887778304 \<or> 3232235520 \<le> ?n \<and> ?n < 3232301056 \<or> 3758096384 \<le> ?n \<and> ?n < 4026531840"
    by (simp only: n, simp add: in_ranges_def v4_ranges_def)
  then show ?thesis by (simp only: eqs byte_masks byte_eq_numeral list.inject simp_thms)
qed

lemma categorize_v6:
  assumes "To4 ip = None" "length ip = 16" "ip = a # b # r"
  shows "categorizeIP ip \<noteq> '''' \<longleftrightarrow> ip = replicate 16 0 \<or> ip = replicate 15 0 @ [1]
    \<or> and a 0xfe = 0xfc \<or> (a = 0xfe \<and> and b 0xc0 = 0x80) \<or> a = 0xff"
proof -
  have "ip \<noteq> v4_mapped [0, 0, 0, 0]" using assms(1) by (auto simp: To4_def v4_mapped_def numeral_eq_Suc)
  then have u: "IsUnspecified ip \<longleftrightarrow> ip = replicate 16 0"
    using assms(2) by (simp add: IsUnspecified_def ip_equal_def v4_mapped_def)
  have l: "IsLoopback ip \<longleftrightarrow> ip = replicate 15 0 @ [1]" using assms(1,2) by (simp add: IsLoopback_def ip_equal_def)
  have p: "IsPrivate ip \<longleftrightarrow> and a 0xfe = 0xfc" using assms by (simp add: IsPrivate_def)
  have m: "IsMulticast ip \<longleftrightarrow> a = 0xff" using assms by (simp add: IsMulticast_def)
  have k: "IsLinkLocalUnicast ip \<longleftrightarrow> a = 0xfe \<and> and b 0xc0 = 0x80" using assms by (simp add: IsLinkLocalUnicast_def)
  have "categorizeIP ip \<noteq> '''' \<longleftrightarrow> IsLoopback ip \<or> IsLinkLocalUnicast ip \<or> IsMulticast ip \<or> IsPrivate ip \<or> IsUnspecified ip"
    by (simp add: categorizeIP_def assms(1))
  then show ?thesis unfolding u l p m k by blast
qed

lemma byte_eq_v6: "x = 0xfe \<longleftrightarrow> unat x = 254" "x = 0xff \<longleftrightarrow> unat x = 255" for x :: "8 word"
  by (simp_all add: word_unat_eq_iff)

lemma ip_value_small:
  assumes "length ip = 16"
  shows "ip_value ip < 1 \<longleftrightarrow> ip = replicate 16 0" "1 \<le> ip_value ip \<and> ip_value ip < 2 \<longleftrightarrow> ip = replicate 15 0 @ [1]"
proof -
  have zero: "ip_value (replicate k 0) = 0" for k by (induction k) simp_all
  have "ip_value (replicate k 0 @ [1]) = 1" for k by (induction k) simp_all
  then have one: "ip_value (replicate 15 0 @ [1]) = 1" .
  show "ip_value ip < 1 \<longleftrightarrow> ip = replicate 16 0"
    using ip_value_inj [of ip "replicate 16 0"] zero [of 16] assms by simp
  have "1 \<le> ip_value ip \<and> ip_value ip < 2 \<longleftrightarrow> ip_value ip = 1" by auto
  also have "\<dots> \<longleftrightarrow> ip_value ip = ip_value (replicate 15 0 @ [1])" by (simp only: one)
  also have "\<dots> \<longleftrightarrow> ip = replicate 15 0 @ [1]" using assms by (intro ip_value_inj) simp
  finally show "1 \<le> ip_value ip \<and> ip_value ip < 2 \<longleftrightarrow> ip = replicate 15 0 @ [1]" .
qed

lemma in_v6_ranges:
  assumes len: "length ip = 16" and ip: "ip = a # b # r"
  shows "in_ranges v6_ranges (ip_value ip) \<longleftrightarrow> ip = replicate 16 0 \<or> ip = replicate 15 0 @ [1]
    \<or> and a 0xfe = 0xfc \<or> (a = 0xfe \<and> and b 0xc0 = 0x80) \<or> a = 0xff"
proof -
  let ?k = "256 ^ 14 :: nat" and ?h = "unat a * 256 + unat b"
  have lt: "unat a < 256" "unat b < 256" by (rule unat_byte_less)+
  have lr: "length r = 14" using len ip by simp
  then have r: "ip_value r < ?k" using ip_value_less [of r] by simp
  have n: "ip_value ip = ?h * ?k + ip_value r" by (simp add: ip lr)
  have two: "lo * ?k \<le> ip_value ip \<and> ip_value ip < hi * ?k \<longleftrightarrow> lo \<le> ?h \<and> ?h < hi" for lo hi
    unfolding n using block_range [OF r] by blast
  have eqs: "252 * 2 ^ 120 \<le> ip_value ip \<and> ip_value ip < 254 * 2 ^ 120 \<longleftrightarrow> 252 \<le> unat a \<and> unat a < 254"
    "254 * 2 ^ 120 + 128 * 2 ^ 112 \<le> ip_value ip \<and> ip_value ip < 254 * 2 ^ 120 + 192 * 2 ^ 112
       \<longleftrightarrow> unat a = 254 \<and> 128 \<le> unat b \<and> unat b < 192"
    "255 * 2 ^ 120 \<le> ip_value ip \<and> ip_value ip < 256 * 2 ^ 120 \<longleftrightarrow> unat a = 255"
    subgoal using two [of 64512 65024] lt(2) by simp linarith
    subgoal using two [of 65152 65216] second_block [OF lt(2), of 192 254 128] by simp
    subgoal using two [of 65280 65536] lt by simp linarith
    done
  show ?thesis
    by (simp only: in_ranges_simps v6_ranges_def le0 simp_thms eqs ip_value_small [OF len] byte_masks byte_eq_v6)
qed

section \<open>What the guard decides\<close>

lemma guard_ranges: "categorizeIP ip \<noteq> '''' \<longleftrightarrow> guarded ip"
proof (cases "To4 ip")
  case (Some q)
  then obtain a b c d where "q = [a, b, c, d]" using To4_Some list4 by blast
  then show ?thesis using categorize_v4 in_v4_ranges Some by (simp add: guarded_def)
next
  case None
  show ?thesis
  proof (cases "length ip = 16")
    case True
    then obtain a b r where "ip = a # b # r" by (cases ip rule: remdups_adj.cases) simp_all
    then show ?thesis using categorize_v6 [OF None True] in_v6_ranges [OF True] None True by (simp add: guarded_def)
  next
    case False
    moreover have "length ip \<noteq> 4" using None by (auto simp: To4_def)
    ultimately show ?thesis using None
      by (simp add: guarded_def categorizeIP_def IsLoopback_def IsLinkLocalUnicast_def IsMulticast_def IsPrivate_def
          IsUnspecified_def ip_equal_def v4_mapped_def)
  qed
qed

lemma check_resolved_None: "check_resolved ips = None \<longleftrightarrow> list_all (\<lambda>ip. \<not> guarded ip) ips"
  by (induction ips) (simp_all add: guard_ranges)

definition host_allowed :: "net_env \<Rightarrow> string \<Rightarrow> bool" where
  "host_allowed env host =
     (let l = ToLower (n_lower env) host in
      host \<noteq> '''' \<and> l \<noteq> ''localhost'' \<and> \<not> HasSuffix l ''.localhost'' \<and>
      (case n_ip env host of
         Some ip \<Rightarrow> \<not> guarded ip
       | None \<Rightarrow> (case n_dns env host of
           Some ips \<Rightarrow> ips \<noteq> [] \<and> list_all (\<lambda>ip. \<not> guarded ip) ips
         | None \<Rightarrow> False)))"

definition destination_allowed :: "net_env \<Rightarrow> deny_list \<Rightarrow> string \<Rightarrow> bool" where
  "destination_allowed env deny raw =
     (length raw \<le> 2048 \<and>
      (case n_parse env raw of
         Some u \<Rightarrow> u_Scheme u \<in> {''http'', ''https''} \<and> \<not> u_HasUser u
           \<and> \<not> deny_contains (n_lower env) deny (u_Hostname u) \<and> host_allowed env (u_Hostname u)
       | None \<Rightarrow> False))"

lemma runtime_host: "ValidateHostAtRuntime env host = None \<longleftrightarrow> host_allowed env host"
  by (simp add: ValidateHostAtRuntime_def host_allowed_def Let_def guard_ranges check_resolved_None split: option.split)

text \<open>C39. A destination URL is accepted exactly when it is at most 2048 bytes long, parses with scheme
  http or https and no user info, and names a host that is not empty, not on the deny list, not
  localhost or below it, and whose address (the literal, or every address of a non-empty DNS
  answer) lies outside the numeric ranges of the loopback, private, link-local, multicast,
  carrier-grade NAT and unspecified addresses. One guarded address in the answer is enough to
  refuse the URL.\<close>

theorem destination_guard: "ValidateDestinationURL env deny raw = None \<longleftrightarrow> destination_allowed env deny raw"
  by (simp add: ValidateDestinationURL_def destination_allowed_def MaxURLLength_def Let_def runtime_host split: option.split)

text \<open>
  The guard lists what it refuses. Reserved blocks outside the list pass: 240.0.0.1, the broadcast
  address, 198.18.0.1 and 0.0.0.1 are categorised as the empty string.
\<close>

lemma reserved_addresses_pass:
  "list_all (\<lambda>ip. categorizeIP ip = '''') [[240, 0, 0, 1], [255, 255, 255, 255], [198, 18, 0, 1], [0, 0, 0, 1]]"
  by code_simp

end
