(* ===== verification/Unfurl.thy ===== *)
theory Unfurl
  imports Mem_Runs IP_Guard Job_Queue
begin

text \<open>
  The unfurler (\<^verbatim>\<open>services/unfurl.go\<close>): its queue and workers, the fetch of a destination page,
  the scan of the page for preview metadata and the write-back to the mapping. The HTML tokenizer
  is the parameter \<open>tokenize\<close> from the bytes of a page to its tokens; the outcome of the one HTTP
  request of a fetch is an argument.
\<close>

section \<open>The scan of a page\<close>

record preview =
  p_Title :: string
  p_Image :: string
  p_Description :: string

definition no_preview :: preview where
  "no_preview = \<lparr>p_Title = '''', p_Image = '''', p_Description = ''''\<rparr>"

text \<open>
  Tokens by their type: the end of the list is \<^verbatim>\<open>ErrorToken\<close>. A start tag carries whether it is
  self-closing, its name and its attributes; \<open>OtherToken\<close> stands for comments and doctypes.
\<close>

datatype html_token =
    StartTag bool string "(string \<times> string) list"
  | EndTag string
  | TextToken string
  | OtherToken

definition truncate_to :: "string \<Rightarrow> nat \<Rightarrow> string" where
  "truncate_to s n = (if length s > n then take n s else s)"

definition maxTitleLen :: nat where "maxTitleLen = 256"
definition maxDescLen :: nat where "maxDescLen = 512"
definition maxImageLen :: nat where "maxImageLen = 1024"

text \<open>The loop over the attributes of a \<^verbatim>\<open>meta\<close> tag: key and content, later ones winning.\<close>

fun meta_attrs :: "(string \<times> string) list \<Rightarrow> string \<times> string \<Rightarrow> string \<times> string" where
  "meta_attrs [] kc = kc"
| "meta_attrs ((k, v) # rest) (key, content) =
     (if k = ''property'' \<or> k = ''name'' then meta_attrs rest (v, content)
      else if k = ''content'' then meta_attrs rest (key, v)
      else meta_attrs rest (key, content))"

definition set_title :: "string \<Rightarrow> preview \<Rightarrow> preview" where
  "set_title s p = (if p_Title p = '''' then p\<lparr>p_Title := truncate_to s maxTitleLen\<rparr> else p)"

definition meta_tag :: "(string \<times> string) list \<Rightarrow> preview \<Rightarrow> preview" where
  "meta_tag attrs p =
     (case meta_attrs attrs ('''', '''') of (key, raw) \<Rightarrow>
        let content = TrimSpace raw in
        if content = '''' then p
        else if key = ''og:title'' \<or> key = ''twitter:title'' then set_title content p
        else if key = ''og:image'' \<or> key = ''twitter:image''
          then (if p_Image p = '''' then p\<lparr>p_Image := truncate_to content maxImageLen\<rparr> else p)
        else if key = ''og:description'' \<or> key = ''twitter:description'' \<or> key = ''description''
          then (if p_Description p = '''' then p\<lparr>p_Description := truncate_to content maxDescLen\<rparr> else p)
        else p)"

text \<open>The token loop. A \<^verbatim>\<open>title\<close> tag consumes the token after it, whatever its type.\<close>

fun preview_loop :: "html_token list \<Rightarrow> preview \<Rightarrow> preview" where
  "preview_loop [] p = p"
| "preview_loop (EndTag d # ts) p = (if d = ''head'' then p else preview_loop ts p)"
| "preview_loop (StartTag sc d attrs # ts) p =
     (if d = ''title'' then
        (case ts of
           [] \<Rightarrow> p
         | TextToken s # ts' \<Rightarrow> preview_loop ts' (set_title (TrimSpace s) p)
         | t # ts' \<Rightarrow> preview_loop ts' p)
      else if d = ''meta'' then preview_loop ts (meta_tag attrs p)
      else preview_loop ts p)"
| "preview_loop (TextToken s # ts) p = preview_loop ts p"
| "preview_loop (OtherToken # ts) p = preview_loop ts p"

definition parsePreview :: "html_token list \<Rightarrow> preview" where
  "parsePreview ts = preview_loop ts no_preview"

section \<open>Fetching\<close>

record unfurl_job =
  uj_Code :: string
  uj_URL :: string

record unfurler =
  uf_queue :: "unfurl_job list"
  uf_cap :: nat
  uf_closed :: bool
  uf_stopped :: bool
  uf_fetched :: int
  uf_failed :: int
  uf_dropped :: int

definition NewUnfurler :: "int \<Rightarrow> unfurler" where
  "NewUnfurler queueSize = \<lparr>uf_queue = [], uf_cap = nat (if queueSize \<le> 0 then 256 else queueSize),
     uf_closed = False, uf_stopped = False, uf_fetched = 0, uf_failed = 0, uf_dropped = 0\<rparr>"

text \<open>
  What the request of a fetch comes to: it cannot be built, the round trip fails, or a response
  with its status, content type and the body as the client hands it on. Redirects are not followed, so a 3xx is a
  response like any other.
\<close>

datatype page_outcome = NoRequest | NoResponse | Page int string bytes

definition maxBodyBytes :: nat where "maxBodyBytes = 16 * 1024"

text \<open>\<^verbatim>\<open>doFetch\<close>: the URLs requested, and the preview or an error.\<close>

definition doFetch :: "net_env \<Rightarrow> (string \<Rightarrow> valid_err option) \<Rightarrow> (bytes \<Rightarrow> html_token list)
    \<Rightarrow> page_outcome \<Rightarrow> string \<Rightarrow> string list \<times> preview option" where
  "doFetch env hostValidator tokenize out targetURL =
     (case n_parse env targetURL of
        None \<Rightarrow> ([], None)
      | Some u \<Rightarrow>
          if hostValidator (u_Hostname u) \<noteq> None then ([], None)
          else (case out of
            NoRequest \<Rightarrow> ([], None)
          | NoResponse \<Rightarrow> ([targetURL], None)
          | Page status ct body \<Rightarrow>
              if status < 200 \<or> status \<ge> 300 then ([targetURL], None)
              else if \<not> HasPrefix ct ''text/html'' \<and> \<not> HasPrefix ct ''application/xhtml+xml'' then ([targetURL], None)
              else ([targetURL], Some (parsePreview (tokenize (take maxBodyBytes body))))))"

definition preview_update :: "preview \<Rightarrow> update_fields" where
  "preview_update p = no_update\<lparr>f_PreviewTitle := Some (p_Title p), f_PreviewImage := Some (p_Image p),
     f_PreviewDescription := Some (p_Description p), f_SetPreviewFetched := True\<rparr>"

text \<open>\<^verbatim>\<open>fetch\<close>: the update runs after a failure too; its own error is only logged. \<open>now\<close> is the clock
  of \<^verbatim>\<open>Update\<close>.\<close>

definition unfurl_fetch :: "'s store_ops \<Rightarrow> net_env \<Rightarrow> (string \<Rightarrow> valid_err option) \<Rightarrow> (bytes \<Rightarrow> html_token list)
    \<Rightarrow> page_outcome \<Rightarrow> time \<Rightarrow> unfurl_job \<Rightarrow> unfurler \<times> 's \<Rightarrow> (unfurler \<times> 's) \<times> string list" where
  "unfurl_fetch ops env hostValidator tokenize out now j = (\<lambda>(u, s).
     (case doFetch env hostValidator tokenize out (uj_URL j) of (reqs, r) \<Rightarrow>
        let u' = (if r = None then u\<lparr>uf_failed := uf_failed u + 1\<rparr> else u\<lparr>uf_fetched := uf_fetched u + 1\<rparr>)
        in ((u', fst (st_Update ops now (uj_Code j) (preview_update (opt_or no_preview r)) s)), reqs)))"

section \<open>The queue\<close>

text \<open>\<^verbatim>\<open>Enqueue\<close>, without interruption by \<^verbatim>\<open>Close\<close>, and whether it took the job.\<close>

definition unfurl_Enqueue :: "unfurl_job \<Rightarrow> unfurler \<Rightarrow> unfurler \<times> bool" where
  "unfurl_Enqueue j u =
     (if uf_stopped u then (u, False)
      else if length (uf_queue u) < uf_cap u then (u\<lparr>uf_queue := uf_queue u @ [j]\<rparr>, True)
      else (u\<lparr>uf_dropped := uf_dropped u + 1\<rparr>, False))"

definition unfurl_Close :: "unfurler \<Rightarrow> unfurler" where
  "unfurl_Close u = (if uf_stopped u then u else u\<lparr>uf_stopped := True, uf_closed := True\<rparr>)"

definition unfurl_Stats :: "unfurler \<Rightarrow> int \<times> int \<times> int" where
  "unfurl_Stats u = (uf_fetched u, uf_failed u, uf_dropped u)"

text \<open>One turn of a worker: the head of the queue is fetched.\<close>

definition unfurl_work :: "'s store_ops \<Rightarrow> net_env \<Rightarrow> (string \<Rightarrow> valid_err option) \<Rightarrow> (bytes \<Rightarrow> html_token list)
    \<Rightarrow> page_outcome \<times> time \<Rightarrow> unfurler \<times> 's \<Rightarrow> unfurler \<times> 's" where
  "unfurl_work ops env hostValidator tokenize = (\<lambda>(out, now) (u, s).
     (case uf_queue u of
        [] \<Rightarrow> (u, s)
      | j # rest \<Rightarrow> fst (unfurl_fetch ops env hostValidator tokenize out now j (u\<lparr>uf_queue := rest\<rparr>, s))))"

section \<open>The preview is bounded, and nothing after the head counts\<close>

lemma truncate_to_length [simp]: "length (truncate_to s n) \<le> n"
  by (simp add: truncate_to_def)

definition preview_bounded :: "preview \<Rightarrow> bool" where
  "preview_bounded p = (length (p_Title p) \<le> 256 \<and> length (p_Image p) \<le> 1024 \<and> length (p_Description p) \<le> 512)"

lemma truncate_bounds: "length (truncate_to s maxTitleLen) \<le> 256" "length (truncate_to s maxImageLen) \<le> 1024"
  "length (truncate_to s maxDescLen) \<le> 512"
  using truncate_to_length [of s] by (metis maxTitleLen_def, metis maxImageLen_def, metis maxDescLen_def)

lemma set_title_bounded: "preview_bounded p \<Longrightarrow> preview_bounded (set_title s p)"
  by (simp add: preview_bounded_def set_title_def truncate_bounds)

lemma meta_tag_bounded: "preview_bounded p \<Longrightarrow> preview_bounded (meta_tag attrs p)"
  by (simp add: meta_tag_def Let_def set_title_bounded split: prod.split)
    (simp add: preview_bounded_def truncate_bounds)

lemma preview_loop_bounded: "preview_bounded p \<Longrightarrow> preview_bounded (preview_loop ts p)"
proof (induction ts p rule: preview_loop.induct)
  case (3 sc d attrs ts p)
  then show ?case by (simp add: set_title_bounded meta_tag_bounded split: list.split html_token.split)
qed simp_all

lemma parsePreview_bounded: "preview_bounded (parsePreview ts)"
  unfolding parsePreview_def by (rule preview_loop_bounded) (simp add: preview_bounded_def no_preview_def)

text \<open>Once a field is set it keeps its value, so the first candidate wins.\<close>

definition keeps :: "preview \<Rightarrow> preview \<Rightarrow> bool" where
  "keeps p q = ((p_Title p \<noteq> [] \<longrightarrow> p_Title q = p_Title p) \<and> (p_Image p \<noteq> [] \<longrightarrow> p_Image q = p_Image p)
    \<and> (p_Description p \<noteq> [] \<longrightarrow> p_Description q = p_Description p))"

lemma keeps_refl: "keeps p p"
  by (simp add: keeps_def)

lemma keeps_trans: "keeps p q \<Longrightarrow> keeps q r \<Longrightarrow> keeps p r"
  by (auto simp: keeps_def)

lemma set_title_keeps: "keeps p (set_title s p)"
  by (simp add: keeps_def set_title_def)

lemma meta_tag_keeps: "keeps p (meta_tag attrs p)"
  by (simp add: meta_tag_def Let_def keeps_refl set_title_keeps split: prod.split) (simp add: keeps_def)

lemma keeps_title: "keeps (set_title s p) q \<Longrightarrow> keeps p q"
  using set_title_keeps by (rule keeps_trans)

lemma keeps_meta: "keeps (meta_tag attrs p) q \<Longrightarrow> keeps p q"
  using meta_tag_keeps by (rule keeps_trans)

lemma preview_loop_keeps: "keeps p (preview_loop ts p)"
proof (induction ts p rule: preview_loop.induct)
  case (3 sc d attrs ts p)
  show ?case
  proof (cases "d = ''title''")
    case True
    show ?thesis
    proof (cases ts)
      case (Cons t ts')
      then show ?thesis
      proof (cases t)
        case (TextToken x)
        then have "keeps (set_title (TrimSpace x) p) (preview_loop ts' (set_title (TrimSpace x) p))"
          using 3 True Cons by simp
        then show ?thesis using True Cons TextToken keeps_title by simp
      qed (use 3 True Cons in simp_all)
    qed (simp add: True keeps_refl)
  next
    case False
    then show ?thesis
      by (cases "d = ''meta''") (use 3 keeps_trans [OF meta_tag_keeps] in simp_all)
  qed
qed (simp_all add: keeps_refl)

text \<open>
  Everything after the end of the head is ignored, unless that end tag directly follows a
  \<^verbatim>\<open>title\<close> tag, which consumes it.
\<close>

fun ends_in_title :: "html_token list \<Rightarrow> bool" where
  "ends_in_title [] = False"
| "ends_in_title [StartTag sc d attrs] = (d = ''title'')"
| "ends_in_title (t # ts) = ends_in_title ts"

lemma preview_loop_head:
  "\<not> ends_in_title pre \<Longrightarrow> preview_loop (pre @ EndTag ''head'' # rest) p = preview_loop pre p"
proof (induction pre p rule: preview_loop.induct)
  case (3 sc d attrs ts p)
  show ?case
  proof (cases ts)
    case Nil
    then show ?thesis using 3(7) by simp
  next
    case (Cons t ts')
    then have "\<not> ends_in_title ts" using 3(7) by simp
    moreover have "\<not> ends_in_title ts'" using calculation Cons by (cases ts') simp_all
    ultimately show ?thesis using 3(1-6) Cons by (cases t) simp_all
  qed
next
  case (2 d ts p)
  then show ?case by (cases ts) simp_all
next
  case (4 x ts p)
  then show ?case by (cases ts) simp_all
next
  case (5 ts p)
  then show ?case by (cases ts) simp_all
qed simp

text \<open>
  Truncation counts bytes: a title of 255 letters and one two-byte character is cut in the middle
  of that character.
\<close>

lemma truncation_splits_rune:
  "p_Title (parsePreview [StartTag False ''title'' [], TextToken (replicate 255 CHR ''a'' @ [CHR 0xC3, CHR 0xA9])])
     = replicate 255 CHR ''a'' @ [CHR 0xC3]"
  by code_simp

section \<open>What a fetch does\<close>

text \<open>The requests of a fetch: at most the one for the job's URL, and none for a refused host.\<close>

lemma doFetch_requests:
  "fst (doFetch env hv tokenize out url) =
     (if (\<exists>u. n_parse env url = Some u \<and> hv (u_Hostname u) = None) \<and> out \<noteq> NoRequest then [url] else [])"
  by (auto simp: doFetch_def split: option.split page_outcome.split)

lemma doFetch_preview:
  "snd (doFetch env hv tokenize out url) = Some p \<Longrightarrow> preview_bounded p \<and> fst (doFetch env hv tokenize out url) = [url]"
  by (auto simp: doFetch_def parsePreview_bounded split: option.splits page_outcome.splits if_splits)

definition with_preview :: "preview \<Rightarrow> time \<Rightarrow> url_mapping \<Rightarrow> url_mapping" where
  "with_preview p t m = m\<lparr>m_PreviewTitle := p_Title p, m_PreviewImage := p_Image p,
     m_PreviewDescription := p_Description p, m_PreviewFetchedAt := Some t\<rparr>"

lemma apply_preview_update: "apply_update t (preview_update p) m = with_preview p t m"
  by (rule mapping_eqI)
    (simp_all add: apply_update_fields apply_update_webhook apply_update_preview preview_update_def no_update_def with_preview_def)

lemma preview_update_paired: "paired (preview_update p)"
  by (simp add: preview_update_def paired_def no_update_def)

context url_store
begin

lemma fetch_view:
  assumes "valid s"
  shows "view (snd (fst (unfurl_fetch ops env hv tokenize out now j (u, s)))) (uj_Code j) =
      map_option (\<lambda>m. norm_mapping norm (with_preview
        (opt_or no_preview (snd (doFetch env hv tokenize out (uj_URL j)))) now m)) (view s (uj_Code j))"
    and "c \<noteq> uj_Code j \<Longrightarrow> view (snd (fst (unfurl_fetch ops env hv tokenize out now j (u, s)))) c = view s c"
  using update_view [OF assms preview_update_paired]
  by (simp_all add: unfurl_fetch_def Let_def apply_preview_update case_prod_unfold split: option.split)

lemma fetch_valid: "valid s \<Longrightarrow> valid (snd (fst (unfurl_fetch ops env hv tokenize out now j (u, s))))"
  by (simp add: unfurl_fetch_def Let_def case_prod_unfold update_valid)

end

lemma unfurl_fetch_counts:
  "unfurl_fetch ops env hv tokenize out now j (u, s) = ((u', s'), reqs) \<Longrightarrow>
    uf_fetched u' + uf_failed u' = uf_fetched u + uf_failed u + 1 \<and> uf_dropped u' = uf_dropped u \<and> uf_queue u' = uf_queue u
    \<and> uf_cap u' = uf_cap u \<and> uf_stopped u' = uf_stopped u \<and> uf_closed u' = uf_closed u
    \<and> reqs = fst (doFetch env hv tokenize out (uj_URL j))"
  by (auto simp: unfurl_fetch_def Let_def split: prod.splits if_splits)

text \<open>
  C38. A turn of the unfurler requests at most the job's URL, and only when its host passes the
  check at fetch time; whatever comes back, the one mapping of the job keeps every field but the
  preview, which becomes bounded strings (empty without a request) stamped with the time; the
  other mappings stay, a deleted code stays deleted, and the job is counted exactly once.
\<close>

theorem unfurl_fetch_exact:
  assumes "mem_inv s"
    and "unfurl_fetch mem_ops env (ValidateHostAtRuntime env) tokenize out now j (u, s) = ((u', s'), reqs)"
  shows "mem_inv s' \<and> (\<forall>c. c \<noteq> uj_Code j \<longrightarrow> mem_view s' c = mem_view s c)
    \<and> (\<exists>p. preview_bounded p \<and> (reqs = [] \<longrightarrow> p = no_preview)
         \<and> mem_view s' (uj_Code j) = map_option (with_preview p now) (mem_view s (uj_Code j)))
    \<and> (reqs = [] \<or> reqs = [uj_URL j] \<and> (\<exists>x. n_parse env (uj_URL j) = Some x \<and> host_allowed env (u_Hostname x)))
    \<and> uf_fetched u' + uf_failed u' = uf_fetched u + uf_failed u + 1 \<and> uf_queue u' = uf_queue u"
proof -
  let ?hv = "ValidateHostAtRuntime env" and ?r = "snd (doFetch env (ValidateHostAtRuntime env) tokenize out (uj_URL j))"
  note counts = unfurl_fetch_counts [OF assms(2)]
  have s': "s' = snd (fst (unfurl_fetch mem_ops env ?hv tokenize out now j (u, s)))" using assms(2) by simp
  have bounded: "preview_bounded (opt_or no_preview ?r)"
    using doFetch_preview [of env ?hv tokenize out "uj_URL j"]
    by (cases ?r) (simp_all add: preview_bounded_def no_preview_def)
  have none: "reqs = [] \<longrightarrow> opt_or no_preview ?r = no_preview"
    using doFetch_preview [of env ?hv tokenize out "uj_URL j"] counts by (cases ?r) auto
  have "mem_view s' (uj_Code j) = map_option (with_preview (opt_or no_preview ?r) now) (mem_view s (uj_Code j))"
    unfolding s' using mem.fetch_view(1) [OF assms(1)] by simp
  then have p: "\<exists>p. preview_bounded p \<and> (reqs = [] \<longrightarrow> p = no_preview)
       \<and> mem_view s' (uj_Code j) = map_option (with_preview p now) (mem_view s (uj_Code j))"
    using bounded none by blast
  have "reqs = [] \<or> reqs = [uj_URL j] \<and> (\<exists>x. n_parse env (uj_URL j) = Some x \<and> host_allowed env (u_Hostname x))"
    using counts doFetch_requests [of env ?hv tokenize out "uj_URL j"] by (auto simp: runtime_host split: if_splits)
  then show ?thesis
    using p counts mem.fetch_valid [OF assms(1)] mem.fetch_view(2) [OF assms(1)] by (simp add: s')
qed

section \<open>Runs of the unfurler\<close>

definition unfurl_counted :: "unfurler \<Rightarrow> int" where
  "unfurl_counted u = uf_fetched u + uf_failed u + uf_dropped u"

definition unfurl_exec :: "'s store_ops \<Rightarrow> net_env \<Rightarrow> (string \<Rightarrow> valid_err option) \<Rightarrow> (bytes \<Rightarrow> html_token list)
    \<Rightarrow> (unfurl_job, page_outcome \<times> time) job_op \<Rightarrow> unfurler \<times> 's \<Rightarrow> unfurler \<times> 's" where
  "unfurl_exec ops env hv tokenize = job_exec (\<lambda>j. apfst (\<lambda>u. fst (unfurl_Enqueue j u)))
     (unfurl_work ops env hv tokenize) (apfst unfurl_Close)"

lemma unfurl_work_frame:
  "uf_queue (fst (unfurl_work ops env hv tokenize x us)) = tl (uf_queue (fst us))
    \<and> unfurl_counted (fst (unfurl_work ops env hv tokenize x us)) = unfurl_counted (fst us) + (if uf_queue (fst us) = [] then 0 else 1)
    \<and> uf_cap (fst (unfurl_work ops env hv tokenize x us)) = uf_cap (fst us)
    \<and> uf_stopped (fst (unfurl_work ops env hv tokenize x us)) = uf_stopped (fst us)
    \<and> uf_closed (fst (unfurl_work ops env hv tokenize x us)) = uf_closed (fst us)"
proof (cases "uf_queue (fst us)")
  case Nil
  then show ?thesis by (cases x; cases us) (simp add: unfurl_work_def)
next
  case (Cons j rest)
  obtain out now u s where x: "x = (out, now)" "us = (u, s)" by (cases x; cases us)
  obtain u' s' reqs where f: "unfurl_fetch ops env hv tokenize out now j (u\<lparr>uf_queue := rest\<rparr>, s) = ((u', s'), reqs)"
    by (metis prod.exhaust)
  show ?thesis using unfurl_fetch_counts [OF f] Cons f by (simp add: x unfurl_work_def unfurl_counted_def)
qed

interpretation unfurl: job_queue "\<lambda>us. uf_queue (fst us)" "\<lambda>us. uf_cap (fst us)" "\<lambda>us. uf_stopped (fst us)" "\<lambda>us. uf_closed (fst us)"
  "\<lambda>us. unfurl_counted (fst us)" "\<lambda>j. apfst (\<lambda>u. fst (unfurl_Enqueue j u))" "unfurl_work ops env hv tokenize" "apfst unfurl_Close"
  for ops :: "'s store_ops" and env hv tokenize
  by unfold_locales
    (auto simp: unfurl_work_frame, auto simp: unfurl_Enqueue_def unfurl_Close_def unfurl_counted_def split: if_splits)

text \<open>
  No unfurl job is lost unseen: in every run, the jobs offered before the stop are exactly those
  fetched, failed, dropped or still queued, the queue never exceeds its size, and as many turns
  of the workers as there are queued jobs empty it.
\<close>

theorem unfurler_accounts:
  assumes "us = fold (unfurl_exec ops env hv tokenize) tr (NewUnfurler qsize, s)"
  shows "uf_fetched (fst us) + uf_failed (fst us) + uf_dropped (fst us) + int (length (uf_queue (fst us))) = offered tr
    \<and> length (uf_queue (fst us)) \<le> nat (if qsize \<le> 0 then 256 else qsize)
    \<and> uf_queue (fst (fold (unfurl_exec ops env hv tokenize) (map Work outs) us)) = drop (length outs) (uf_queue (fst us))"
proof -
  let ?n = "(NewUnfurler qsize, s)"
  have new: "unfurl.wf ?n" "\<not> uf_stopped (fst ?n)" "unfurl.accounted ?n = 0"
    "uf_cap (fst ?n) = nat (if qsize \<le> 0 then 256 else qsize)"
    unfolding unfurl.wf_def unfurl.accounted_def by (simp_all add: unfurl_counted_def NewUnfurler_def)
  then show ?thesis
    using unfurl.running_accounted [OF new(1,2), of ops env hv tokenize tr] unfurl.run_wf [OF new(1), of ops env hv tokenize tr]
    unfolding assms unfurl_exec_def unfurl.work_drains unfurl.wf_def unfurl.accounted_def
    by (simp add: unfurl_counted_def)
qed

definition page_env :: net_env where
  "page_env = \<lparr>n_parse = (\<lambda>u. Some \<lparr>u_Scheme = ''https'', u_HasUser = False, u_Hostname = u\<rparr>), n_ip = (\<lambda>h. None),
     n_dns = (\<lambda>h. if h = ''inside'' then Some [[10, 0, 0, 1]] else Some [[93, 184, 216, 34]]), n_lower = id\<rparr>"

definition sample_page :: page_outcome where
  "sample_page = Page 200 ''text/html'' []"

definition page_store :: mem_store where
  "page_store = fst (mem_Set ''ab'' (sample_mapping ''ab'') NewMemoryStore)"

definition sample_fetch :: "string \<Rightarrow> (unfurler \<times> mem_store) \<times> string list" where
  "sample_fetch url = unfurl_fetch mem_ops page_env (ValidateHostAtRuntime page_env) (\<lambda>b. []) sample_page 7
     \<lparr>uj_Code = ''ab'', uj_URL = url\<rparr> (NewUnfurler 2, page_store)"

theorem unfurl_fetch_exact_witness:
  "snd (sample_fetch ''inside'') = [] \<and> map_option m_PreviewFetchedAt (mem_view (snd (fst (sample_fetch ''inside''))) ''ab'') = Some (Some 7)"
proof -
  have inv: "mem_inv page_store" "mem_view page_store ''ab'' = Some (sample_mapping ''ab'')"
    using mem.set_valid [OF mem_inv_new insertable_sample] mem.set_view [OF mem_inv_new insertable_sample, of "''ab''"]
    by (simp_all add: page_store_def mem_ops_def mem_view_def NewMemoryStore_def)
  obtain u' s' reqs where f: "sample_fetch ''inside'' = ((u', s'), reqs)" by (metis prod.exhaust)
  have "ValidateHostAtRuntime page_env ''inside'' \<noteq> None" by code_simp
  then have "\<not> host_allowed page_env ''inside''" by (simp add: runtime_host)
  then have ok: "reqs = []" "\<exists>p. mem_view s' ''ab'' = Some (with_preview p 7 (sample_mapping ''ab''))"
    using unfurl_fetch_exact [OF inv(1) f [unfolded sample_fetch_def]] inv(2) by (auto simp: page_env_def)
  then show ?thesis by (auto simp: f with_preview_def)
qed

theorem unfurler_accounts_witness:
  "length (uf_queue (fst (fold (unfurl_exec mem_ops page_env (\<lambda>h. None) (\<lambda>b. []))
     [Offer \<lparr>uj_Code = ''ab'', uj_URL = ''u''\<rparr>, Work (sample_page, 7)] (NewUnfurler 1, NewMemoryStore)))) \<le> 1"
  using unfurler_accounts [OF refl, where qsize = 1 and outs = "[]" and ops = mem_ops and env = page_env
      and hv = "\<lambda>h. None" and tokenize = "\<lambda>b. []" and s = NewMemoryStore
      and tr = "[Offer \<lparr>uj_Code = ''ab'', uj_URL = ''u''\<rparr>, Work (sample_page, 7)]"] by simp

end
