(* ===== verification/Config.thy ===== *)
theory Config
  imports Deny_List Reads IP_Guard
begin

text \<open>
  Configuration and start-up: \<^verbatim>\<open>config/config.go\<close> and the part of \<^verbatim>\<open>main.go\<close> that decides what is
  served (the choice of the store, the deny list, the checks that end the process) and in which
  order it is shut down. The environment is a function from names to values, empty when unset.
\<close>

section \<open>Reading the environment\<close>

type_synonym environ = "string \<Rightarrow> string"

definition getEnv :: "environ \<Rightarrow> string \<Rightarrow> string \<Rightarrow> string" where
  "getEnv e key def = (if e key \<noteq> '''' then e key else def)"

definition getEnvInt :: "environ \<Rightarrow> string \<Rightarrow> int \<Rightarrow> int" where
  "getEnvInt e key def =
     (if e key = '''' then def
      else case Atoi (e key) of None \<Rightarrow> def | Some n \<Rightarrow> n)"

definition splitCSV :: "string \<Rightarrow> string list" where
  "splitCSV s = (if s = '''' then [] else filter (\<lambda>p. p \<noteq> '''') (map TrimSpace (Split CHR '','' s)))"

text \<open>\<^verbatim>\<open>time.Duration(n) * unit\<close> is a 64-bit product.\<close>

definition in_units :: "int \<Rightarrow> duration \<Rightarrow> duration" where
  "in_units n unit = wrap64 (n * unit)"

definition Millisecond :: duration where "Millisecond = 1000000"
definition Second :: duration where "Second = 1000000000"
definition Minute :: duration where "Minute = 60 * 1000000000"

record config =
  BaseURL :: string
  Addr :: string
  TLSCertFile :: string
  TLSKeyFile :: string
  MaxExpirationMinutes :: int
  MaxBodyBytes :: int
  WriteRatePerMin :: int
  ReadRatePerMin :: int
  TrustProxy :: bool
  CleanupInterval :: duration
  ShutdownTimeout :: duration
  ShutdownDrain :: duration
  StorageBackend :: string
  SQLitePath :: string
  PostgresDSN :: string
  DenyHosts :: "string list"
  DenyHostsFile :: string
  LogClickIP :: bool
  ClickIPSalt :: string
  ClickRetentionDays :: int
  MetricsToken :: string
  WebhookWorkers :: int
  WebhookQueueSize :: int
  WebhookTimeout :: duration
  UnfurlEnabled :: bool
  UnfurlWorkers :: int
  UnfurlQueueSize :: int
  UnfurlTimeout :: duration
  GeoIPDBPath :: string

definition Load :: "environ \<Rightarrow> config" where
  "Load e = \<lparr>BaseURL = getEnv e ''BASE_URL'' ''http://localhost:8080'',
     Addr = '':'' @ getEnv e ''PORT'' ''8080'',
     TLSCertFile = e ''TLS_CERT_FILE'',
     TLSKeyFile = e ''TLS_KEY_FILE'',
     MaxExpirationMinutes = getEnvInt e ''MAX_EXPIRATION_MINUTES'' 525600,
     MaxBodyBytes = getEnvInt e ''MAX_BODY_BYTES'' 4096,
     WriteRatePerMin = getEnvInt e ''WRITE_RATE_PER_MIN'' 10,
     ReadRatePerMin = getEnvInt e ''READ_RATE_PER_MIN'' 120,
     TrustProxy = (e ''TRUST_PROXY'' = ''true''),
     CleanupInterval = in_units (getEnvInt e ''CLEANUP_INTERVAL_MINS'' 5) Minute,
     ShutdownTimeout = in_units (getEnvInt e ''SHUTDOWN_TIMEOUT_SECS'' 10) Second,
     ShutdownDrain = in_units (getEnvInt e ''SHUTDOWN_DRAIN_SECS'' 5) Second,
     StorageBackend = getEnv e ''STORAGE_BACKEND'' ''memory'',
     SQLitePath = getEnv e ''SQLITE_PATH'' ''tiny-url.db'',
     PostgresDSN = e ''POSTGRES_DSN'',
     DenyHosts = splitCSV (e ''DENY_HOSTS''),
     DenyHostsFile = e ''DENY_HOSTS_FILE'',
     LogClickIP = (e ''CLICK_LOG_IP'' = ''true''),
     ClickIPSalt = e ''CLICK_IP_SALT'',
     ClickRetentionDays = getEnvInt e ''CLICK_RETENTION_DAYS'' 90,
     MetricsToken = e ''METRICS_TOKEN'',
     WebhookWorkers = getEnvInt e ''WEBHOOK_WORKERS'' 4,
     WebhookQueueSize = getEnvInt e ''WEBHOOK_QUEUE'' 256,
     WebhookTimeout = in_units (getEnvInt e ''WEBHOOK_TIMEOUT_MS'' 5000) Millisecond,
     UnfurlEnabled = (e ''UNFURL_ENABLED'' = ''true''),
     UnfurlWorkers = getEnvInt e ''UNFURL_WORKERS'' 4,
     UnfurlQueueSize = getEnvInt e ''UNFURL_QUEUE'' 256,
     UnfurlTimeout = in_units (getEnvInt e ''UNFURL_TIMEOUT_MS'' 3000) Millisecond,
     GeoIPDBPath = e ''GEOIP_DB_PATH''\<rparr>"

definition TLSEnabled :: "config \<Rightarrow> bool" where
  "TLSEnabled c = (TLSCertFile c \<noteq> '''' \<and> TLSKeyFile c \<noteq> '''')"

datatype base_url_err = EmptyBaseURL | UnparsableBaseURL string | BadScheme string | NoHost

text \<open>\<open>parse\<close> is \<^verbatim>\<open>url.Parse\<close>, cut down to scheme and host; \<open>Inl\<close> is its error.\<close>

definition ValidateBaseURL :: "(string \<Rightarrow> string + (string \<times> string)) \<Rightarrow> string \<Rightarrow> base_url_err option" where
  "ValidateBaseURL parse raw =
     (if raw = '''' then Some EmptyBaseURL
      else case parse raw of
        Inl err \<Rightarrow> Some (UnparsableBaseURL err)
      | Inr (scheme, host) \<Rightarrow>
          if scheme \<noteq> ''http'' \<and> scheme \<noteq> ''https'' then Some (BadScheme scheme)
          else if host = '''' then Some NoHost
          else None)"

section \<open>The store and the deny list\<close>

text \<open>Which backend is opened; for the SQL backends with the click retention, if it is set.\<close>

datatype backend = Memory | SQLite string "duration option" | Postgres string "duration option"

definition storageBackendName :: "string \<Rightarrow> string" where
  "storageBackendName b = (if b = '''' then ''memory'' else b)"

definition retention :: "config \<Rightarrow> duration option" where
  "retention c = (if ClickRetentionDays c > 0 then Some (wrap64 (in_units (ClickRetentionDays c) 24 * (60 * Minute))) else None)"

datatype open_err = OpenFailed string | NoPostgresDSN | UnknownBackend string

text \<open>\<open>sqlite\<close> and \<open>postgres\<close> are the errors of opening the database, if any.\<close>

definition openStore :: "(string \<Rightarrow> string option) \<Rightarrow> (string \<Rightarrow> string option) \<Rightarrow> config \<Rightarrow> open_err + backend" where
  "openStore sqlite postgres c =
     (if StorageBackend c = ''sqlite'' then
        (case sqlite (SQLitePath c) of
           Some err \<Rightarrow> Inl (OpenFailed err)
         | None \<Rightarrow> Inr (SQLite (SQLitePath c) (retention c)))
      else if StorageBackend c = ''postgres'' then
        (if PostgresDSN c = '''' then Inl NoPostgresDSN
         else case postgres (PostgresDSN c) of
           Some err \<Rightarrow> Inl (OpenFailed err)
         | None \<Rightarrow> Inr (Postgres (PostgresDSN c) (retention c)))
      else if StorageBackend c = '''' \<or> StorageBackend c = ''memory'' then Inr Memory
      else Inl (UnknownBackend (StorageBackend c)))"

definition loadDenyList :: "(string \<Rightarrow> string) \<Rightarrow> (string + string list) \<Rightarrow> config \<Rightarrow> string + deny_list" where
  "loadDenyList ul contents c =
     (case LoadDenyListFile ul (DenyHostsFile c) contents of
        Inl err \<Rightarrow> Inl err
      | Inr fileList \<Rightarrow> Inr (MergeDenyLists [NewDenyList ul (DenyHosts c), fileList]))"

section \<open>Tracing\<close>

definition firstNonEmpty :: "string \<Rightarrow> string \<Rightarrow> string" where
  "firstNonEmpty a b = (if a \<noteq> '''' then a else b)"

text \<open>
  \<^verbatim>\<open>InitTracing\<close> decides whether spans are exported, and where to; \<open>exporter\<close> and \<open>res\<close> are the
  errors of the OpenTelemetry set-up calls, if any.
\<close>

definition InitTracing :: "environ \<Rightarrow> string option \<Rightarrow> string option \<Rightarrow> string + string option" where
  "InitTracing e exporter res =
     (if e ''OTEL_EXPORTER_OTLP_ENDPOINT'' = '''' \<and> e ''OTEL_EXPORTER_OTLP_TRACES_ENDPOINT'' = '''' then Inr None
      else case exporter of
        Some err \<Rightarrow> Inl err
      | None \<Rightarrow>
          (case res of
             Some err \<Rightarrow> Inl err
           | None \<Rightarrow> Inr (Some (firstNonEmpty (e ''OTEL_EXPORTER_OTLP_TRACES_ENDPOINT'') (e ''OTEL_EXPORTER_OTLP_ENDPOINT'')))))"

section \<open>Starting and stopping\<close>

text \<open>
  What the outside answers while \<^verbatim>\<open>main\<close> starts; \<open>su_tracing\<close> is the error of \<^verbatim>\<open>InitTracing\<close>. The cleanup routine of every backend starts a
  \<^verbatim>\<open>time.NewTicker\<close>, which panics on an interval that is not positive.
\<close>

record startup_env =
  su_parse :: "string \<Rightarrow> string + (string \<times> string)"
  su_tracing :: "string option"
  su_sqlite :: "string \<Rightarrow> string option"
  su_postgres :: "string \<Rightarrow> string option"
  su_denyFile :: "string + string list"
  su_lower :: "string \<Rightarrow> string"

datatype fatal = ConfigErr base_url_err | TracingErr string | StoreErr open_err | HandlerErr string

datatype startup = Fatal fatal | TickerPanic | Serving backend deny_list

definition start :: "startup_env \<Rightarrow> config \<Rightarrow> startup" where
  "start env c =
     (case ValidateBaseURL (su_parse env) (BaseURL c) of
        Some err \<Rightarrow> Fatal (ConfigErr err)
      | None \<Rightarrow>
          (case su_tracing env of
             Some err \<Rightarrow> Fatal (TracingErr err)
           | None \<Rightarrow>
               (case openStore (su_sqlite env) (su_postgres env) c of
                  Inl err \<Rightarrow> Fatal (StoreErr err)
                | Inr b \<Rightarrow>
                    if CleanupInterval c \<le> 0 then TickerPanic
                    else case loadDenyList (su_lower env) (su_denyFile env) c of
                      Inl err \<Rightarrow> Fatal (HandlerErr err)
                    | Inr deny \<Rightarrow> Serving b deny)))"

text \<open>
  Why \<^verbatim>\<open>main\<close> stops waiting: a signal, a listener that was closed, a listener that failed (which
  ends the process at once), and what it does then, in order.
\<close>

datatype stop_cause = Signalled | ListenerClosed | ListenerFailed

datatype shutdown_step = Drain duration | ShutdownServer duration | CloseStore | ExitFailure

definition shutdown_steps :: "config \<Rightarrow> stop_cause \<Rightarrow> shutdown_step list" where
  "shutdown_steps c cause =
     (case cause of
        ListenerFailed \<Rightarrow> [ExitFailure]
      | ListenerClosed \<Rightarrow> [CloseStore]
      | Signalled \<Rightarrow>
          (if ShutdownDrain c > 0 then [Drain (ShutdownDrain c)] else []) @ [ShutdownServer (ShutdownTimeout c), CloseStore])"

text \<open>The \<^verbatim>\<open>http.Server\<close>, and the listener it is given: TLS exactly if both files are configured.\<close>

record http_server =
  hs_Addr :: string
  hs_ReadTimeout :: duration
  hs_WriteTimeout :: duration
  hs_IdleTimeout :: duration

definition new_server :: "config \<Rightarrow> http_server" where
  "new_server c = \<lparr>hs_Addr = Addr c, hs_ReadTimeout = in_units 15 Second, hs_WriteTimeout = in_units 15 Second,
     hs_IdleTimeout = in_units 60 Second\<rparr>"

datatype listener = ListenAndServe | ListenAndServeTLS string string

definition listen :: "config \<Rightarrow> listener" where
  "listen c = (if TLSEnabled c then ListenAndServeTLS (TLSCertFile c) (TLSKeyFile c) else ListenAndServe)"

text \<open>The arguments of the process: a version flag prints the version and ends it.\<close>

definition version_asked :: "string list \<Rightarrow> bool" where
  "version_asked args = (length args \<ge> 2 \<and> args ! 1 \<in> {''--version'', ''-version'', ''-v''})"

section \<open>Version\<close>

definition or_else :: "string \<Rightarrow> string \<Rightarrow> string" where
  "or_else a b = (if a \<noteq> '''' then a else b)"

record build_info =
  bi_GoVersion :: string
  bi_MainVersion :: string
  bi_Settings :: "(string \<times> string) list"

text \<open>The loop over the build settings; a revision is cut to seven bytes unless one is set.\<close>

fun read_settings :: "(string \<times> string) list \<Rightarrow> string \<times> string \<Rightarrow> string \<times> string" where
  "read_settings [] sm = sm"
| "read_settings ((k, v) # rest) (sha, modified) =
     (if k = ''vcs.revision'' then read_settings rest (if sha = '''' \<and> length v \<ge> 7 then take 7 v else sha, modified)
      else if k = ''vcs.modified'' then read_settings rest (sha, if v = ''true'' then ''+dirty'' else modified)
      else read_settings rest (sha, modified))"

definition printVersion :: "string \<Rightarrow> string \<Rightarrow> build_info option \<Rightarrow> string" where
  "printVersion buildSHA buildVersion info =
     (let (sha, modified) = (case info of None \<Rightarrow> (buildSHA, '''') | Some i \<Rightarrow> read_settings (bi_Settings i) (buildSHA, ''''));
          goVer = (case info of None \<Rightarrow> '''' | Some i \<Rightarrow> bi_GoVersion i);
          version = (case info of None \<Rightarrow> buildVersion
            | Some i \<Rightarrow> if buildVersion = '''' then bi_MainVersion i else buildVersion);
          sha' = (if sha = '''' then ''unknown'' else sha)
      in ''tiny-url version='' @ or_else version ''(devel)'' @ '' commit='' @ sha' @ modified @ '' go='' @ or_else goVer ''unknown'' @ [CHR 0x0A])"

section \<open>What is configured is what runs\<close>

text \<open>The hosts the environment names: the comma-separated list, and the lines of the file if one is set.\<close>

definition configured_hosts :: "environ \<Rightarrow> string list \<Rightarrow> string list" where
  "configured_hosts e lines = splitCSV (e ''DENY_HOSTS'') @ (if e ''DENY_HOSTS_FILE'' = '''' then [] else lines)"

lemma start_Serving:
  "start env c = Serving b deny \<longleftrightarrow>
    ValidateBaseURL (su_parse env) (BaseURL c) = None \<and> su_tracing env = None
    \<and> openStore (su_sqlite env) (su_postgres env) c = Inr b \<and> CleanupInterval c > 0
    \<and> loadDenyList (su_lower env) (su_denyFile env) c = Inr deny"
  by (simp add: start_def split: option.split sum.split)

lemma deny_contains_None: "\<not> deny_contains ul None host"
  by (simp add: deny_contains_def)

text \<open>
  C37. The deny list of a running server is the configured one: a host is on it exactly if, trimmed
  and lowered, it equals or lies below one of the normalised entries of DENY_HOSTS or lines of
  the file DENY_HOSTS_FILE names.
\<close>

theorem configured_hosts_denied:
  assumes "start env (Load e) = Serving b deny"
    and "e ''DENY_HOSTS_FILE'' = '''' \<or> su_denyFile env = Inr lines"
  shows "deny_contains (su_lower env) deny host \<longleftrightarrow>
    (let h = ToLower (su_lower env) (TrimSpace host) in h \<noteq> '''' \<and>
      (\<exists>raw \<in> set (configured_hosts e lines). normalizeHost (su_lower env) raw \<noteq> '''' \<and> blocked_by (normalizeHost (su_lower env) raw) h))"
proof -
  let ?ul = "su_lower env"
  obtain fileList where f: "LoadDenyListFile ?ul (e ''DENY_HOSTS_FILE'') (su_denyFile env) = Inr fileList"
    and d: "deny = MergeDenyLists [NewDenyList ?ul (splitCSV (e ''DENY_HOSTS'')), fileList]"
    using assms(1) by (auto simp: start_Serving loadDenyList_def Load_def split: sum.splits)
  have "fileList = (if e ''DENY_HOSTS_FILE'' = '''' then None else NewDenyList ?ul lines)"
    using f assms(2) by (auto simp: LoadDenyListFile_def split: sum.splits if_splits)
  then show ?thesis
    by (auto simp: d merge_blocks deny_list_blocks deny_contains_None configured_hosts_def Let_def)
qed

text \<open>A start that gets as far as the cleanup routine.\<close>

definition reaches_store :: "startup_env \<Rightarrow> config \<Rightarrow> bool" where
  "reaches_store env c =
     (BaseURL c \<noteq> '''' \<and> (case su_parse env (BaseURL c) of
         Inl err \<Rightarrow> False | Inr (scheme, host) \<Rightarrow> scheme \<in> {''http'', ''https''} \<and> host \<noteq> '''')
      \<and> su_tracing env = None
      \<and> (StorageBackend c \<in> {'''', ''memory''} \<or> StorageBackend c = ''sqlite'' \<and> su_sqlite env (SQLitePath c) = None
         \<or> StorageBackend c = ''postgres'' \<and> PostgresDSN c \<noteq> '''' \<and> su_postgres env (PostgresDSN c) = None))"

lemma reaches_store_iff:
  "reaches_store env c \<longleftrightarrow> ValidateBaseURL (su_parse env) (BaseURL c) = None \<and> su_tracing env = None
    \<and> (\<exists>b. openStore (su_sqlite env) (su_postgres env) c = Inr b)"
proof -
  have "ValidateBaseURL (su_parse env) (BaseURL c) = None \<longleftrightarrow> BaseURL c \<noteq> '''' \<and> (case su_parse env (BaseURL c) of
      Inl err \<Rightarrow> False | Inr (scheme, host) \<Rightarrow> scheme \<in> {''http'', ''https''} \<and> host \<noteq> '''')"
    by (auto simp: ValidateBaseURL_def split: sum.split)
  moreover have "(\<exists>b. openStore (su_sqlite env) (su_postgres env) c = Inr b) \<longleftrightarrow>
      StorageBackend c \<in> {'''', ''memory''} \<or> StorageBackend c = ''sqlite'' \<and> su_sqlite env (SQLitePath c) = None
        \<or> StorageBackend c = ''postgres'' \<and> PostgresDSN c \<noteq> '''' \<and> su_postgres env (PostgresDSN c) = None"
    by (auto simp: openStore_def split: option.split)
  ultimately show ?thesis by (simp add: reaches_store_def)
qed

lemma start_panics:
  assumes "ValidateBaseURL (su_parse env) (BaseURL c) = None" "su_tracing env = None"
    and "openStore (su_sqlite env) (su_postgres env) c = Inr b" "CleanupInterval c \<le> 0"
  shows "start env c = TickerPanic"
  using assms by (simp add: start_def)

text \<open>
  Cn. The server starts exactly when the base URL is http(s) with a host, tracing comes up, the
  backend is a known one and opens, the cleanup interval is positive and the deny file, if one is
  set, can be read; with an interval that is not positive a start that got as far as the cleanup
  routine panics, and it does so in no other case.
\<close>

theorem startup_exact:
  "((\<exists>b deny. start env c = Serving b deny) \<longleftrightarrow>
     reaches_store env c \<and> 0 < CleanupInterval c \<and> (DenyHostsFile c = '''' \<or> (\<exists>lines. su_denyFile env = Inr lines)))
   \<and> (start env c = TickerPanic \<longleftrightarrow> reaches_store env c \<and> CleanupInterval c \<le> 0)"
proof (intro conjI)
  have deny: "(\<exists>deny. loadDenyList (su_lower env) (su_denyFile env) c = Inr deny) \<longleftrightarrow>
      DenyHostsFile c = '''' \<or> (\<exists>lines. su_denyFile env = Inr lines)"
    by (auto simp: loadDenyList_def LoadDenyListFile_def split: sum.split)
  show "(\<exists>b deny. start env c = Serving b deny) \<longleftrightarrow>
     reaches_store env c \<and> 0 < CleanupInterval c \<and> (DenyHostsFile c = '''' \<or> (\<exists>lines. su_denyFile env = Inr lines))"
    unfolding deny [symmetric] reaches_store_iff start_Serving by blast
  show "start env c = TickerPanic \<longleftrightarrow> reaches_store env c \<and> CleanupInterval c \<le> 0"
    unfolding reaches_store_iff by (auto simp: start_def split: option.split sum.split)
qed

text \<open>A comma-separated list of trimmed entries is read back as written.\<close>

lemma Split_append: "d \<notin> set p \<Longrightarrow> Split d (p @ d # s) = p # Split d s"
  by (induction p) (auto split: list.split)

lemma Split_single: "d \<notin> set p \<Longrightarrow> Split d p = [p]"
  by (induction p) auto

fun joinCSV :: "string list \<Rightarrow> string" where
  "joinCSV [] = ''''"
| "joinCSV [p] = p"
| "joinCSV (p # q # ps) = p @ CHR '','' # joinCSV (q # ps)"

lemma splitCSV_join:
  assumes "\<forall>p \<in> set ps. p \<noteq> '''' \<and> TrimSpace p = p \<and> CHR '','' \<notin> set p"
  shows "splitCSV (joinCSV ps) = ps"
proof -
  have split: "ps \<noteq> [] \<Longrightarrow> Split CHR '','' (joinCSV ps) = ps"
    using assms by (induction ps rule: joinCSV.induct) (simp_all add: Split_append Split_single)
  have "filter (\<lambda>p. p \<noteq> '''') (map TrimSpace ps) = ps"
    using assms by (induction ps) auto
  moreover have "joinCSV ps = '''' \<longleftrightarrow> ps = []"
    using assms by (cases ps rule: joinCSV.cases) auto
  ultimately show ?thesis using split by (cases "ps = []") (simp_all add: splitCSV_def)
qed

definition plain_start :: startup_env where
  "plain_start = \<lparr>su_parse = (\<lambda>u. Inr (''http'', ''localhost:8080'')), su_tracing = None, su_sqlite = (\<lambda>p. None),
     su_postgres = (\<lambda>p. None), su_denyFile = Inl ''no such file'', su_lower = id\<rparr>"

definition deny_environ :: environ where
  "deny_environ k = (if k = ''DENY_HOSTS'' then '' evil.com,, *.bad.org'' else '''')"

lemma plain_start_serves: "\<exists>deny. start plain_start (Load deny_environ) = Serving Memory deny"
  by (simp add: start_Serving plain_start_def Load_def deny_environ_def getEnv_def getEnvInt_def ValidateBaseURL_def
      openStore_def in_units_def Minute_def wrap64_def loadDenyList_def LoadDenyListFile_def)

theorem configured_hosts_denied_witness:
  "\<exists>deny. start plain_start (Load deny_environ) = Serving Memory deny \<and> deny_contains id deny ''A.bad.org''"
proof -
  obtain deny where s: "start plain_start (Load deny_environ) = Serving Memory deny" using plain_start_serves by blast
  have csv: "splitCSV (deny_environ ''DENY_HOSTS'') = [''evil.com'', ''*.bad.org'']" by code_simp
  have norm: "normalizeHost id ''*.bad.org'' = ''bad.org''" "ToLower id (TrimSpace ''A.bad.org'') = ''a'' @ ''.'' @ ''bad.org''"
    by code_simp+
  have "deny_contains (su_lower plain_start) deny ''A.bad.org''"
    using configured_hosts_denied [OF s, of "[]" "''A.bad.org''"] csv norm
    by (auto simp: plain_start_def configured_hosts_def deny_environ_def blocked_by_def Let_def)
  then show ?thesis using s by (simp add: plain_start_def)
qed

text \<open>The start with a cleanup interval of zero minutes.\<close>

lemma zero_interval_panics:
  "start plain_start (Load (\<lambda>k. if k = ''CLEANUP_INTERVAL_MINS'' then ''0'' else '''')) = TickerPanic"
proof -
  have "Atoi ''0'' = Some 0" by code_simp
  then show ?thesis
    by (intro start_panics [where b = Memory])
      (simp_all add: plain_start_def Load_def getEnv_def getEnvInt_def ValidateBaseURL_def openStore_def in_units_def wrap64_def)
qed

end
