(* ===== verification/Geo.thy ===== *)
theory Geo
  imports Prelude
begin

text \<open>
  The country lookup of \<^verbatim>\<open>services/geoip.go\<close>: which database is used, and the lookup with its pool
  of reused records. The MaxMind reader is a parameter: for an address it answers an error, a
  miss, which leaves the record it was given alone, or the ISO code it decodes into the record.
\<close>

section \<open>The database\<close>

datatype lookup_outcome = LookupError | Miss | Hit string

type_synonym reader = "bytes \<Rightarrow> lookup_outcome"

text \<open>
  \<^verbatim>\<open>NewGeoIP\<close>: the file at \<open>path\<close> if it opens, else the embedded database if there is one and it
  parses, else none. \<open>None\<close> is the lookup that always answers the empty string.
\<close>

definition NewGeoIP :: "(string \<Rightarrow> reader option) \<Rightarrow> bytes \<Rightarrow> (bytes \<Rightarrow> reader option) \<Rightarrow> string \<Rightarrow> reader option" where
  "NewGeoIP open_db embedded from_bytes path =
     (case (if path \<noteq> '''' then open_db path else None) of
        Some rd \<Rightarrow> Some rd
      | None \<Rightarrow> if length embedded = 0 then None else from_bytes embedded)"

section \<open>Lookup\<close>

text \<open>
  The pool holds the ISO codes of the idle records; \<open>pick\<close> is the index of the record \<^verbatim>\<open>Get\<close>
  hands out, a new one if there is none at it. The deferred function clears the record and puts
  it back.
\<close>

definition pool_get :: "nat \<Rightarrow> string list \<Rightarrow> string \<times> string list" where
  "pool_get pick pool = (if pick < length pool then (pool ! pick, take pick pool @ drop (Suc pick) pool) else ('''', pool))"

definition reader_lookup :: "reader \<Rightarrow> nat \<Rightarrow> string list \<Rightarrow> bytes \<Rightarrow> string list \<times> string" where
  "reader_lookup rd pick pool ip =
     (if ip = [] then (pool, '''')
      else case pool_get pick pool of (rec, rest) \<Rightarrow>
        (case rd ip of
           LookupError \<Rightarrow> (rest @ [''''], '''')
         | Miss \<Rightarrow> (rest @ [''''], rec)
         | Hit code \<Rightarrow> (rest @ [''''], code)))"

text \<open>\<^verbatim>\<open>Country\<close>; the outer \<open>None\<close> is the nil \<^verbatim>\<open>*GeoIP\<close>.\<close>

definition Country :: "reader option option \<Rightarrow> nat \<Rightarrow> string list \<Rightarrow> bytes \<Rightarrow> string list \<times> string" where
  "Country g pick pool ip =
     (case g of
        None \<Rightarrow> (pool, '''')
      | Some None \<Rightarrow> (pool, '''')
      | Some (Some rd) \<Rightarrow> reader_lookup rd pick pool ip)"

section \<open>No country leaks from one lookup to the next\<close>

definition clean :: "string list \<Rightarrow> bool" where
  "clean pool = list_all (\<lambda>c. c = '''') pool"

lemma clean_parts: "clean pool \<Longrightarrow> clean (take n pool) \<and> clean (drop n pool)"
  unfolding clean_def by (metis append_take_drop_id list_all_append)

lemma clean_append: "clean (xs @ ys) \<longleftrightarrow> clean xs \<and> clean ys"
  by (simp add: clean_def)

lemma clean_nth: "clean pool \<Longrightarrow> n < length pool \<Longrightarrow> pool ! n = ''''"
  by (simp add: clean_def list_all_length)

lemma pool_get_clean: "clean pool \<Longrightarrow> pool_get pick pool = (rec, rest) \<Longrightarrow> rec = '''' \<and> clean rest"
  using clean_parts [of pool] by (auto simp: pool_get_def clean_append clean_nth split: if_splits)

text \<open>
  Whatever record the pool hands out, the answer is the one of the database for this address, and
  the pool stays clean: over any sequence of lookups an address without an entry gets no country.
\<close>

theorem lookup_answers_database:
  assumes "clean pool"
  shows "clean (fst (reader_lookup rd pick pool ip)) \<and> snd (reader_lookup rd pick pool ip) =
    (if ip = [] then '''' else case rd ip of Hit code \<Rightarrow> code | _ \<Rightarrow> '''')"
proof -
  obtain rec rest where g: "pool_get pick pool = (rec, rest)" by fastforce
  then have "rec = ''''" "clean rest" using pool_get_clean assms by blast+
  then show ?thesis using g assms by (auto simp: reader_lookup_def clean_def split: lookup_outcome.split)
qed

lemma lookups_stay_clean: "clean pool \<Longrightarrow> clean (fold (\<lambda>(pick, ip) p. fst (reader_lookup rd pick p ip)) qs pool)"
proof (induction qs arbitrary: pool)
  case (Cons q qs)
  have "clean (fst (reader_lookup rd (fst q) pool (snd q)))"
    using lookup_answers_database [OF Cons.prems] by blast
  then show ?case using Cons.IH by (cases q) simp
qed simp

end
