(* ===== verification/Server.thy ===== *)
theory Server
  imports Static_Files Redirect_Props Bulk Patch_Props Key_Props Read_Props Unfurl Config Geo
begin

text \<open>
  The whole server: what \<^verbatim>\<open>buildHandler\<close> of \<^verbatim>\<open>app.go\<close> hands to the handlers, and the run of the
  process as a sequence of requests, turns of the two worker pools, passes of the cleanup and of
  the limiter's janitor, and the shutdown. A request goes through the outer mux, the read limiter,
  the application mux and the guards of its route to its handler, which runs to its end before
  the next event.
\<close>

section \<open>What buildHandler wires\<close>

text \<open>What the set-up reads from outside: the deny file, the GeoIP databases, the assets, a random salt.\<close>

record build_env =
  be_env :: env
  be_denyFile :: "string + string list"
  be_static :: filesys                     \<comment> \<open>the embedded files\<close>
  be_salt :: string                        \<comment> \<open>the random fallback of \<^verbatim>\<open>SetClickSalt\<close>\<close>
  be_openDB :: "string \<Rightarrow> reader option"
  be_embedded :: bytes
  be_fromBytes :: "bytes \<Rightarrow> reader option"
  be_marshal :: "string \<Rightarrow> click_event \<Rightarrow> bytes"

record wiring =
  w_shorten :: shorten_cfg
  w_bulkMax :: int
  w_redirect :: redirect_cfg
  w_patch :: patch_cfg
  w_clicksMax :: int
  w_exportMax :: int
  w_urlsMax :: int
  w_auditHash :: bytes
  w_baseURL :: string
  w_trustProxy :: bool

record 's server =
  sv_state :: "'s redirect_state"
  sv_unfurler :: "unfurler option"
  sv_writeLimiter :: limiter
  sv_readLimiter :: limiter

text \<open>
  The salt and the GeoIP lookup are package state and a pool in the code; the lookup answers what
  it answers on an empty pool, which is what it answers on any (\<open>lookup_answers_database\<close>).
\<close>

definition wire_redirect :: "build_env \<Rightarrow> config \<Rightarrow> deny_list \<Rightarrow> redirect_cfg" where
  "wire_redirect be c deny =
     \<lparr>rc_DenyList = deny, rc_TrustProxy = TrustProxy c, rc_LogIP = LogClickIP c,
      rc_GeoIP = Some (\<lambda>ip. snd (Country (Some (NewGeoIP (be_openDB be) (be_embedded be) (be_fromBytes be) (GeoIPDBPath c))) 0 [] ip)),
      rc_salt = SetClickSalt (ClickIPSalt c) (be_salt be), rc_marshal = be_marshal be\<rparr>"

definition wire :: "build_env \<Rightarrow> config \<Rightarrow> deny_list \<Rightarrow> wiring" where
  "wire be c deny =
     \<lparr>w_shorten = \<lparr>h_baseURL = BaseURL c, h_maxExpirationMinutes = MaxExpirationMinutes c, h_denyList = deny,
        h_unfurler = UnfurlEnabled c\<rparr>,
      w_bulkMax = NewBulkShortenHandler 50,
      w_redirect = wire_redirect be c deny,
      w_patch = \<lparr>pc_maxExpirationMinutes = MaxExpirationMinutes c, pc_denyList = deny\<rparr>,
      w_clicksMax = NewClicksHandler 200, w_exportMax = NewExportHandler 0, w_urlsMax = NewMyURLsHandler 100,
      w_auditHash = NewAuditHandler (be_env be) (MetricsToken c),
      w_baseURL = BaseURL c, w_trustProxy = TrustProxy c\<rparr>"

definition initial_server :: "config \<Rightarrow> 's \<Rightarrow> 's server" where
  "initial_server c store =
     \<lparr>sv_state = \<lparr>rs_store = store, rs_cache = Some (NewDNSCache (in_units 5 Second) 1024),
        rs_stream = Some NewClickStream, rs_webhook = Some (NewWebhookDispatcher (WebhookQueueSize c))\<rparr>,
      sv_unfurler = (if UnfurlEnabled c then Some (NewUnfurler (UnfurlQueueSize c)) else None),
      sv_writeLimiter = NewLimiter (WriteRatePerMin c) Minute,
      sv_readLimiter = NewLimiter (ReadRatePerMin c) Minute\<rparr>"

definition buildHandler :: "build_env \<Rightarrow> config \<Rightarrow> 's \<Rightarrow> string + wiring \<times> 's server" where
  "buildHandler be c store =
     (case loadDenyList (n_lower (be_env be)) (be_denyFile be) c of
        Inl err \<Rightarrow> Inl err
      | Inr deny \<Rightarrow>
          (case NewStaticAssets (staticDirFS (be_static be)) of
             Inl err \<Rightarrow> Inl err
           | Inr assets \<Rightarrow> Inr (wire be c deny, initial_server c store)))"

section \<open>One request\<close>

text \<open>
  What the outside contributes to a request: its path, the decoded bodies (only the one of its
  route is looked at), the clocks and the random reads, and the libraries in \<open>in_env\<close>.
\<close>

record inputs =
  in_env :: env
  in_path :: "string list"
  in_readClk :: "time \<times> time"
  in_writeClk :: "time \<times> time"
  in_clk :: "nat \<Rightarrow> time"
  in_itemClk :: "nat \<Rightarrow> nat \<Rightarrow> time"
  in_idBytes :: bytes
  in_draws :: "nat \<Rightarrow> draws"
  in_salt :: "bytes option"
  in_rnd :: "bytes option"
  in_draw :: int
  in_shorten :: "shorten_request option"
  in_bulk :: "shorten_request list option"
  in_patch :: "patch_request option"
  in_clen :: int
  in_label :: "string option option"
  in_form :: form
  in_flusher :: bool
  in_qr :: "string \<Rightarrow> bytes option"

text \<open>What is answered: the reply of the handler, or what came before it.\<close>

datatype answer =
    ShortenA "shorten_response reply"
  | BulkA "bulk_response reply"
  | DeleteA "unit reply"
  | PatchA "patch_response reply"
  | RotateA "rotate_response reply"
  | KeysA "key_payload reply"
  | MyURLsA "analytics_response list reply"
  | AuditA "audit_event list reply"
  | AnalyticsA "analytics_response reply"
  | ClicksA "clicks_response reply"
  | ExportA "export_payload reply"
  | SeriesA "series_response reply"
  | StreamA "unit reply"
  | QRA "bytes reply"
  | BadgeA "string reply"
  | RedirectA "page reply"
  | AssetA endpoint
  | ProbeA outer_endpoint
  | TooManyRequests int     \<comment> \<open>429 with \<^verbatim>\<open>Retry-After\<close>\<close>
  | MissingHeader           \<comment> \<open>403 of the CSRF check\<close>
  | Unrouted int

definition set_store :: "'s \<Rightarrow> 's server \<Rightarrow> 's server" where
  "set_store s sv = sv\<lparr>sv_state := (sv_state sv)\<lparr>rs_store := s\<rparr>\<rparr>"

definition enqueue_jobs :: "(string \<times> string) list \<Rightarrow> unfurler \<Rightarrow> unfurler" where
  "enqueue_jobs jobs = fold (\<lambda>(c, u) q. fst (unfurl_Enqueue \<lparr>uj_Code = c, uj_URL = u\<rparr> q)) jobs"

text \<open>A handler that works on the store alone, and one that also leaves jobs for the unfurler.\<close>

definition with_store :: "('r \<Rightarrow> answer) \<Rightarrow> ('s \<Rightarrow> 's \<times> 'r) \<Rightarrow> 's server \<Rightarrow> 's server \<times> answer" where
  "with_store A f sv = (case f (rs_store (sv_state sv)) of (s, reply) \<Rightarrow> (set_store s sv, A reply))"

definition with_jobs :: "('r \<Rightarrow> answer) \<Rightarrow> ('s \<Rightarrow> 's \<times> (string \<times> string) list \<times> 'r) \<Rightarrow> 's server \<Rightarrow> 's server \<times> answer" where
  "with_jobs A f sv =
     (case f (rs_store (sv_state sv)) of (s, jobs, reply) \<Rightarrow>
        ((set_store s sv)\<lparr>sv_unfurler := map_option (enqueue_jobs jobs) (sv_unfurler sv)\<rparr>, A reply))"

text \<open>The live stream of \<open>buildHandler\<close> is never nil.\<close>

definition serve_stream :: "'s store_ops \<Rightarrow> inputs \<Rightarrow> request \<Rightarrow> 's server \<Rightarrow> 's server \<times> answer" where
  "serve_stream ops i r sv =
     (case rs_stream (sv_state sv) of
        None \<Rightarrow> (sv, StreamA (reply.Plain 500 ''internal server error''))
      | Some cs \<Rightarrow>
          (case stream_open ops (in_env i) (in_clk i) (in_flusher i) r (rs_store (sv_state sv)) cs of
             (s, cs', reply) \<Rightarrow> (sv\<lparr>sv_state := (sv_state sv)\<lparr>rs_store := s, rs_stream := Some cs'\<rparr>\<rparr>, StreamA reply)))"

definition serve_redirect :: "'s store_ops \<Rightarrow> wiring \<Rightarrow> inputs \<Rightarrow> request \<Rightarrow> 's server \<Rightarrow> 's server \<times> answer" where
  "serve_redirect ops w i r sv =
     (case redirect_ServeHTTP ops (w_redirect w) (in_env i) (in_clk i) (in_draw i) r (in_form i) (sv_state sv) of
        (st, reply) \<Rightarrow> (sv\<lparr>sv_state := st\<rparr>, RedirectA reply))"

fun handle :: "'s store_ops \<Rightarrow> wiring \<Rightarrow> inputs \<Rightarrow> endpoint \<Rightarrow> request \<Rightarrow> 's server \<Rightarrow> 's server \<times> answer" where
  "handle ops w i ShortenE r =
     with_jobs ShortenA (shorten_ServeHTTP ops (w_shorten w) (in_env i) (in_draws i 0) (in_clk i) r (in_shorten i))"
| "handle ops w i BulkE r =
     with_jobs BulkA (bulk_ServeHTTP ops (w_shorten w) (w_bulkMax w) (in_env i) (in_draws i) (in_itemClk i) (in_clk i 0) r (in_bulk i))"
| "handle ops w i DeleteE r = with_store DeleteA (delete_ServeHTTP ops (in_env i) (in_clk i) r)"
| "handle ops w i PatchE r =
     with_store PatchA (patch_ServeHTTP ops (w_patch w) (in_env i) (in_salt i) (in_rnd i) (in_clk i) r (in_patch i))"
| "handle ops w i RotateE r = with_store RotateA (rotate_ServeHTTP ops (in_env i) (in_rnd i) (in_clk i) r)"
| "handle ops w i KeysE r =
     with_store KeysA (keys_ServeHTTP ops (in_env i) (in_rnd i) (in_clk i) r (in_clen i) (in_label i))"
| "handle ops w i MyURLsE r = with_store MyURLsA (myurls_ServeHTTP ops (in_env i) (w_urlsMax w) (in_clk i) r)"
| "handle ops w i AuditE r = with_store AuditA (\<lambda>s. (s, audit_ServeHTTP ops (in_env i) (w_auditHash w) r s))"
| "handle ops w i AnalyticsE r = with_store AnalyticsA (analytics_ServeHTTP ops (in_env i) (in_clk i) r)"
| "handle ops w i ClicksE r = with_store ClicksA (clicks_ServeHTTP ops (in_env i) (w_clicksMax w) (in_clk i) r)"
| "handle ops w i ExportE r = with_store ExportA (export_ServeHTTP ops (in_env i) (w_exportMax w) (in_clk i) r)"
| "handle ops w i SeriesE r = with_store SeriesA (series_ServeHTTP ops (in_env i) (in_clk i) r)"
| "handle ops w i StreamE r = serve_stream ops i r"
| "handle ops w i QRE r = with_store QRA (\<lambda>s. (s, qr_ServeHTTP ops (w_baseURL w) (in_qr i) (in_clk i 0) r s))"
| "handle ops w i BadgeE r = with_store BadgeA (\<lambda>s. (s, badge_ServeHTTP ops (in_clk i 0) r s))"
| "handle ops w i RedirectE r = serve_redirect ops w i r"
| "handle ops w i StaticE r = (\<lambda>sv. (sv, AssetA StaticE))"
| "handle ops w i IndexE r = (\<lambda>sv. (sv, AssetA IndexE))"

text \<open>The guards of a route, from the outside in; the write limiter counts what it sees.\<close>

fun run_guards :: "wiring \<Rightarrow> inputs \<Rightarrow> request \<Rightarrow> guard list \<Rightarrow> limiter \<Rightarrow> limiter \<times> answer option" where
  "run_guards w i r [] l = (l, None)"
| "run_guards w i r (WriteLimiter # gs) l =
     (case limit_Middleware (n_ip (in_env i)) (w_trustProxy w) (fst (in_writeClk i)) (snd (in_writeClk i)) r l of
        (l', Inl n) \<Rightarrow> (l', Some (TooManyRequests n))
      | (l', Inr ()) \<Rightarrow> run_guards w i r gs l')"
| "run_guards w i r (XHRHeader # gs) l =
     (if r_Header r ''X-Requested-With'' \<noteq> ''XMLHttpRequest'' then (l, Some MissingHeader) else run_guards w i r gs l)"

definition reaches_app :: "string \<Rightarrow> string list \<Rightarrow> bool" where
  "reaches_app meth path = (case mux_find outer_routes meth path of route_result.Found (pat, e) bs \<Rightarrow> e = AppE | _ \<Rightarrow> False)"

definition read_limit :: "wiring \<Rightarrow> inputs \<Rightarrow> request \<Rightarrow> limiter \<Rightarrow> limiter \<times> int option" where
  "read_limit w i r l =
     (if \<not> reaches_app (r_Method r) (in_path i) then (l, None)
      else case limit_Middleware (n_ip (in_env i)) (w_trustProxy w) (fst (in_readClk i)) (snd (in_readClk i)) r l of
        (l', Inl n) \<Rightarrow> (l', Some n)
      | (l', Inr ()) \<Rightarrow> (l', None))"

text \<open>The request a handler sees: with its ID and the value bound to the wildcard of the route.\<close>

definition bound_request :: "inputs \<Rightarrow> request \<Rightarrow> (string \<times> string) list \<Rightarrow> request" where
  "bound_request i r bs = r\<lparr>r_Code := opt_or '''' (map_of bs ''code''), r_RequestID := request_id (in_idBytes i) r\<rparr>"

definition server_request :: "'s store_ops \<Rightarrow> wiring \<Rightarrow> inputs \<Rightarrow> request \<Rightarrow> 's server \<Rightarrow> 's server \<times> answer" where
  "server_request ops w i r sv =
     (case read_limit w i r (sv_readLimiter sv) of (rl, refused) \<Rightarrow>
       (let sv1 = sv\<lparr>sv_readLimiter := rl\<rparr> in
        case dispatch (refused = None) (r_Method r) (in_path i) of
          Probe pat e \<Rightarrow> (sv1, ProbeA e)
        | ReadRefused pat \<Rightarrow> (sv1, TooManyRequests (opt_or 0 refused))
        | AppNotAllowed \<Rightarrow> (sv1, Unrouted 405)
        | AppNotFound \<Rightarrow> (sv1, Unrouted 404)
        | OuterUnmatched \<Rightarrow> (sv1, Unrouted 404)
        | Routed pat gs e bs \<Rightarrow>
            (case run_guards w i r gs (sv_writeLimiter sv1) of
               (wl, Some a) \<Rightarrow> (sv1\<lparr>sv_writeLimiter := wl\<rparr>, a)
             | (wl, None) \<Rightarrow> handle ops w i e (bound_request i r bs) (sv1\<lparr>sv_writeLimiter := wl\<rparr>))))"

section \<open>Runs of the process\<close>

text \<open>
  Besides requests: a worker of the unfurler or of the dispatcher takes a job, a streaming client
  reads an event or leaves, the cleanup and the janitors make a pass, the server shuts down.
\<close>

datatype event =
    Request inputs request
  | UnfurlTurn net_env "bytes \<Rightarrow> html_token list" page_outcome time
  | WebhookTurn net_env "nat \<Rightarrow> http_outcome"
  | StreamRead nat
  | StreamLeave nat
  | CleanupTick time
  | JanitorTick time
  | ShutDown

definition on_stream :: "(click_stream \<Rightarrow> click_stream) \<Rightarrow> 's server \<Rightarrow> 's server" where
  "on_stream f sv = sv\<lparr>sv_state := (sv_state sv)\<lparr>rs_stream := map_option f (rs_stream (sv_state sv))\<rparr>\<rparr>"

definition on_webhook :: "(dispatcher \<Rightarrow> dispatcher) \<Rightarrow> 's server \<Rightarrow> 's server" where
  "on_webhook f sv = sv\<lparr>sv_state := (sv_state sv)\<lparr>rs_webhook := map_option f (rs_webhook (sv_state sv))\<rparr>\<rparr>"

definition unfurl_turn :: "'s store_ops \<Rightarrow> net_env \<Rightarrow> (bytes \<Rightarrow> html_token list) \<Rightarrow> page_outcome \<Rightarrow> time \<Rightarrow> 's server \<Rightarrow> 's server" where
  "unfurl_turn ops env tokenize out now sv =
     (case sv_unfurler sv of
        None \<Rightarrow> sv
      | Some u \<Rightarrow>
          (case unfurl_work ops env (ValidateHostAtRuntime env) tokenize (out, now) (u, rs_store (sv_state sv)) of
             (u', s) \<Rightarrow> (set_store s sv)\<lparr>sv_unfurler := Some u'\<rparr>))"

text \<open>\<open>cleanup\<close> is the cleanup pass of the backend.\<close>

fun server_step :: "'s store_ops \<Rightarrow> (time \<Rightarrow> 's \<Rightarrow> 's) \<Rightarrow> wiring \<Rightarrow> event \<Rightarrow> 's server \<Rightarrow> 's server" where
  "server_step ops cleanup w (Request i r) sv = fst (server_request ops w i r sv)"
| "server_step ops cleanup w (UnfurlTurn env tokenize out now) sv = unfurl_turn ops env tokenize out now sv"
| "server_step ops cleanup w (WebhookTurn env out) sv = on_webhook (worker_step env (ValidateHostAtRuntime env) out) sv"
| "server_step ops cleanup w (StreamRead n) sv = on_stream (\<lambda>cs. fst (receive n cs)) sv"
| "server_step ops cleanup w (StreamLeave n) sv = on_stream (\<lambda>cs. unsubscribe n (sub_Close n cs)) sv"
| "server_step ops cleanup w (CleanupTick t) sv = set_store (cleanup t (rs_store (sv_state sv))) sv"
| "server_step ops cleanup w (JanitorTick t) sv =
     sv\<lparr>sv_writeLimiter := janitor t (sv_writeLimiter sv), sv_readLimiter := janitor t (sv_readLimiter sv)\<rparr>"
| "server_step ops cleanup w ShutDown sv =
     (on_webhook dispatcher_Close sv)\<lparr>sv_unfurler := map_option unfurl_Close (sv_unfurler sv)\<rparr>"

section \<open>The write deadline of a stream\<close>

text \<open>
  The server's write timeout holds for the event stream as well. A write after the deadline fails,
  and the first heartbeat is not due before it: the loop ends at the first heartbeat, so none is
  ever sent.
\<close>

lemma no_heartbeat_sent:
  assumes "\<forall>(t, x) \<in> set ins. x = Heartbeat \<longrightarrow> t0 + stream_heartbeat \<le> t"
  shows "sse_loop marshal (map (\<lambda>(t, x). (x, t < t0 + hs_WriteTimeout (new_server c))) ins)
    = sse_loop marshal (map (\<lambda>(t, x). (x, t < t0 + hs_WriteTimeout (new_server c))) (takeWhile (\<lambda>(t, x). x \<noteq> Heartbeat) ins))"
  using assms
proof (induction ins)
  case (Cons tx ins)
  obtain t x where tx: "tx = (t, x)" by (cases tx)
  have deadline: "hs_WriteTimeout (new_server c) = stream_heartbeat"
    by (simp add: new_server_def stream_heartbeat_def in_units_def Second_def wrap64_def)
  show ?case
  proof (cases x)
    case Heartbeat
    then have "\<not> t < t0 + hs_WriteTimeout (new_server c)" using Cons.prems by (simp add: tx deadline)
    then show ?thesis by (simp add: tx Heartbeat)
  qed (use Cons in \<open>auto simp: tx split: option.split\<close>)
qed simp

end
