(* ===== verification/Sql.thy ===== *)
theory Sql
  imports Store_Iface
begin

text \<open>
  What the two SQL backends share: the tables of \<^verbatim>\<open>services/storage_sqlite.go\<close> (the Postgres
  schema is the same column for column), the conversions between rows and models, and the
  statements they are accessed with. A table is the list of its rows in the order of their row
  IDs. A nullable column is an \<open>option\<close>; a time is a column of nanoseconds, a 64-bit word read
  as a signed number. What the driver may answer instead of executing a statement is an argument
  of the operation (\<open>faults\<close>).
\<close>

section \<open>Values\<close>

text \<open>\<^verbatim>\<open>UnixNano\<close> and \<^verbatim>\<open>time.Unix(0, n)\<close>: a time outside the 64-bit range wraps.\<close>

definition UnixNano :: "time \<Rightarrow> 64 word" where
  "UnixNano t = word_of_int t"

definition from_unix :: "64 word \<Rightarrow> time" where
  "from_unix n = sint n"

definition stored_time :: "time \<Rightarrow> time" where
  "stored_time t = from_unix (UnixNano t)"

lemma UnixNano_from_unix [simp]: "UnixNano (from_unix n) = n"
  by (simp add: UnixNano_def from_unix_def)

lemma stored_time_from_unix [simp]: "stored_time (from_unix n) = from_unix n"
  by (simp add: stored_time_def)

lemma from_unix_UnixNano [simp]: "from_unix (UnixNano t) = stored_time t"
  by (simp add: stored_time_def)

lemma stored_time_idem [simp]: "stored_time (stored_time t) = stored_time t"
  unfolding stored_time_def by (simp only: UnixNano_from_unix)

lemma stored_time_id: "in_int64 t \<Longrightarrow> stored_time t = t"
  unfolding stored_time_def from_unix_def UnixNano_def in_int64_def
  by (simp add: signed_of_int signed_take_bit_int_eq_self)

text \<open>
  A JSON column: empty, malformed, or the text \<^verbatim>\<open>json.Marshal\<close> makes of a value, which
  \<^verbatim>\<open>json.Unmarshal\<close> reads back (every string of a model was decoded from JSON, so it is valid
  UTF-8 and survives the round trip).
\<close>

datatype 'a json_text = JEmpty | JText 'a | JBad

definition encodeTags :: "string list \<Rightarrow> string list json_text option" where
  "encodeTags tags = (if tags = [] then None else Some (JText tags))"

definition encodeDestinations :: "destination list \<Rightarrow> destination list json_text option" where
  "encodeDestinations ds = (if ds = [] then None else Some (JText ds))"

text \<open>Reading a JSON column: \<^verbatim>\<open>NULL\<close>, the empty text and corrupt JSON all give the nil slice.\<close>

fun decode_json :: "'a list json_text option \<Rightarrow> 'a list" where
  "decode_json (Some (JText xs)) = xs"
| "decode_json _ = []"

definition nullableInt :: "int \<Rightarrow> int option" where
  "nullableInt v = (if v = 0 then None else Some v)"

definition nullableBlob :: "bytes \<Rightarrow> bytes option" where
  "nullableBlob b = (if b = [] then None else Some b)"

definition nullableText :: "string \<Rightarrow> string option" where
  "nullableText s = (if s = '''' then None else Some s)"

lemma decode_encode [simp]:
  "decode_json (encodeTags ts) = ts" "decode_json (encodeDestinations ds) = ds"
  "opt_or 0 (nullableInt v) = v" "opt_or [] (nullableBlob b) = b" "opt_or [] (nullableText x) = x"
  by (simp_all add: encodeTags_def encodeDestinations_def nullableInt_def nullableBlob_def nullableText_def)

section \<open>Tables\<close>

record url_row =
  u_short_code :: string
  u_original_url :: string
  u_created_at :: "64 word"
  u_expires_at :: "64 word option"
  u_click_count :: int
  u_last_accessed :: "64 word option"
  u_owner_token_hash :: bytes
  u_tags :: "string list json_text option"
  u_max_clicks :: "int option"
  u_password_hash :: "bytes option"
  u_password_salt :: "bytes option"
  u_webhook_url :: "string option"
  u_webhook_secret :: "bytes option"
  u_api_key_id :: "int option"
  u_preview_title :: "string option"
  u_preview_image :: "string option"
  u_preview_description :: "string option"
  u_preview_fetched_at :: "64 word option"
  u_destinations :: "destination list json_text option"

record click_row =
  ce_id :: int
  ce_short_code :: string
  ce_clicked_at :: "64 word"
  ce_ip_hash :: "string option"
  ce_referer :: "string option"
  ce_ua_class :: "string option"
  ce_country :: "string option"
  ce_destination_url :: "string option"

record key_row =
  ak_id :: int
  ak_token_hash :: bytes
  ak_label :: "string option"
  ak_created_at :: "64 word"
  ak_last_used_at :: "64 word option"

record audit_row =
  ae_id :: int
  ae_at :: "64 word"
  ae_actor_kind :: string
  ae_actor_id :: string
  ae_action :: string
  ae_target_kind :: string
  ae_target_id :: string
  ae_metadata :: "string option"
  ae_request_id :: "string option"

text \<open>The database, the sequences the row IDs are drawn from, and the retention the store is set to.\<close>

record sql_store =
  db_urls :: "url_row list"
  db_clicks :: "click_row list"
  db_keys :: "key_row list"
  db_audit :: "audit_row list"
  db_click_seq :: int
  db_key_seq :: int
  db_audit_seq :: int
  clickRetention :: duration

text \<open>\<open>fl i\<close> is the driver's error for the \<open>i\<close>-th statement of the operation, if any.\<close>

type_synonym faults = "nat \<Rightarrow> string option"

definition no_fault :: faults where
  "no_fault = (\<lambda>i. None)"

section \<open>Rows and models\<close>

definition url_row_of :: "string \<Rightarrow> url_mapping \<Rightarrow> url_row" where
  "url_row_of code m = \<lparr>u_short_code = code, u_original_url = m_OriginalURL m,
     u_created_at = UnixNano (m_CreatedAt m), u_expires_at = map_option UnixNano (m_ExpiresAt m),
     u_click_count = m_ClickCount m, u_last_accessed = None, u_owner_token_hash = m_OwnerTokenHash m,
     u_tags = encodeTags (m_Tags m), u_max_clicks = nullableInt (m_MaxClicks m),
     u_password_hash = nullableBlob (m_PasswordHash m), u_password_salt = nullableBlob (m_PasswordSalt m),
     u_webhook_url = nullableText (m_WebhookURL m), u_webhook_secret = nullableBlob (m_WebhookSecret m),
     u_api_key_id = nullableInt (m_APIKeyID m), u_preview_title = nullableText (m_PreviewTitle m),
     u_preview_image = nullableText (m_PreviewImage m),
     u_preview_description = nullableText (m_PreviewDescription m),
     u_preview_fetched_at = map_option UnixNano (m_PreviewFetchedAt m),
     u_destinations = encodeDestinations (m_Destinations m)\<rparr>"

definition scan_url :: "url_row \<Rightarrow> url_mapping" where
  "scan_url r = \<lparr>m_ID = u_short_code r, m_OriginalURL = u_original_url r,
     m_CreatedAt = from_unix (u_created_at r), m_ExpiresAt = map_option from_unix (u_expires_at r),
     m_ClickCount = u_click_count r, m_LastAccessed = map_option from_unix (u_last_accessed r),
     m_OwnerTokenHash = u_owner_token_hash r, m_Tags = decode_json (u_tags r),
     m_MaxClicks = opt_or 0 (u_max_clicks r), m_PasswordHash = opt_or [] (u_password_hash r),
     m_PasswordSalt = opt_or [] (u_password_salt r), m_WebhookURL = opt_or [] (u_webhook_url r),
     m_WebhookSecret = opt_or [] (u_webhook_secret r), m_APIKeyID = opt_or 0 (u_api_key_id r),
     m_PreviewTitle = opt_or [] (u_preview_title r), m_PreviewImage = opt_or [] (u_preview_image r),
     m_PreviewDescription = opt_or [] (u_preview_description r),
     m_PreviewFetchedAt = map_option from_unix (u_preview_fetched_at r),
     m_Destinations = decode_json (u_destinations r)\<rparr>"

text \<open>The columns the listing selects; the others keep the zero value.\<close>

definition scan_listing :: "int \<Rightarrow> url_row \<Rightarrow> url_mapping" where
  "scan_listing i r = \<lparr>m_ID = u_short_code r, m_OriginalURL = u_original_url r,
     m_CreatedAt = from_unix (u_created_at r), m_ExpiresAt = map_option from_unix (u_expires_at r),
     m_ClickCount = u_click_count r, m_LastAccessed = map_option from_unix (u_last_accessed r),
     m_OwnerTokenHash = [], m_Tags = decode_json (u_tags r), m_MaxClicks = opt_or 0 (u_max_clicks r),
     m_PasswordHash = opt_or [] (u_password_hash r), m_PasswordSalt = [],
     m_WebhookURL = opt_or [] (u_webhook_url r), m_WebhookSecret = [], m_APIKeyID = i,
     m_PreviewTitle = [], m_PreviewImage = [], m_PreviewDescription = [], m_PreviewFetchedAt = None,
     m_Destinations = []\<rparr>"

definition click_row_of :: "int \<Rightarrow> string \<Rightarrow> click_event \<Rightarrow> click_row" where
  "click_row_of i code ev = \<lparr>ce_id = i, ce_short_code = code, ce_clicked_at = UnixNano (ev_At ev),
     ce_ip_hash = nullableText (ev_IPHash ev), ce_referer = nullableText (ev_Referer ev),
     ce_ua_class = nullableText (ev_UAClass ev), ce_country = nullableText (ev_Country ev),
     ce_destination_url = nullableText (ev_DestinationURL ev)\<rparr>"

definition scan_click :: "click_row \<Rightarrow> click_event" where
  "scan_click r = \<lparr>ev_At = from_unix (ce_clicked_at r), ev_IPHash = opt_or [] (ce_ip_hash r),
     ev_Referer = opt_or [] (ce_referer r), ev_UAClass = opt_or [] (ce_ua_class r),
     ev_Country = opt_or [] (ce_country r), ev_DestinationURL = opt_or [] (ce_destination_url r)\<rparr>"

definition scan_key :: "key_row \<Rightarrow> api_key" where
  "scan_key r = \<lparr>k_ID = ak_id r, k_TokenHash = ak_token_hash r, k_Label = opt_or [] (ak_label r),
     k_CreatedAt = from_unix (ak_created_at r), k_LastUsedAt = map_option from_unix (ak_last_used_at r)\<rparr>"

definition audit_row_of :: "int \<Rightarrow> time \<Rightarrow> audit_event \<Rightarrow> audit_row" where
  "audit_row_of i at e = \<lparr>ae_id = i, ae_at = UnixNano at, ae_actor_kind = a_ActorKind e,
     ae_actor_id = a_ActorID e, ae_action = a_Action e, ae_target_kind = a_TargetKind e,
     ae_target_id = a_TargetID e, ae_metadata = nullableText (a_Metadata e),
     ae_request_id = nullableText (a_RequestID e)\<rparr>"

definition scan_audit :: "audit_row \<Rightarrow> audit_event" where
  "scan_audit r = \<lparr>a_ID = ae_id r, a_At = Some (from_unix (ae_at r)), a_ActorKind = ae_actor_kind r,
     a_ActorID = ae_actor_id r, a_Action = ae_action r, a_TargetKind = ae_target_kind r,
     a_TargetID = ae_target_id r, a_Metadata = opt_or [] (ae_metadata r),
     a_RequestID = opt_or [] (ae_request_id r)\<rparr>"

text \<open>What was written is read back, up to the precision of the time columns.\<close>

lemma scan_url_row_of: "insertable c m \<Longrightarrow> scan_url (url_row_of c m) = norm_mapping stored_time m"
  by (simp add: insertable_def scan_url_def url_row_of_def norm_mapping_def option.map_comp comp_def)

lemma norm_scan_url [simp]: "norm_mapping stored_time (scan_url r) = scan_url r"
  by (simp add: norm_mapping_def scan_url_def option.map_comp comp_def)

lemma scan_click_row_of: "scan_click (click_row_of i c ev) = ev\<lparr>ev_At := stored_time (ev_At ev)\<rparr>"
  by (simp add: scan_click_def click_row_of_def)

lemma scan_url_sel [simp]: "m_ID (scan_url r) = u_short_code r" "m_ClickCount (scan_url r) = u_click_count r"
  "m_APIKeyID (scan_url r) = opt_or 0 (u_api_key_id r)" "m_ExpiresAt (scan_url r) = map_option from_unix (u_expires_at r)"
  by (simp_all add: scan_url_def)

lemma scan_key_sel [simp]: "k_ID (scan_key r) = ak_id r" "k_TokenHash (scan_key r) = ak_token_hash r"
  by (simp_all add: scan_key_def)

section \<open>Statements\<close>

text \<open>
  \<^verbatim>\<open>SELECT ... WHERE key = ?\<close> of one row, \<^verbatim>\<open>INSERT\<close> that leaves a conflicting row alone,
  \<^verbatim>\<open>UPDATE\<close> and \<^verbatim>\<open>DELETE\<close>; the second component is \<^verbatim>\<open>RowsAffected\<close>.
\<close>

definition select_one :: "('r \<Rightarrow> 'k) \<Rightarrow> 'k \<Rightarrow> 'r list \<Rightarrow> 'r option" where
  "select_one key k rows = find (\<lambda>r. key r = k) rows"

definition insert_or_ignore :: "('r \<Rightarrow> 'k) \<Rightarrow> 'r \<Rightarrow> 'r list \<Rightarrow> 'r list \<times> nat" where
  "insert_or_ignore key r rows =
     (if select_one key (key r) rows \<noteq> None then (rows, 0) else (rows @ [r], 1))"

definition update_where :: "('r \<Rightarrow> bool) \<Rightarrow> ('r \<Rightarrow> 'r) \<Rightarrow> 'r list \<Rightarrow> 'r list \<times> nat" where
  "update_where P f rows = (map (\<lambda>r. if P r then f r else r) rows, length (filter P rows))"

definition delete_where :: "('r \<Rightarrow> bool) \<Rightarrow> 'r list \<Rightarrow> 'r list \<times> nat" where
  "delete_where P rows = (filter (\<lambda>r. \<not> P r) rows, length (filter P rows))"

text \<open>\<^verbatim>\<open>DELETE FROM urls\<close>: the foreign key takes the click events of the deleted rows along.\<close>

definition delete_urls :: "(url_row \<Rightarrow> bool) \<Rightarrow> sql_store \<Rightarrow> sql_store \<times> nat" where
  "delete_urls P s =
     (let (rows, n) = delete_where P (db_urls s); gone = map u_short_code (filter P (db_urls s))
      in (s\<lparr>db_urls := rows, db_clicks := filter (\<lambda>c. ce_short_code c \<notin> set gone) (db_clicks s)\<rparr>, n))"

lemma select_one_Nil [simp]: "select_one key k [] = None"
  by (simp add: select_one_def)

lemma select_one_Cons [simp]:
  "select_one key k (r # rows) = (if key r = k then Some r else select_one key k rows)"
  by (simp add: select_one_def)

lemma select_one_append [simp]: "select_one key k (xs @ ys) =
    (case select_one key k xs of None \<Rightarrow> select_one key k ys | Some r \<Rightarrow> Some r)"
  by (induction xs) simp_all

lemma select_one_None: "select_one key k rows = None \<longleftrightarrow> k \<notin> key ` set rows"
  by (induction rows) auto

lemma select_one_Some: "select_one key k rows = Some r \<Longrightarrow> r \<in> set rows \<and> key r = k"
  by (induction rows) (auto split: if_splits)

lemma select_one_unique:
  "distinct (map key rows) \<Longrightarrow> r \<in> set rows \<Longrightarrow> select_one key (key r) rows = Some r"
  by (induction rows) force+

lemma select_one_map: "(\<And>r. key (f r) = key r) \<Longrightarrow> select_one key k (map f rows) = map_option f (select_one key k rows)"
  by (induction rows) simp_all

lemma select_update: "(\<And>r. key (f r) = key r) \<Longrightarrow> select_one key k (fst (update_where P f rows)) =
    map_option (\<lambda>r. if P r then f r else r) (select_one key k rows)"
  by (simp add: update_where_def select_one_map)

lemma affected_update [simp]: "snd (update_where (\<lambda>r. key r = k) f rows) = 0 \<longleftrightarrow> select_one key k rows = None"
  by (auto simp: update_where_def select_one_None filter_empty_conv)

lemma affected_delete [simp]: "snd (delete_where (\<lambda>r. key r = k) rows) = 0 \<longleftrightarrow> select_one key k rows = None"
  by (auto simp: delete_where_def select_one_None filter_empty_conv)

lemma select_delete: "select_one key k' (fst (delete_where (\<lambda>r. key r = k) rows)) =
    (if k' = k then None else select_one key k' rows)"
  by (induction rows) (auto simp: delete_where_def)

lemma select_filter: "distinct (map key rows) \<Longrightarrow> select_one key k (filter P rows) =
    (case select_one key k rows of None \<Rightarrow> None | Some r \<Rightarrow> if P r then Some r else None)"
proof (induction rows)
  case (Cons r rows)
  then have "select_one key (key r) rows = None" by (simp add: select_one_None)
  then show ?case using Cons by (auto split: option.splits)
qed simp

lemma map_key_update: "(\<And>r. key (f r) = key r) \<Longrightarrow> map key (fst (update_where P f rows)) = map key rows"
  by (simp add: update_where_def)

lemma distinct_delete_where: "distinct (map key rows) \<Longrightarrow> distinct (map key (fst (delete_where P rows)))"
  by (simp add: delete_where_def distinct_map_filter)

lemma set_update_where: "r \<in> set (fst (update_where P f rows)) \<longleftrightarrow> (\<exists>r0 \<in> set rows. r = (if P r0 then f r0 else r0))"
  by (auto simp: update_where_def)

lemma delete_urls_sel [simp]:
  "db_urls (fst (delete_urls P s)) = fst (delete_where P (db_urls s))"
  "db_keys (fst (delete_urls P s)) = db_keys s" "db_audit (fst (delete_urls P s)) = db_audit s"
  "db_click_seq (fst (delete_urls P s)) = db_click_seq s" "db_key_seq (fst (delete_urls P s)) = db_key_seq s"
  "db_audit_seq (fst (delete_urls P s)) = db_audit_seq s" "clickRetention (fst (delete_urls P s)) = clickRetention s"
  "snd (delete_urls P s) = snd (delete_where P (db_urls s))"
  "db_clicks (fst (delete_urls P s)) =
     filter (\<lambda>c. ce_short_code c \<notin> u_short_code ` {r \<in> set (db_urls s). P r}) (db_clicks s)"
  by (simp_all add: delete_urls_def Let_def case_prod_unfold)

section \<open>Dynamic updates\<close>

text \<open>
  The arguments \<^verbatim>\<open>Update\<close> collects in a \<^verbatim>\<open>[]any\<close>. \<open>VTags\<close> and \<open>VDests\<close> are the text
  \<^verbatim>\<open>json.Marshal\<close> makes of the value.
\<close>

datatype sql_value = VNull | VInt int | VNano "64 word" | VText string | VBlob bytes
  | VTags "string list" | VDests "destination list"

definition any_of :: "('a \<Rightarrow> sql_value) \<Rightarrow> 'a option \<Rightarrow> sql_value" where
  "any_of V x = (case x of None \<Rightarrow> VNull | Some v \<Rightarrow> V v)"

fun as_int :: "sql_value \<Rightarrow> int option" where "as_int (VInt n) = Some n" | "as_int _ = None"
fun as_nano :: "sql_value \<Rightarrow> 64 word option" where "as_nano (VNano n) = Some n" | "as_nano _ = None"
fun as_text :: "sql_value \<Rightarrow> string option" where "as_text (VText x) = Some x" | "as_text _ = None"
fun as_blob :: "sql_value \<Rightarrow> bytes option" where "as_blob (VBlob b) = Some b" | "as_blob _ = None"
fun as_tags :: "sql_value \<Rightarrow> string list json_text option" where
  "as_tags (VTags ts) = Some (JText ts)" | "as_tags _ = None"
fun as_dests :: "sql_value \<Rightarrow> destination list json_text option" where
  "as_dests (VDests ds) = Some (JText ds)" | "as_dests _ = None"

text \<open>\<^verbatim>\<open>SET col = v\<close>, for the columns the code assigns.\<close>

definition set_column :: "string \<Rightarrow> sql_value \<Rightarrow> url_row \<Rightarrow> url_row" where
  "set_column col v r =
     (if col = ''original_url'' then r\<lparr>u_original_url := opt_or (u_original_url r) (as_text v)\<rparr>
      else if col = ''expires_at'' then r\<lparr>u_expires_at := as_nano v\<rparr>
      else if col = ''tags'' then r\<lparr>u_tags := as_tags v\<rparr>
      else if col = ''max_clicks'' then r\<lparr>u_max_clicks := as_int v\<rparr>
      else if col = ''password_hash'' then r\<lparr>u_password_hash := as_blob v\<rparr>
      else if col = ''password_salt'' then r\<lparr>u_password_salt := as_blob v\<rparr>
      else if col = ''webhook_url'' then r\<lparr>u_webhook_url := as_text v\<rparr>
      else if col = ''webhook_secret'' then r\<lparr>u_webhook_secret := as_blob v\<rparr>
      else if col = ''api_key_id'' then r\<lparr>u_api_key_id := as_int v\<rparr>
      else if col = ''preview_title'' then r\<lparr>u_preview_title := as_text v\<rparr>
      else if col = ''preview_image'' then r\<lparr>u_preview_image := as_text v\<rparr>
      else if col = ''preview_description'' then r\<lparr>u_preview_description := as_text v\<rparr>
      else if col = ''preview_fetched_at'' then r\<lparr>u_preview_fetched_at := as_nano v\<rparr>
      else if col = ''destinations'' then r\<lparr>u_destinations := as_dests v\<rparr>
      else r)"

definition set_columns :: "(string \<times> sql_value) list \<Rightarrow> url_row \<Rightarrow> url_row" where
  "set_columns asg r = fold (\<lambda>(c, v). set_column c v) asg r"

text \<open>
  The assignments an update asks for, in the order of the source: the reference both backends'
  statement builders are compared with.
\<close>

definition asg_url :: "update_fields \<Rightarrow> (string \<times> sql_value) list" where
  "asg_url f = (case f_OriginalURL f of None \<Rightarrow> [] | Some u \<Rightarrow> [(''original_url'', VText u)])"

definition asg_expiry :: "update_fields \<Rightarrow> (string \<times> sql_value) list" where
  "asg_expiry f =
     (if f_ClearExpiration f then [(''expires_at'', VNull)]
      else case f_ExpiresAt f of None \<Rightarrow> [] | Some t \<Rightarrow> [(''expires_at'', VNano (UnixNano t))])"

definition asg_tags_cap :: "update_fields \<Rightarrow> (string \<times> sql_value) list" where
  "asg_tags_cap f =
     (case f_Tags f of None \<Rightarrow> [] | Some ts \<Rightarrow> [(''tags'', if ts = [] then VNull else VTags ts)])
     @ (case f_MaxClicks f of None \<Rightarrow> [] | Some n \<Rightarrow> [(''max_clicks'', any_of VInt (nullableInt n))])"

definition asg_password :: "update_fields \<Rightarrow> (string \<times> sql_value) list" where
  "asg_password f =
     (if f_ClearPassword f then [(''password_hash'', VNull), (''password_salt'', VNull)]
      else case f_PasswordHash f of None \<Rightarrow> []
        | Some h \<Rightarrow> [(''password_hash'', any_of VBlob (nullableBlob h)),
                     (''password_salt'', any_of VBlob (nullableBlob (f_PasswordSalt f)))])"

definition asg_webhook :: "update_fields \<Rightarrow> (string \<times> sql_value) list" where
  "asg_webhook f =
     (if f_ClearWebhook f then [(''webhook_url'', VNull), (''webhook_secret'', VNull)]
      else case f_WebhookURL f of None \<Rightarrow> []
        | Some u \<Rightarrow> [(''webhook_url'', any_of VText (nullableText u)),
                     (''webhook_secret'', any_of VBlob (nullableBlob (opt_or [] (f_WebhookSecret f))))])"

definition asg_apikey :: "update_fields \<Rightarrow> (string \<times> sql_value) list" where
  "asg_apikey f = (case f_APIKeyID f of None \<Rightarrow> [] | Some i \<Rightarrow> [(''api_key_id'', any_of VInt (nullableInt i))])"

definition asg_preview :: "time \<Rightarrow> update_fields \<Rightarrow> (string \<times> sql_value) list" where
  "asg_preview now f =
     (case f_PreviewTitle f of None \<Rightarrow> [] | Some x \<Rightarrow> [(''preview_title'', any_of VText (nullableText x))])
     @ (case f_PreviewImage f of None \<Rightarrow> [] | Some x \<Rightarrow> [(''preview_image'', any_of VText (nullableText x))])
     @ (case f_PreviewDescription f of None \<Rightarrow> []
          | Some x \<Rightarrow> [(''preview_description'', any_of VText (nullableText x))])
     @ (if f_SetPreviewFetched f then [(''preview_fetched_at'', VNano (UnixNano now))] else [])"

definition asg_destinations :: "update_fields \<Rightarrow> (string \<times> sql_value) list" where
  "asg_destinations f = (case f_Destinations f of None \<Rightarrow> []
     | Some ds \<Rightarrow> [(''destinations'', if ds = [] then VNull else VDests ds)])"

definition assignments :: "time \<Rightarrow> update_fields \<Rightarrow> (string \<times> sql_value) list" where
  "assignments now f = asg_url f @ asg_expiry f @ asg_tags_cap f @ asg_password f @ asg_webhook f
     @ asg_apikey f @ asg_preview now f @ asg_destinations f"

text \<open>
  How \<^verbatim>\<open>Update\<close> collects them. Both backends have the same sequence of tests; they differ in how
  one column (\<open>p1\<close>) and a pair of columns (\<open>p2\<close>) are added to the statement under construction.
\<close>

definition build_base :: "(string \<Rightarrow> sql_value \<Rightarrow> 'b \<Rightarrow> 'b) \<Rightarrow> update_fields \<Rightarrow> 'b \<Rightarrow> 'b" where
  "build_base p1 f b0 =
     (let b1 = (case f_OriginalURL f of None \<Rightarrow> b0 | Some u \<Rightarrow> p1 ''original_url'' (VText u) b0);
          b2 = (if f_ClearExpiration f then p1 ''expires_at'' VNull b1
                else case f_ExpiresAt f of None \<Rightarrow> b1 | Some t \<Rightarrow> p1 ''expires_at'' (VNano (UnixNano t)) b1);
          b3 = (case f_Tags f of None \<Rightarrow> b2
                | Some ts \<Rightarrow> p1 ''tags'' (if ts = [] then VNull else VTags ts) b2)
      in case f_MaxClicks f of None \<Rightarrow> b3 | Some n \<Rightarrow> p1 ''max_clicks'' (any_of VInt (nullableInt n)) b3)"

definition build_secrets :: "(string \<Rightarrow> string \<Rightarrow> sql_value \<Rightarrow> sql_value \<Rightarrow> 'b \<Rightarrow> 'b) \<Rightarrow> update_fields \<Rightarrow> 'b \<Rightarrow> 'b" where
  "build_secrets p2 f b0 =
     (let b1 = (if f_ClearPassword f then p2 ''password_hash'' ''password_salt'' VNull VNull b0
                else case f_PasswordHash f of None \<Rightarrow> b0
                | Some h \<Rightarrow> p2 ''password_hash'' ''password_salt'' (any_of VBlob (nullableBlob h))
                    (any_of VBlob (nullableBlob (f_PasswordSalt f))) b0)
      in if f_ClearWebhook f then p2 ''webhook_url'' ''webhook_secret'' VNull VNull b1
         else case f_WebhookURL f of None \<Rightarrow> b1
         | Some u \<Rightarrow> p2 ''webhook_url'' ''webhook_secret'' (any_of VText (nullableText u))
             (any_of VBlob (nullableBlob (opt_or [] (f_WebhookSecret f)))) b1)"

definition build_rest :: "(string \<Rightarrow> sql_value \<Rightarrow> 'b \<Rightarrow> 'b) \<Rightarrow> time \<Rightarrow> update_fields \<Rightarrow> 'b \<Rightarrow> 'b" where
  "build_rest p1 now f b0 =
     (let b1 = (case f_APIKeyID f of None \<Rightarrow> b0 | Some i \<Rightarrow> p1 ''api_key_id'' (any_of VInt (nullableInt i)) b0);
          b2 = (case f_PreviewTitle f of None \<Rightarrow> b1 | Some x \<Rightarrow> p1 ''preview_title'' (any_of VText (nullableText x)) b1);
          b3 = (case f_PreviewImage f of None \<Rightarrow> b2 | Some x \<Rightarrow> p1 ''preview_image'' (any_of VText (nullableText x)) b2);
          b4 = (case f_PreviewDescription f of None \<Rightarrow> b3
                | Some x \<Rightarrow> p1 ''preview_description'' (any_of VText (nullableText x)) b3);
          b5 = (if f_SetPreviewFetched f then p1 ''preview_fetched_at'' (VNano (UnixNano now)) b4 else b4)
      in case f_Destinations f of None \<Rightarrow> b5
         | Some ds \<Rightarrow> p1 ''destinations'' (if ds = [] then VNull else VDests ds) b5)"

definition build_update ::
  "(string \<Rightarrow> sql_value \<Rightarrow> 'b \<Rightarrow> 'b) \<Rightarrow> (string \<Rightarrow> string \<Rightarrow> sql_value \<Rightarrow> sql_value \<Rightarrow> 'b \<Rightarrow> 'b)
     \<Rightarrow> time \<Rightarrow> update_fields \<Rightarrow> 'b \<Rightarrow> 'b" where
  "build_update p1 p2 now f b = build_rest p1 now f (build_secrets p2 f (build_base p1 f b))"

text \<open>
  The contract of a builder: the assignments a statement makes when it is executed (\<open>asg\<close>) grow
  by the columns that are added. It makes the statement of an update the reference assignments.
\<close>

locale statement_builder =
  fixes p1 :: "string \<Rightarrow> sql_value \<Rightarrow> 'b \<Rightarrow> 'b"
    and p2 :: "string \<Rightarrow> string \<Rightarrow> sql_value \<Rightarrow> sql_value \<Rightarrow> 'b \<Rightarrow> 'b"
    and wf :: "'b \<Rightarrow> bool"
    and asg :: "'b \<Rightarrow> (string \<times> sql_value) list"
  assumes p1_wf: "wf b \<Longrightarrow> wf (p1 c v b)"
    and p1_asg: "wf b \<Longrightarrow> asg (p1 c v b) = asg b @ [(c, v)]"
    and p2_wf: "wf b \<Longrightarrow> wf (p2 c1 c2 v1 v2 b)"
    and p2_asg: "wf b \<Longrightarrow> asg (p2 c1 c2 v1 v2 b) = asg b @ [(c1, v1), (c2, v2)]"
begin

lemma build_base_asg: "wf b \<Longrightarrow> wf (build_base p1 f b)
    \<and> asg (build_base p1 f b) = asg b @ asg_url f @ asg_expiry f @ asg_tags_cap f"
  by (simp add: build_base_def asg_url_def asg_expiry_def asg_tags_cap_def p1_wf p1_asg Let_def split: option.split)

lemma build_secrets_asg: "wf b \<Longrightarrow> wf (build_secrets p2 f b)
    \<and> asg (build_secrets p2 f b) = asg b @ asg_password f @ asg_webhook f"
  by (simp add: build_secrets_def asg_password_def asg_webhook_def p2_wf p2_asg Let_def split: option.split)

lemma build_rest_asg: "wf b \<Longrightarrow> wf (build_rest p1 now f b)
    \<and> asg (build_rest p1 now f b) = asg b @ asg_apikey f @ asg_preview now f @ asg_destinations f"
  by (simp add: build_rest_def asg_apikey_def asg_preview_def asg_destinations_def p1_wf p1_asg Let_def split: option.split)

lemma build_assignments: "wf b \<Longrightarrow> wf (build_update p1 p2 now f b)
    \<and> asg (build_update p1 p2 now f b) = asg b @ assignments now f"
  using build_base_asg [of b f] build_secrets_asg [of "build_base p1 f b" f]
    build_rest_asg [of "build_secrets p2 f (build_base p1 f b)" now f]
  by (simp add: build_update_def assignments_def)

end

text \<open>One rule per column, so that a list of assignments is stepped through by rewriting.\<close>

lemma set_column_simps [simp]:
  "set_column ''original_url'' v r = r\<lparr>u_original_url := opt_or (u_original_url r) (as_text v)\<rparr>"
  "set_column ''expires_at'' v r = r\<lparr>u_expires_at := as_nano v\<rparr>"
  "set_column ''tags'' v r = r\<lparr>u_tags := as_tags v\<rparr>"
  "set_column ''max_clicks'' v r = r\<lparr>u_max_clicks := as_int v\<rparr>"
  "set_column ''password_hash'' v r = r\<lparr>u_password_hash := as_blob v\<rparr>"
  "set_column ''password_salt'' v r = r\<lparr>u_password_salt := as_blob v\<rparr>"
  "set_column ''webhook_url'' v r = r\<lparr>u_webhook_url := as_text v\<rparr>"
  "set_column ''webhook_secret'' v r = r\<lparr>u_webhook_secret := as_blob v\<rparr>"
  "set_column ''api_key_id'' v r = r\<lparr>u_api_key_id := as_int v\<rparr>"
  "set_column ''preview_title'' v r = r\<lparr>u_preview_title := as_text v\<rparr>"
  "set_column ''preview_image'' v r = r\<lparr>u_preview_image := as_text v\<rparr>"
  "set_column ''preview_description'' v r = r\<lparr>u_preview_description := as_text v\<rparr>"
  "set_column ''preview_fetched_at'' v r = r\<lparr>u_preview_fetched_at := as_nano v\<rparr>"
  "set_column ''destinations'' v r = r\<lparr>u_destinations := as_dests v\<rparr>"
  by (simp_all add: set_column_def)

lemma as_any_of [simp]:
  "as_int (any_of VInt i) = i" "as_text (any_of VText x) = x" "as_blob (any_of VBlob b) = b"
  by (simp_all add: any_of_def split: option.split)

lemma set_columns_simps [simp]:
  "set_columns [] r = r" "set_columns ((c, v) # asg) r = set_columns asg (set_column c v r)"
  "set_columns (asg1 @ asg2) r = set_columns asg2 (set_columns asg1 r)"
  by (simp_all add: set_columns_def)

text \<open>No assignment touches the key of the row, its counters or its owner.\<close>

lemma set_column_frame [simp]:
  "u_short_code (set_column c v r) = u_short_code r" "u_click_count (set_column c v r) = u_click_count r"
  "u_created_at (set_column c v r) = u_created_at r" "u_last_accessed (set_column c v r) = u_last_accessed r"
  "u_owner_token_hash (set_column c v r) = u_owner_token_hash r"
  by (simp_all add: set_column_def)

lemma set_columns_frame [simp]:
  "u_short_code (set_columns asg r) = u_short_code r" "u_click_count (set_columns asg r) = u_click_count r"
  "u_created_at (set_columns asg r) = u_created_at r" "u_last_accessed (set_columns asg r) = u_last_accessed r"
  "u_owner_token_hash (set_columns asg r) = u_owner_token_hash r"
  by (induction asg arbitrary: r) auto

text \<open>The row after an update, column by column.\<close>

lemma set_asg_url: "set_columns (asg_url f) r = r\<lparr>u_original_url := opt_or (u_original_url r) (f_OriginalURL f)\<rparr>"
  by (cases "f_OriginalURL f") (simp_all add: asg_url_def)

lemma set_asg_expiry: "set_columns (asg_expiry f) r = r\<lparr>u_expires_at :=
    if f_ClearExpiration f then None else if f_ExpiresAt f = None then u_expires_at r
    else map_option UnixNano (f_ExpiresAt f)\<rparr>"
  by (cases "f_ExpiresAt f") (simp_all add: asg_expiry_def)

lemma set_asg_tags_cap: "set_columns (asg_tags_cap f) r = r\<lparr>
    u_tags := opt_or (u_tags r) (map_option encodeTags (f_Tags f)),
    u_max_clicks := opt_or (u_max_clicks r) (map_option nullableInt (f_MaxClicks f))\<rparr>"
  by (cases "f_Tags f"; cases "f_MaxClicks f") (simp_all add: asg_tags_cap_def encodeTags_def)

lemma set_asg_password: "set_columns (asg_password f) r = r\<lparr>
    u_password_hash := (if f_ClearPassword f then None
      else opt_or (u_password_hash r) (map_option nullableBlob (f_PasswordHash f))),
    u_password_salt := (if f_ClearPassword f then None
      else opt_or (u_password_salt r) (map_option (\<lambda>_. nullableBlob (f_PasswordSalt f)) (f_PasswordHash f)))\<rparr>"
  by (cases "f_PasswordHash f") (simp_all add: asg_password_def)

lemma set_asg_webhook: "set_columns (asg_webhook f) r = r\<lparr>
    u_webhook_url := (if f_ClearWebhook f then None
      else opt_or (u_webhook_url r) (map_option nullableText (f_WebhookURL f))),
    u_webhook_secret := (if f_ClearWebhook f then None else if f_WebhookURL f = None then u_webhook_secret r
      else nullableBlob (opt_or [] (f_WebhookSecret f)))\<rparr>"
  by (cases "f_WebhookURL f") (simp_all add: asg_webhook_def)

lemma set_asg_apikey: "set_columns (asg_apikey f) r =
    r\<lparr>u_api_key_id := opt_or (u_api_key_id r) (map_option nullableInt (f_APIKeyID f))\<rparr>"
  by (cases "f_APIKeyID f") (simp_all add: asg_apikey_def)

lemma set_asg_preview: "set_columns (asg_preview now f) r = r\<lparr>
    u_preview_title := opt_or (u_preview_title r) (map_option nullableText (f_PreviewTitle f)),
    u_preview_image := opt_or (u_preview_image r) (map_option nullableText (f_PreviewImage f)),
    u_preview_description := opt_or (u_preview_description r) (map_option nullableText (f_PreviewDescription f)),
    u_preview_fetched_at := (if f_SetPreviewFetched f then Some (UnixNano now) else u_preview_fetched_at r)\<rparr>"
  by (cases "f_PreviewTitle f"; cases "f_PreviewImage f"; cases "f_PreviewDescription f")
    (simp_all add: asg_preview_def)

lemma set_asg_destinations: "set_columns (asg_destinations f) r =
    r\<lparr>u_destinations := opt_or (u_destinations r) (map_option encodeDestinations (f_Destinations f))\<rparr>"
  by (cases "f_Destinations f") (simp_all add: asg_destinations_def encodeDestinations_def)

lemmas set_asgs = set_asg_url set_asg_expiry set_asg_tags_cap set_asg_password set_asg_webhook
  set_asg_apikey set_asg_preview set_asg_destinations

lemma set_assignments:
  "u_original_url (set_columns (assignments now f) r) = opt_or (u_original_url r) (f_OriginalURL f)"
  "u_expires_at (set_columns (assignments now f) r) = (if f_ClearExpiration f then None
     else if f_ExpiresAt f = None then u_expires_at r else map_option UnixNano (f_ExpiresAt f))"
  "u_tags (set_columns (assignments now f) r) = opt_or (u_tags r) (map_option encodeTags (f_Tags f))"
  "u_max_clicks (set_columns (assignments now f) r) = opt_or (u_max_clicks r) (map_option nullableInt (f_MaxClicks f))"
  "u_password_hash (set_columns (assignments now f) r) = (if f_ClearPassword f then None
     else opt_or (u_password_hash r) (map_option nullableBlob (f_PasswordHash f)))"
  "u_password_salt (set_columns (assignments now f) r) = (if f_ClearPassword f then None
     else opt_or (u_password_salt r) (map_option (\<lambda>_. nullableBlob (f_PasswordSalt f)) (f_PasswordHash f)))"
  "u_webhook_url (set_columns (assignments now f) r) = (if f_ClearWebhook f then None
     else opt_or (u_webhook_url r) (map_option nullableText (f_WebhookURL f)))"
  "u_webhook_secret (set_columns (assignments now f) r) = (if f_ClearWebhook f then None
     else if f_WebhookURL f = None then u_webhook_secret r else nullableBlob (opt_or [] (f_WebhookSecret f)))"
  "u_api_key_id (set_columns (assignments now f) r) = opt_or (u_api_key_id r) (map_option nullableInt (f_APIKeyID f))"
  "u_preview_title (set_columns (assignments now f) r) = opt_or (u_preview_title r) (map_option nullableText (f_PreviewTitle f))"
  "u_preview_image (set_columns (assignments now f) r) = opt_or (u_preview_image r) (map_option nullableText (f_PreviewImage f))"
  "u_preview_description (set_columns (assignments now f) r)
     = opt_or (u_preview_description r) (map_option nullableText (f_PreviewDescription f))"
  "u_preview_fetched_at (set_columns (assignments now f) r)
     = (if f_SetPreviewFetched f then Some (UnixNano now) else u_preview_fetched_at r)"
  "u_destinations (set_columns (assignments now f) r)
     = opt_or (u_destinations r) (map_option encodeDestinations (f_Destinations f))"
  by (simp_all add: assignments_def set_asgs)

text \<open>
  The refinement of \<^verbatim>\<open>Update\<close>: reading back the updated row is updating the mapping that was
  read, for a payload that pairs the webhook's URL with its secret.
\<close>

lemma read_overwritten:
  "decode_json (opt_or a (map_option encodeTags x)) = opt_or (decode_json a) x"
  "decode_json (opt_or b (map_option encodeDestinations y)) = opt_or (decode_json b) y"
  "opt_or 0 (opt_or c (map_option nullableInt z)) = opt_or (opt_or 0 c) z"
  "opt_or [] (opt_or d (map_option nullableBlob w)) = opt_or (opt_or [] d) w"
  "opt_or [] (opt_or d (map_option (\<lambda>_. nullableBlob s) w)) = opt_or (opt_or [] d) (map_option (\<lambda>_. s) w)"
  "opt_or [] (opt_or e (map_option nullableText v)) = opt_or (opt_or [] e) v"
  by ((cases x; simp), (cases y; simp), (cases z; simp), (cases w; simp), (cases w; simp), (cases v; simp))

lemma stored_overwritten:
  "map_option from_unix (if b then None else if x = None then a else map_option UnixNano x) =
   map_option stored_time (if b then None else if x = None then map_option from_unix a else x)"
  "map_option from_unix (if c then Some (UnixNano t) else a) =
   map_option stored_time (if c then Some t else map_option from_unix a)"
  "map_option stored_time (map_option from_unix a) = map_option from_unix a"
  by (simp_all add: option.map_comp comp_def)

text \<open>
  The refinement of \<^verbatim>\<open>Update\<close>: reading back the updated row is updating the mapping that was
  read, for a payload that pairs the webhook's URL with its secret.
\<close>

lemma scan_set_assignments:
  assumes "paired f"
  shows "scan_url (set_columns (assignments now f) r) = norm_mapping stored_time (apply_update now f (scan_url r))"
proof (rule mapping_eqI)
  let ?r = "set_columns (assignments now f) r"
  show "m_WebhookSecret (scan_url ?r) = m_WebhookSecret (norm_mapping stored_time (apply_update now f (scan_url r)))"
    using assms by (cases "f_WebhookSecret f")
      (auto simp: assignments_def set_asgs scan_url_def norm_mapping_def apply_update_webhook paired_def)
qed (simp_all add: scan_url_def norm_mapping_def apply_update_fields apply_update_webhook(1)
      apply_update_preview set_assignments read_overwritten option.map_comp comp_def)

end
