(* ===== verification/Sqlite.thy ===== *)
theory Sqlite
  imports Sql
begin

text \<open>
  The SQLite backend: the methods of \<^verbatim>\<open>SQLiteStore\<close> in \<^verbatim>\<open>services/storage_sqlite.go\<close>,
  \<^verbatim>\<open>services/storage_sqlite_apikey.go\<close> and \<^verbatim>\<open>services/storage_audit.go\<close>, as functions on the
  tables of \<^verbatim>\<open>Sql\<close>. Every method takes the driver's faults: the statements of a method are
  numbered from 0 in the order they are sent, \<^verbatim>\<open>Begin\<close> and \<^verbatim>\<open>Commit\<close> included, and a method
  that returns early in a transaction leaves the state as it was (the deferred \<^verbatim>\<open>Rollback\<close>).
  \<^verbatim>\<open>RowsAffected\<close> and \<^verbatim>\<open>LastInsertId\<close> never fail in this driver; an error while rows are
  scanned is an error of their query. An \<^verbatim>\<open>ORDER BY\<close> leaves ties in row order.
\<close>

section \<open>Mappings\<close>

definition sq_Set :: "faults \<Rightarrow> string \<Rightarrow> url_mapping \<Rightarrow> sql_store \<Rightarrow> sql_store \<times> store_err option" where
  "sq_Set fl code m s =
     (case fl 0 of
        Some e \<Rightarrow> (s, Some (ErrBackend e))
      | None \<Rightarrow>
          (let (rows, n) = insert_or_ignore u_short_code (url_row_of code m) (db_urls s)
           in if n = 0 then (s, Some ErrCodeConflict) else (s\<lparr>db_urls := rows\<rparr>, None)))"

definition sq_Get :: "faults \<Rightarrow> time \<Rightarrow> string \<Rightarrow> sql_store \<Rightarrow> store_err + url_mapping" where
  "sq_Get fl now code s =
     (case fl 0 of
        Some e \<Rightarrow> Inl (ErrBackend e)
      | None \<Rightarrow>
          (case select_one u_short_code code (db_urls s) of
             None \<Rightarrow> Inl ErrNotFound
           | Some r \<Rightarrow> (let m = scan_url r in if expired_at now m then Inl ErrExpired else Inr m)))"

definition sq_Delete :: "faults \<Rightarrow> string \<Rightarrow> sql_store \<Rightarrow> sql_store \<times> store_err option" where
  "sq_Delete fl code s =
     (case fl 0 of
        Some e \<Rightarrow> (s, Some (ErrBackend e))
      | None \<Rightarrow>
          (let (s1, n) = delete_urls (\<lambda>r. u_short_code r = code) s
           in if n = 0 then (s1, Some ErrNotFound) else (s1, None)))"

text \<open>Any error of the query, a failing database included, is \<^verbatim>\<open>false\<close>. \<open>i\<close> is its statement number.\<close>

definition sq_Exists_at :: "faults \<Rightarrow> nat \<Rightarrow> string \<Rightarrow> sql_store \<Rightarrow> bool" where
  "sq_Exists_at fl i code s = (fl i = None \<and> select_one u_short_code code (db_urls s) \<noteq> None)"

definition sq_Exists :: "faults \<Rightarrow> string \<Rightarrow> sql_store \<Rightarrow> bool" where
  "sq_Exists fl code s = sq_Exists_at fl 0 code s"

definition sq_RotateToken :: "faults \<Rightarrow> string \<Rightarrow> bytes \<Rightarrow> sql_store \<Rightarrow> sql_store \<times> store_err option" where
  "sq_RotateToken fl code newHash s =
     (case fl 0 of
        Some e \<Rightarrow> (s, Some (ErrBackend e))
      | None \<Rightarrow>
          (let (rows, n) = update_where (\<lambda>r. u_short_code r = code) (\<lambda>r. r\<lparr>u_owner_token_hash := newHash\<rparr>) (db_urls s)
           in if n = 0 then (s\<lparr>db_urls := rows\<rparr>, Some ErrNotFound) else (s\<lparr>db_urls := rows\<rparr>, None)))"

subsection \<open>The statement of Update\<close>

text \<open>The two slices \<^verbatim>\<open>sets\<close> and \<^verbatim>\<open>args\<close>, grown in step.\<close>

type_synonym sq_builder = "string list \<times> sql_value list"

definition put1 :: "string \<Rightarrow> sql_value \<Rightarrow> sq_builder \<Rightarrow> sq_builder" where
  "put1 c v b = (fst b @ [c], snd b @ [v])"

definition put2 :: "string \<Rightarrow> string \<Rightarrow> sql_value \<Rightarrow> sql_value \<Rightarrow> sq_builder \<Rightarrow> sq_builder" where
  "put2 c1 c2 v1 v2 b = (fst b @ [c1, c2], snd b @ [v1, v2])"

definition sq_build :: "time \<Rightarrow> update_fields \<Rightarrow> sq_builder" where
  "sq_build now f = build_update put1 put2 now f ([], [])"

interpretation sq_stmt: statement_builder put1 put2 "\<lambda>b. length (fst b) = length (snd b)" "\<lambda>b. zip (fst b) (snd b)"
  by unfold_locales (simp_all add: put1_def put2_def)

text \<open>Executing it: the \<open>i\<close>-th \<^verbatim>\<open>?\<close> takes the \<open>i\<close>-th argument; the last one is the code.\<close>

definition sq_exec_update :: "string list \<Rightarrow> sql_value list \<Rightarrow> url_row list \<Rightarrow> url_row list \<times> nat" where
  "sq_exec_update cols args rows =
     update_where (\<lambda>r. VText (u_short_code r) = args ! length cols) (set_columns (zip cols args)) rows"

definition sq_Update :: "faults \<Rightarrow> time \<Rightarrow> string \<Rightarrow> update_fields \<Rightarrow> sql_store \<Rightarrow> sql_store \<times> store_err option" where
  "sq_Update fl now code f s =
     (let (cols, args) = sq_build now f
      in if cols = [] then (s, if sq_Exists_at fl 0 code s then None else Some ErrNotFound)
         else case fl 0 of
           Some e \<Rightarrow> (s, Some (ErrBackend e))
         | None \<Rightarrow>
             (let (rows, n) = sq_exec_update cols (args @ [VText code]) (db_urls s)
              in if n = 0 then (s\<lparr>db_urls := rows\<rparr>, Some ErrNotFound) else (s\<lparr>db_urls := rows\<rparr>, None)))"

section \<open>Clicks\<close>

text \<open>
  The transaction: \<^verbatim>\<open>Begin\<close>, \<^verbatim>\<open>UPDATE\<close>, \<^verbatim>\<open>INSERT\<close>, \<^verbatim>\<open>Commit\<close>. The foreign key of the
  inserted event is satisfied, since the \<^verbatim>\<open>UPDATE\<close> found the row.
\<close>

definition sq_RecordClick :: "faults \<Rightarrow> string \<Rightarrow> click_event \<Rightarrow> sql_store \<Rightarrow> sql_store \<times> store_err option" where
  "sq_RecordClick fl code ev s =
     (case fl 0 of
        Some e \<Rightarrow> (s, Some (ErrBackend e))
      | None \<Rightarrow> case fl 1 of
        Some e \<Rightarrow> (s, Some (ErrBackend e))
      | None \<Rightarrow>
          (let (rows, n) = update_where (\<lambda>r. u_short_code r = code)
             (\<lambda>r. r\<lparr>u_click_count := u_click_count r + 1, u_last_accessed := Some (UnixNano (ev_At ev))\<rparr>) (db_urls s)
           in if n = 0 then (s, Some ErrNotFound)
              else case fl 2 of
                Some e \<Rightarrow> (s, Some (ErrBackend e))
              | None \<Rightarrow> case fl 3 of
                Some e \<Rightarrow> (s, Some (ErrBackend e))
              | None \<Rightarrow> (s\<lparr>db_urls := rows, db_click_seq := db_click_seq s + 1,
                    db_clicks := db_clicks s @ [click_row_of (db_click_seq s + 1) code ev]\<rparr>, None)))"

definition sq_RecentClicks :: "faults \<Rightarrow> string \<Rightarrow> int \<Rightarrow> sql_store \<Rightarrow> store_err + click_event list" where
  "sq_RecentClicks fl code limit s =
     (if \<not> sq_Exists_at fl 0 code s then Inl ErrNotFound
      else case fl 1 of
        Some e \<Rightarrow> Inl (ErrBackend e)
      | None \<Rightarrow>
          (let l1 = (if limit \<le> 0 then 50 else limit)
           in Inr (map scan_click (take (nat l1) (sort_key (\<lambda>r. - from_unix (ce_clicked_at r))
                (filter (\<lambda>r. ce_short_code r = code) (db_clicks s)))))))"

text \<open>
  The rows of the query are one count per bucket index that occurs (\<^verbatim>\<open>GROUP BY\<close>). The
  \<^verbatim>\<open>WHERE\<close> clause makes the dividend non-negative, so SQL's truncating division is \<open>div\<close>.
\<close>

definition sq_bucket_rows :: "64 word \<Rightarrow> 64 word \<Rightarrow> duration \<Rightarrow> string \<Rightarrow> click_row list \<Rightarrow> (int \<times> int) list" where
  "sq_bucket_rows ws un bucket code rows =
     (let idxs = map (\<lambda>r. (from_unix (ce_clicked_at r) - from_unix ws) div bucket)
            (filter (\<lambda>r. ce_short_code r = code \<and> from_unix ws \<le> from_unix (ce_clicked_at r)
               \<and> from_unix (ce_clicked_at r) < from_unix un) rows)
      in map (\<lambda>i. (i, int (count_list idxs i))) (remdups idxs))"

definition sq_ClicksByBucket ::
  "faults \<Rightarrow> string \<Rightarrow> time \<Rightarrow> duration \<Rightarrow> int \<Rightarrow> sql_store \<Rightarrow> store_err + int list" where
  "sq_ClicksByBucket fl code until bucket count s =
     (if count \<le> 0 \<or> bucket \<le> 0 then Inr []
      else if \<not> sq_Exists_at fl 0 code s then Inl ErrNotFound
      else case fl 1 of
        Some e \<Rightarrow> Inl (ErrBackend e)
      | None \<Rightarrow>
          (let windowStart = until + wrap64 (- count * bucket)
           in Inr (fold (\<lambda>(idx, n) out. if 0 \<le> idx \<and> idx < count then out[nat idx := n] else out)
                (sq_bucket_rows (UnixNano windowStart) (UnixNano until) bucket code (db_clicks s))
                (replicate (nat count) 0))))"

section \<open>API keys\<close>

text \<open>The driver's text for a violated \<^verbatim>\<open>UNIQUE\<close> column.\<close>

definition unique_failed :: string where
  "unique_failed = ''constraint failed: UNIQUE constraint failed: api_keys.token_hash (2067)''"

definition sq_CreateAPIKey ::
  "faults \<Rightarrow> time \<Rightarrow> string \<Rightarrow> bytes \<Rightarrow> sql_store \<Rightarrow> sql_store \<times> (store_err + api_key)" where
  "sq_CreateAPIKey fl now label tokenHash s =
     (case fl 0 of
        Some e \<Rightarrow> (s, Inl (ErrBackend e))
      | None \<Rightarrow>
          if select_one ak_token_hash tokenHash (db_keys s) \<noteq> None then (s, Inl (ErrBackend unique_failed))
          else (let i = db_key_seq s + 1;
                    row = \<lparr>ak_id = i, ak_token_hash = tokenHash, ak_label = nullableText label,
                           ak_created_at = UnixNano now, ak_last_used_at = None\<rparr>
                in (s\<lparr>db_key_seq := i, db_keys := db_keys s @ [row]\<rparr>,
                    Inr \<lparr>k_ID = i, k_TokenHash = tokenHash, k_Label = label, k_CreatedAt = now,
                         k_LastUsedAt = None\<rparr>)))"

text \<open>The write of \<^verbatim>\<open>last_used_at\<close> is best effort: its error is logged and dropped.\<close>

definition sq_LookupAPIKey :: "faults \<Rightarrow> time \<Rightarrow> bytes \<Rightarrow> sql_store \<Rightarrow> sql_store \<times> (store_err + api_key)" where
  "sq_LookupAPIKey fl now tokenHash s =
     (case fl 0 of
        Some e \<Rightarrow> (s, Inl (ErrBackend e))
      | None \<Rightarrow>
          (case select_one ak_token_hash tokenHash (db_keys s) of
             None \<Rightarrow> (s, Inl ErrNotFound)
           | Some r \<Rightarrow>
               (let s1 = (case fl 1 of Some e \<Rightarrow> s
                     | None \<Rightarrow> s\<lparr>db_keys := fst (update_where (\<lambda>q. ak_id q = ak_id r)
                          (\<lambda>q. q\<lparr>ak_last_used_at := Some (UnixNano now)\<rparr>) (db_keys s))\<rparr>)
                in (s1, Inr \<lparr>k_ID = ak_id r, k_TokenHash = tokenHash, k_Label = opt_or [] (ak_label r),
                     k_CreatedAt = from_unix (ak_created_at r), k_LastUsedAt = Some now\<rparr>))))"

definition sq_GetAPIKey :: "faults \<Rightarrow> int \<Rightarrow> sql_store \<Rightarrow> store_err + api_key" where
  "sq_GetAPIKey fl i s =
     (case fl 0 of
        Some e \<Rightarrow> Inl (ErrBackend e)
      | None \<Rightarrow> (case select_one ak_id i (db_keys s) of None \<Rightarrow> Inl ErrNotFound | Some r \<Rightarrow> Inr (scan_key r)))"

text \<open>The transaction: \<^verbatim>\<open>Begin\<close>, \<^verbatim>\<open>UPDATE urls\<close>, \<^verbatim>\<open>DELETE\<close>, \<^verbatim>\<open>Commit\<close>.\<close>

definition sq_DeleteAPIKey :: "faults \<Rightarrow> int \<Rightarrow> sql_store \<Rightarrow> sql_store \<times> store_err option" where
  "sq_DeleteAPIKey fl i s =
     (case fl 0 of
        Some e \<Rightarrow> (s, Some (ErrBackend e))
      | None \<Rightarrow> case fl 1 of
        Some e \<Rightarrow> (s, Some (ErrBackend e))
      | None \<Rightarrow>
          (let urls = fst (update_where (\<lambda>r. u_api_key_id r = Some i) (\<lambda>r. r\<lparr>u_api_key_id := None\<rparr>) (db_urls s))
           in case fl 2 of
             Some e \<Rightarrow> (s, Some (ErrBackend e))
           | None \<Rightarrow>
               (let (keys, n) = delete_where (\<lambda>r. ak_id r = i) (db_keys s)
                in if n = 0 then (s, Some ErrNotFound)
                   else case fl 3 of
                     Some e \<Rightarrow> (s, Some (ErrBackend e))
                   | None \<Rightarrow> (s\<lparr>db_urls := urls, db_keys := keys\<rparr>, None))))"

definition sq_UpdateAPIKeyLabel :: "faults \<Rightarrow> int \<Rightarrow> string \<Rightarrow> sql_store \<Rightarrow> sql_store \<times> store_err option" where
  "sq_UpdateAPIKeyLabel fl i label s =
     (case fl 0 of
        Some e \<Rightarrow> (s, Some (ErrBackend e))
      | None \<Rightarrow>
          (let (rows, n) = update_where (\<lambda>r. ak_id r = i) (\<lambda>r. r\<lparr>ak_label := nullableText label\<rparr>) (db_keys s)
           in if n = 0 then (s\<lparr>db_keys := rows\<rparr>, Some ErrNotFound) else (s\<lparr>db_keys := rows\<rparr>, None)))"

definition sq_ListURLsByAPIKey ::
  "faults \<Rightarrow> int \<Rightarrow> int \<Rightarrow> int \<Rightarrow> sql_store \<Rightarrow> store_err + url_mapping list" where
  "sq_ListURLsByAPIKey fl i limit offset s =
     (let l1 = (if limit \<le> 0 then 50 else limit);
          o1 = (if offset < 0 then 0 else offset)
      in case fl 0 of
        Some e \<Rightarrow> Inl (ErrBackend e)
      | None \<Rightarrow> Inr (map (scan_listing i) (take (nat l1) (drop (nat o1)
          (sort_key (\<lambda>r. - from_unix (u_created_at r)) (filter (\<lambda>r. u_api_key_id r = Some i) (db_urls s)))))))"

section \<open>Audit log\<close>

definition sq_LogAudit :: "faults \<Rightarrow> time \<Rightarrow> audit_event \<Rightarrow> sql_store \<Rightarrow> sql_store \<times> store_err option" where
  "sq_LogAudit fl now ev s =
     (let at = (case a_At ev of None \<Rightarrow> now | Some t \<Rightarrow> t)
      in case fl 0 of
        Some e \<Rightarrow> (s, Some (ErrBackend e))
      | None \<Rightarrow> (s\<lparr>db_audit_seq := db_audit_seq s + 1,
            db_audit := db_audit s @ [audit_row_of (db_audit_seq s + 1) at ev]\<rparr>, None))"

text \<open>\<^verbatim>\<open>ORDER BY at DESC, id DESC\<close>: a stable sort by the second key, then by the first.\<close>

definition audit_order :: "audit_row list \<Rightarrow> audit_row list" where
  "audit_order rows = sort_key (\<lambda>r. - from_unix (ae_at r)) (sort_key (\<lambda>r. - ae_id r) rows)"

definition sq_RecentAuditEvents :: "faults \<Rightarrow> int \<Rightarrow> int \<Rightarrow> sql_store \<Rightarrow> store_err + audit_event list" where
  "sq_RecentAuditEvents fl limit offset s =
     (let l1 = (if limit \<le> 0 then 50 else limit);
          o1 = (if offset < 0 then 0 else offset)
      in case fl 0 of
        Some e \<Rightarrow> Inl (ErrBackend e)
      | None \<Rightarrow> Inr (map scan_audit (take (nat l1) (drop (nat o1) (audit_order (db_audit s))))))"

section \<open>Cleanup\<close>

definition sq_SetClickRetention :: "duration \<Rightarrow> sql_store \<Rightarrow> sql_store" where
  "sq_SetClickRetention d s = s\<lparr>clickRetention := d\<rparr>"

text \<open>One tick of the cleanup goroutine: each statement's error is logged and dropped.\<close>

definition sq_cleanup :: "faults \<Rightarrow> time \<Rightarrow> sql_store \<Rightarrow> sql_store" where
  "sq_cleanup fl now s =
     (let s1 = (case fl 0 of Some e \<Rightarrow> s
            | None \<Rightarrow> fst (delete_urls (\<lambda>r. case u_expires_at r of None \<Rightarrow> False
                | Some x \<Rightarrow> from_unix x < stored_time now) s))
      in if clickRetention s1 > 0 then
           (let cutoff = UnixNano (now - clickRetention s1)
            in case fl 1 of Some e \<Rightarrow> s1
               | None \<Rightarrow> s1\<lparr>db_clicks := fst (delete_where
                     (\<lambda>r. from_unix (ce_clicked_at r) < from_unix cutoff) (db_clicks s1))\<rparr>)
         else s1)"

text \<open>
  The goroutine of \<^verbatim>\<open>StartCleanupRoutine\<close>, and whether it has returned: unlike in memory, a tick that
  comes with the context cancelled makes no pass. \<open>fl i\<close> are the faults of the i-th pass.
\<close>

fun sq_cleanup_routine :: "(nat \<Rightarrow> faults) \<Rightarrow> nat \<Rightarrow> wake list \<Rightarrow> sql_store \<Rightarrow> sql_store \<times> bool" where
  "sq_cleanup_routine fl i [] s = (s, False)"
| "sq_cleanup_routine fl i (Cancelled # ws) s = (s, True)"
| "sq_cleanup_routine fl i (Ticked now c # ws) s =
     (if c then (s, True) else sq_cleanup_routine fl (Suc i) ws (sq_cleanup (fl i) now s))"

text \<open>\<^verbatim>\<open>Close\<close> waits for the goroutine: \<open>None\<close> is a call that does not return.\<close>

definition sq_Close :: "bool \<Rightarrow> 'e option \<Rightarrow> 'e option option" where
  "sq_Close returned closeErr = (if returned then Some closeErr else None)"

text \<open>Once the context is cancelled the goroutine makes no statement, and \<^verbatim>\<open>Close\<close> returns at its next wake-up.\<close>

lemma sq_cleanup_cancelled:
  assumes "w = Cancelled \<or> (\<exists>t. w = Ticked t True)"
  shows "fst (sq_cleanup_routine fl i (ws @ w # ws') s) = fst (sq_cleanup_routine fl i ws s)"
    and "sq_Close (snd (sq_cleanup_routine fl i (ws @ w # ws') s)) e = Some e"
proof -
  have "fst (sq_cleanup_routine fl i (ws @ w # ws') s) = fst (sq_cleanup_routine fl i ws s)
      \<and> snd (sq_cleanup_routine fl i (ws @ w # ws') s)"
    using assms by (induction fl i ws s rule: sq_cleanup_routine.induct) auto
  then show "fst (sq_cleanup_routine fl i (ws @ w # ws') s) = fst (sq_cleanup_routine fl i ws s)"
    and "sq_Close (snd (sq_cleanup_routine fl i (ws @ w # ws') s)) e = Some e" by (simp_all add: sq_Close_def)
qed

text \<open>Without a cancelled context \<^verbatim>\<open>Close\<close> does not return.\<close>

lemma sq_close_blocks: "list_all (\<lambda>w. \<exists>t. w = Ticked t False) ws \<Longrightarrow> sq_Close (snd (sq_cleanup_routine fl i ws s)) e = None"
  by (induction fl i ws s rule: sq_cleanup_routine.induct) (auto simp: sq_Close_def)

section \<open>The method table\<close>

definition NewSQLiteStore :: sql_store where
  "NewSQLiteStore = \<lparr>db_urls = [], db_clicks = [], db_keys = [], db_audit = [], db_click_seq = 0,
     db_key_seq = 0, db_audit_seq = 0, clickRetention = 0\<rparr>"

definition sq_ops :: "faults \<Rightarrow> sql_store store_ops" where
  "sq_ops fl = \<lparr>st_Set = sq_Set fl, st_Get = sq_Get fl, st_Delete = sq_Delete fl, st_Exists = sq_Exists fl,
     st_RecordClick = sq_RecordClick fl, st_RecentClicks = sq_RecentClicks fl, st_Update = sq_Update fl,
     st_ClicksByBucket = sq_ClicksByBucket fl, st_RotateToken = sq_RotateToken fl,
     st_CreateAPIKey = sq_CreateAPIKey fl, st_LookupAPIKey = sq_LookupAPIKey fl, st_GetAPIKey = sq_GetAPIKey fl,
     st_DeleteAPIKey = sq_DeleteAPIKey fl, st_UpdateAPIKeyLabel = sq_UpdateAPIKeyLabel fl,
     st_ListURLsByAPIKey = sq_ListURLsByAPIKey fl, st_LogAudit = sq_LogAudit fl,
     st_RecentAuditEvents = sq_RecentAuditEvents fl\<rparr>"

lemma sq_ops_sel [simp]:
  "st_Set (sq_ops fl) = sq_Set fl" "st_Get (sq_ops fl) = sq_Get fl" "st_Delete (sq_ops fl) = sq_Delete fl"
  "st_Exists (sq_ops fl) = sq_Exists fl" "st_RecordClick (sq_ops fl) = sq_RecordClick fl"
  "st_RecentClicks (sq_ops fl) = sq_RecentClicks fl" "st_Update (sq_ops fl) = sq_Update fl"
  "st_ClicksByBucket (sq_ops fl) = sq_ClicksByBucket fl" "st_RotateToken (sq_ops fl) = sq_RotateToken fl"
  "st_CreateAPIKey (sq_ops fl) = sq_CreateAPIKey fl" "st_LookupAPIKey (sq_ops fl) = sq_LookupAPIKey fl"
  "st_GetAPIKey (sq_ops fl) = sq_GetAPIKey fl" "st_DeleteAPIKey (sq_ops fl) = sq_DeleteAPIKey fl"
  "st_UpdateAPIKeyLabel (sq_ops fl) = sq_UpdateAPIKeyLabel fl"
  "st_ListURLsByAPIKey (sq_ops fl) = sq_ListURLsByAPIKey fl" "st_LogAudit (sq_ops fl) = sq_LogAudit fl"
  "st_RecentAuditEvents (sq_ops fl) = sq_RecentAuditEvents fl"
  by (simp_all add: sq_ops_def)

end
