(* ===== verification/Sqlite_Store.thy ===== *)
theory Sqlite_Store
  imports Sqlite
begin

text \<open>
  The SQLite backend meets the contract of the \<^verbatim>\<open>Store\<close> interface when no statement fails:
  the invariant of the tables (primary keys, the foreign key of the click events, the row-ID
  sequences), its preservation by every method, and the interpretation of \<open>serial_store\<close>.
\<close>

section \<open>The invariant of the tables\<close>

definition urls_ok :: "sql_store \<Rightarrow> bool" where
  "urls_ok s = distinct (map u_short_code (db_urls s))"

definition clicks_ok :: "sql_store \<Rightarrow> bool" where
  "clicks_ok s = ((\<forall>r \<in> set (db_clicks s). ce_short_code r \<in> u_short_code ` set (db_urls s) \<and> ce_id r \<le> db_click_seq s)
     \<and> sorted_wrt (<) (map ce_id (db_clicks s)))"

definition keys_ok :: "sql_store \<Rightarrow> bool" where
  "keys_ok s = (distinct (map ak_token_hash (db_keys s)) \<and> distinct (map ak_id (db_keys s))
     \<and> (\<forall>r \<in> set (db_keys s). 0 < ak_id r \<and> ak_id r \<le> db_key_seq s) \<and> 0 \<le> db_key_seq s)"

definition audit_ok :: "sql_store \<Rightarrow> bool" where
  "audit_ok s = ((\<forall>r \<in> set (db_audit s). ae_id r \<le> db_audit_seq s) \<and> sorted_wrt (<) (map ae_id (db_audit s)))"

definition sql_inv :: "sql_store \<Rightarrow> bool" where
  "sql_inv s = (urls_ok s \<and> clicks_ok s \<and> keys_ok s \<and> audit_ok s)"

definition sql_view :: "sql_store \<Rightarrow> string \<Rightarrow> url_mapping option" where
  "sql_view s c = map_option scan_url (select_one u_short_code c (db_urls s))"

definition sql_owner :: "sql_store \<Rightarrow> bytes \<Rightarrow> int option" where
  "sql_owner s h = map_option ak_id (select_one ak_token_hash h (db_keys s))"

lemma sql_inv_new: "sql_inv NewSQLiteStore"
  by (simp add: sql_inv_def urls_ok_def clicks_ok_def keys_ok_def audit_ok_def NewSQLiteStore_def)

text \<open>Each part of the invariant reads its own tables.\<close>

lemma sql_frames [simp]:
  "urls_ok (s\<lparr>db_clicks := c\<rparr>) = urls_ok s" "urls_ok (s\<lparr>db_click_seq := n\<rparr>) = urls_ok s"
  "urls_ok (s\<lparr>db_keys := k\<rparr>) = urls_ok s" "urls_ok (s\<lparr>db_key_seq := n\<rparr>) = urls_ok s"
  "urls_ok (s\<lparr>db_audit := a\<rparr>) = urls_ok s" "urls_ok (s\<lparr>db_audit_seq := n\<rparr>) = urls_ok s"
  "clicks_ok (s\<lparr>db_keys := k\<rparr>) = clicks_ok s" "clicks_ok (s\<lparr>db_key_seq := n\<rparr>) = clicks_ok s"
  "clicks_ok (s\<lparr>db_audit := a\<rparr>) = clicks_ok s" "clicks_ok (s\<lparr>db_audit_seq := n\<rparr>) = clicks_ok s"
  "keys_ok (s\<lparr>db_urls := u\<rparr>) = keys_ok s" "keys_ok (s\<lparr>db_clicks := c\<rparr>) = keys_ok s"
  "keys_ok (s\<lparr>db_click_seq := n\<rparr>) = keys_ok s" "keys_ok (s\<lparr>db_audit := a\<rparr>) = keys_ok s"
  "keys_ok (s\<lparr>db_audit_seq := n\<rparr>) = keys_ok s"
  "audit_ok (s\<lparr>db_urls := u\<rparr>) = audit_ok s" "audit_ok (s\<lparr>db_clicks := c\<rparr>) = audit_ok s"
  "audit_ok (s\<lparr>db_click_seq := n\<rparr>) = audit_ok s" "audit_ok (s\<lparr>db_keys := k\<rparr>) = audit_ok s"
  "audit_ok (s\<lparr>db_key_seq := n\<rparr>) = audit_ok s"
  by (simp_all add: urls_ok_def clicks_ok_def keys_ok_def audit_ok_def)

lemma sql_view_frames [simp]:
  "sql_view (s\<lparr>db_clicks := c\<rparr>) = sql_view s" "sql_view (s\<lparr>db_click_seq := n\<rparr>) = sql_view s"
  "sql_view (s\<lparr>db_keys := k\<rparr>) = sql_view s" "sql_view (s\<lparr>db_key_seq := n\<rparr>) = sql_view s"
  "sql_view (s\<lparr>db_audit := a\<rparr>) = sql_view s" "sql_view (s\<lparr>db_audit_seq := n\<rparr>) = sql_view s"
  by (simp_all add: sql_view_def fun_eq_iff)

lemma sql_owner_frames [simp]:
  "sql_owner (s\<lparr>db_urls := u\<rparr>) = sql_owner s" "sql_owner (s\<lparr>db_clicks := c\<rparr>) = sql_owner s"
  "sql_owner (s\<lparr>db_click_seq := n\<rparr>) = sql_owner s" "sql_owner (s\<lparr>db_key_seq := n\<rparr>) = sql_owner s"
  "sql_owner (s\<lparr>db_audit := a\<rparr>) = sql_owner s" "sql_owner (s\<lparr>db_audit_seq := n\<rparr>) = sql_owner s"
  by (simp_all add: sql_owner_def fun_eq_iff)

lemma sql_view_None: "sql_view s c = None \<longleftrightarrow> select_one u_short_code c (db_urls s) = None"
  by (simp add: sql_view_def)

lemma sql_view_code: "sql_view s c = Some m \<Longrightarrow> m_ID m = c"
  by (auto simp: sql_view_def dest: select_one_Some)

text \<open>
  An \<^verbatim>\<open>UPDATE\<close> of one code, seen through the view, if reading the new row is applying \<open>g\<close> to
  what was read before.
\<close>

definition update_code :: "string \<Rightarrow> (url_row \<Rightarrow> url_row) \<Rightarrow> sql_store \<Rightarrow> sql_store" where
  "update_code c f s = s\<lparr>db_urls := fst (update_where (\<lambda>r. u_short_code r = c) f (db_urls s))\<rparr>"

lemma update_code_view:
  assumes "\<And>r. u_short_code (f r) = u_short_code r" and "\<And>r. scan_url (f r) = g (scan_url r)"
  shows "sql_view (update_code c f s) = (case sql_view s c of None \<Rightarrow> sql_view s | Some m \<Rightarrow> (sql_view s)(c \<mapsto> g m))"
proof
  fix c'
  show "sql_view (update_code c f s) c' = (case sql_view s c of None \<Rightarrow> sql_view s | Some m \<Rightarrow> (sql_view s)(c \<mapsto> g m)) c'"
  proof (cases "select_one u_short_code c' (db_urls s)")
    case None
    then show ?thesis
      by (cases "c' = c") (auto simp: update_code_def sql_view_def select_update assms(1) split: option.split)
  next
    case (Some r)
    then have "u_short_code r = c'" by (auto dest: select_one_Some)
    then show ?thesis using Some
      by (cases "c' = c") (auto simp: update_code_def sql_view_def select_update assms split: option.split)
  qed
qed

lemma update_code_inv: "sql_inv s \<Longrightarrow> (\<And>r. u_short_code (f r) = u_short_code r) \<Longrightarrow> sql_inv (update_code c f s)"
proof -
  assume inv: "sql_inv s" and key: "\<And>r. u_short_code (f r) = u_short_code r"
  have "u_short_code ` set (fst (update_where (\<lambda>r. u_short_code r = c) f (db_urls s)))
      = u_short_code ` set (db_urls s)"
    by (simp only: set_map [symmetric] map_key_update [where key = u_short_code and f = f, OF key])
  then show ?thesis using inv
    by (simp add: sql_inv_def update_code_def urls_ok_def clicks_ok_def map_key_update [where key = u_short_code and f = f, OF key])
qed

lemma update_code_owner [simp]: "sql_owner (update_code c f s) = sql_owner s"
  by (simp add: update_code_def)

section \<open>The methods when no statement fails\<close>

lemma no_fault_simp [simp]: "no_fault i = None"
  by (simp add: no_fault_def)

lemma sq_Set_ok: "sq_Set no_fault c m s =
    (if sql_view s c = None then (s\<lparr>db_urls := db_urls s @ [url_row_of c m]\<rparr>, None) else (s, Some ErrCodeConflict))"
  by (simp add: sq_Set_def insert_or_ignore_def sql_view_None url_row_of_def)

lemma sq_Delete_ok: "sq_Delete no_fault c s =
    (fst (delete_urls (\<lambda>r. u_short_code r = c) s), if sql_view s c = None then Some ErrNotFound else None)"
  by (simp add: sq_Delete_def case_prod_unfold Let_def sql_view_None)

lemma sq_Exists_ok: "sq_Exists no_fault c s = (sql_view s c \<noteq> None)"
  by (simp add: sq_Exists_def sq_Exists_at_def sql_view_None)

lemma sq_RotateToken_ok: "sq_RotateToken no_fault c h s =
    (update_code c (\<lambda>r. r\<lparr>u_owner_token_hash := h\<rparr>) s, if sql_view s c = None then Some ErrNotFound else None)"
  by (simp add: sq_RotateToken_def case_prod_unfold Let_def sql_view_None update_code_def)

lemma update_code_absent: "sql_view s c = None \<Longrightarrow> update_code c f s = s"
proof -
  assume "sql_view s c = None"
  then have "map (\<lambda>r. if u_short_code r = c then f r else r) (db_urls s) = db_urls s"
    by (intro map_idI) (auto simp: sql_view_None select_one_None)
  then show ?thesis by (simp add: update_code_def update_where_def)
qed

definition bump :: "click_event \<Rightarrow> url_row \<Rightarrow> url_row" where
  "bump ev r = r\<lparr>u_click_count := u_click_count r + 1, u_last_accessed := Some (UnixNano (ev_At ev))\<rparr>"

lemma sq_RecordClick_ok: "sq_RecordClick no_fault c ev s =
    (if sql_view s c = None then (s, Some ErrNotFound)
     else ((update_code c (bump ev) s)\<lparr>db_click_seq := db_click_seq s + 1,
        db_clicks := db_clicks s @ [click_row_of (db_click_seq s + 1) c ev]\<rparr>, None))"
  by (simp add: sq_RecordClick_def case_prod_unfold Let_def sql_view_None update_code_def bump_def [abs_def])

text \<open>The statement builder collects exactly the assignments of the reference, in order.\<close>

lemma sq_build_eq: "sq_build now f = (map fst (assignments now f), map snd (assignments now f))"
proof -
  obtain cols args where b: "sq_build now f = (cols, args)" by (cases "sq_build now f")
  from sq_stmt.build_assignments [of "([], [])" now f] have "length cols = length args" "zip cols args = assignments now f"
    by (simp_all add: sq_build_def [symmetric] b)
  then show ?thesis by (metis b map_fst_zip map_snd_zip)
qed

lemma zip_fst_snd_snoc: "zip (map fst a) (map snd a @ [x]) = a"
  by (induction a) simp_all

lemma sq_exec_update_eq: "sq_exec_update (map fst a) (map snd a @ [VText code]) rows
    = update_where (\<lambda>r. u_short_code r = code) (set_columns a) rows"
  by (simp add: sq_exec_update_def zip_fst_snd_snoc nth_append)

lemma update_code_nothing: "update_code c (set_columns []) s = s"
  by (simp add: update_code_def update_where_def if_distrib [symmetric] cong: if_cong)

lemma sq_Update_ok: "sq_Update no_fault t c f s =
    (update_code c (set_columns (assignments t f)) s, if sql_view s c = None then Some ErrNotFound else None)"
proof (cases "assignments t f = []")
  case True
  then show ?thesis by (simp add: sq_Update_def sq_build_eq sq_Exists_at_def sql_view_None update_code_nothing)
next
  case False
  then show ?thesis
    by (simp add: sq_Update_def sq_build_eq sq_exec_update_eq case_prod_unfold Let_def sql_view_None update_code_def)
qed

lemma sq_LogAudit_ok: "sq_LogAudit no_fault t e s =
    (s\<lparr>db_audit_seq := db_audit_seq s + 1, db_audit := db_audit s
        @ [audit_row_of (db_audit_seq s + 1) (case a_At e of None \<Rightarrow> t | Some x \<Rightarrow> x) e]\<rparr>, None)"
  by (simp add: sq_LogAudit_def)

text \<open>The audit table grows at its end, under the next ID.\<close>

lemma audit_ok_log: "audit_ok s \<Longrightarrow> ae_id r = db_audit_seq s + 1 \<Longrightarrow>
    audit_ok (s\<lparr>db_audit_seq := db_audit_seq s + 1, db_audit := db_audit s @ [r]\<rparr>)"
  by (force simp: audit_ok_def sorted_wrt_append)

lemma sql_inv_log: "sql_inv s \<Longrightarrow> ae_id r = db_audit_seq s + 1 \<Longrightarrow>
    sql_inv (s\<lparr>db_audit_seq := db_audit_seq s + 1, db_audit := db_audit s @ [r]\<rparr>)"
  using audit_ok_log [of s r] by (simp add: sql_inv_def urls_ok_def clicks_ok_def keys_ok_def)

section \<open>Preservation by the other methods\<close>

lemma sql_inv_insert:
  assumes "sql_inv s" and "sql_view s (u_short_code r) = None"
  shows "sql_inv (s\<lparr>db_urls := db_urls s @ [r]\<rparr>)"
  using assms by (auto simp: sql_inv_def urls_ok_def clicks_ok_def sql_view_None select_one_None)

lemma sql_view_insert:
  assumes "sql_view s (u_short_code r) = None"
  shows "sql_view (s\<lparr>db_urls := db_urls s @ [r]\<rparr>) = (sql_view s)(u_short_code r \<mapsto> scan_url r)"
  using assms by (auto simp: sql_view_def fun_eq_iff split: option.split)

lemma sorted_filter_clicks: "sorted_wrt (<) (map g xs) \<Longrightarrow> sorted_wrt (<) (map g (filter P xs))"
  by (induction xs) auto

text \<open>A cascading delete leaves no event behind whose mapping is gone.\<close>

lemma sql_inv_delete_urls: "sql_inv s \<Longrightarrow> sql_inv (fst (delete_urls P s))"
proof -
  assume inv: "sql_inv s"
  then have "ce_short_code r \<in> u_short_code ` set (fst (delete_where P (db_urls s)))"
    if "r \<in> set (db_clicks (fst (delete_urls P s)))" for r
    using that by (fastforce simp: sql_inv_def clicks_ok_def delete_where_def)
  with inv show ?thesis
    by (auto simp: sql_inv_def urls_ok_def clicks_ok_def keys_ok_def audit_ok_def distinct_delete_where
        intro: sorted_filter_clicks)
qed

lemma sql_owner_delete_urls [simp]: "sql_owner (fst (delete_urls P s)) = sql_owner s"
  by (simp add: sql_owner_def fun_eq_iff)

lemma sql_inv_click:
  assumes "sql_inv s" and "sql_view s c \<noteq> None"
  shows "sql_inv (s\<lparr>db_click_seq := db_click_seq s + 1,
    db_clicks := db_clicks s @ [click_row_of (db_click_seq s + 1) c ev]\<rparr>)"
proof -
  have "clicks_ok (s\<lparr>db_click_seq := db_click_seq s + 1,
      db_clicks := db_clicks s @ [click_row_of (db_click_seq s + 1) c ev]\<rparr>)"
  proof -
    have code: "c \<in> u_short_code ` set (db_urls s)" using assms(2) by (simp add: sql_view_None select_one_None)
    have ids: "ce_id r < db_click_seq s + 1" if "r \<in> set (db_clicks s)" for r
      using assms(1) that by (auto simp: sql_inv_def clicks_ok_def)
    then show ?thesis using assms(1) code
      by (auto simp: sql_inv_def clicks_ok_def click_row_of_def sorted_wrt_append dest!: ids intro: less_imp_le)
  qed
  then show ?thesis using assms(1) by (simp add: sql_inv_def urls_ok_def keys_ok_def audit_ok_def)
qed

lemma sq_RecordClick_inv: "sql_inv s \<Longrightarrow> sql_inv (fst (sq_RecordClick no_fault c ev s))"
proof -
  assume inv: "sql_inv s"
  have key: "u_short_code (bump ev r) = u_short_code r" for r by (simp add: bump_def)
  let ?s1 = "update_code c (bump ev) s"
  have "sql_inv ?s1" using inv key by (intro update_code_inv)
  moreover have "sql_view ?s1 c \<noteq> None" if "sql_view s c \<noteq> None"
    using that by (simp add: update_code_def sql_view_None select_update key)
  ultimately show ?thesis using inv sql_inv_click [of ?s1 c ev]
    by (simp add: sq_RecordClick_ok) (simp add: update_code_def)
qed

section \<open>API keys\<close>

lemma owner_unique:
  assumes "keys_ok s" and "r \<in> set (db_keys s)"
  shows "sql_owner s (ak_token_hash r) = Some (ak_id r)"
  using assms select_one_unique [of ak_token_hash "db_keys s" r] by (simp add: keys_ok_def sql_owner_def)

lemma owner_row: "sql_owner s h = Some i \<Longrightarrow> \<exists>r. select_one ak_token_hash h (db_keys s) = Some r
    \<and> r \<in> set (db_keys s) \<and> ak_id r = i \<and> ak_token_hash r = h"
  by (auto simp: sql_owner_def dest: select_one_Some)

lemma owner_of_ids: "keys_ok s \<Longrightarrow> sql_owner s h = Some i \<Longrightarrow> r \<in> set (db_keys s) \<Longrightarrow>
    ak_token_hash r = h \<longleftrightarrow> ak_id r = i"
proof -
  assume inv: "keys_ok s" and own: "sql_owner s h = Some i" and r: "r \<in> set (db_keys s)"
  obtain q where q: "q \<in> set (db_keys s)" "ak_id q = i" "ak_token_hash q = h" using owner_row [OF own] by blast
  have "inj_on ak_id (set (db_keys s))" "inj_on ak_token_hash (set (db_keys s))"
    using inv by (simp_all add: keys_ok_def distinct_map)
  then show ?thesis using q r by (metis inj_onD)
qed

lemma keys_ok_update: "keys_ok s \<Longrightarrow> (\<And>r. ak_id (f r) = ak_id r) \<Longrightarrow> (\<And>r. ak_token_hash (f r) = ak_token_hash r) \<Longrightarrow>
    keys_ok (s\<lparr>db_keys := fst (update_where P f (db_keys s))\<rparr>)"
proof -
  assume inv: "keys_ok s" and f: "\<And>r. ak_id (f r) = ak_id r" "\<And>r. ak_token_hash (f r) = ak_token_hash r"
  have "map ak_id (fst (update_where P f (db_keys s))) = map ak_id (db_keys s)"
    "map ak_token_hash (fst (update_where P f (db_keys s))) = map ak_token_hash (db_keys s)"
    by (simp_all only: map_key_update [where key = ak_id and f = f, OF f(1)]
        map_key_update [where key = ak_token_hash and f = f, OF f(2)])
  then show ?thesis using inv f by (auto simp: keys_ok_def set_update_where)
qed

lemma sql_owner_update: "(\<And>r. ak_id (f r) = ak_id r) \<Longrightarrow> (\<And>r. ak_token_hash (f r) = ak_token_hash r) \<Longrightarrow>
    sql_owner (s\<lparr>db_keys := fst (update_where P f (db_keys s))\<rparr>) = sql_owner s"
  by (simp add: sql_owner_def fun_eq_iff select_update option.map_comp comp_def if_distrib [of ak_id] cong: if_cong)

lemma sql_inv_keys: "sql_inv (s\<lparr>db_keys := k\<rparr>) \<longleftrightarrow> urls_ok s \<and> clicks_ok s \<and> keys_ok (s\<lparr>db_keys := k\<rparr>) \<and> audit_ok s"
  by (simp add: sql_inv_def)

lemma sq_lookup_miss: "sql_owner s h = None \<Longrightarrow> sq_LookupAPIKey no_fault t h s = (s, Inl ErrNotFound)"
  by (simp add: sq_LookupAPIKey_def sql_owner_def)

lemma sq_lookup_hit: "sql_owner s h = Some i \<Longrightarrow>
    \<exists>s' k. sq_LookupAPIKey no_fault t h s = (s', Inr k) \<and> k_ID k = i \<and> k_TokenHash k = h"
  by (auto simp: sq_LookupAPIKey_def sql_owner_def Let_def)

lemma sq_lookup_frame:
  assumes "sql_inv s"
  shows "sql_inv (fst (sq_LookupAPIKey fl t h s)) \<and> sql_view (fst (sq_LookupAPIKey fl t h s)) = sql_view s
    \<and> sql_owner (fst (sq_LookupAPIKey fl t h s)) = sql_owner s"
  using assms
  by (auto simp: sq_LookupAPIKey_def Let_def sql_inv_keys sql_owner_update intro!: keys_ok_update split: option.split)
    (simp_all add: sql_inv_def)

lemma sq_create_key:
  assumes "sql_inv s" and "sql_owner s h = None"
  shows "\<exists>s' k. sq_CreateAPIKey no_fault t l h s = (s', Inr k) \<and> sql_inv s' \<and> sql_view s' = sql_view s
    \<and> sql_owner s' = (sql_owner s)(h \<mapsto> k_ID k) \<and> k_ID k \<notin> ran (sql_owner s) \<and> k_Label k = l \<and> k_CreatedAt k = t"
proof -
  let ?i = "db_key_seq s + 1"
  define row where "row = \<lparr>ak_id = ?i, ak_token_hash = h, ak_label = nullableText l,
      ak_created_at = UnixNano t, ak_last_used_at = None\<rparr>"
  let ?s' = "s\<lparr>db_key_seq := ?i, db_keys := db_keys s @ [row]\<rparr>"
  have fresh: "h \<notin> ak_token_hash ` set (db_keys s)" using assms(2) by (simp add: sql_owner_def select_one_None)
  have none: "select_one ak_token_hash h (db_keys s) = None" using assms(2) by (simp add: sql_owner_def)
  have ids: "\<forall>r \<in> set (db_keys s). ak_id r \<le> db_key_seq s" using assms(1) by (simp add: sql_inv_def keys_ok_def)
  have "keys_ok ?s'"
    using assms(1) fresh by (force simp: sql_inv_def keys_ok_def row_def)
  then have inv: "sql_inv ?s'" using assms(1) by (simp add: sql_inv_def urls_ok_def clicks_ok_def audit_ok_def)
  have own: "sql_owner ?s' = (sql_owner s)(h \<mapsto> ?i)"
    using none by (auto simp: sql_owner_def fun_eq_iff row_def split: option.split)
  have "?i \<notin> ran (sql_owner s)" using ids by (fastforce simp: ran_def dest: owner_row)
  then show ?thesis using inv own none
    by (simp add: sq_CreateAPIKey_def Let_def row_def)
qed

lemma sq_delete_key:
  assumes "sql_inv s" and "sql_owner s h = Some i"
  shows "\<exists>s'. sq_DeleteAPIKey no_fault i s = (s', None) \<and> sql_inv s' \<and> sql_owner s' = (sql_owner s)(h := None)
    \<and> sql_view s' = (\<lambda>c. map_option (\<lambda>m. if m_APIKeyID m = i then m\<lparr>m_APIKeyID := 0\<rparr> else m) (sql_view s c))"
proof -
  let ?f = "\<lambda>r. r\<lparr>u_api_key_id := None\<rparr> :: url_row" and ?P = "\<lambda>r. u_api_key_id r = Some i"
  let ?s' = "s\<lparr>db_urls := fst (update_where ?P ?f (db_urls s)), db_keys := fst (delete_where (\<lambda>r. ak_id r = i) (db_keys s))\<rparr>"
  have inv: "keys_ok s" using assms(1) by (simp add: sql_inv_def)
  obtain r where r: "r \<in> set (db_keys s)" "ak_id r = i" "ak_token_hash r = h" using owner_row [OF assms(2)] by blast
  have pos: "0 < i" using inv r by (auto simp: keys_ok_def)
  have run: "sq_DeleteAPIKey no_fault i s = (?s', None)"
    using r(1,2) by (auto simp: sq_DeleteAPIKey_def Let_def case_prod_unfold select_one_None)
  have keys: "map u_short_code (fst (update_where ?P ?f (db_urls s))) = map u_short_code (db_urls s)"
    by (rule map_key_update) simp
  then have codes: "u_short_code ` set (fst (update_where ?P ?f (db_urls s))) = u_short_code ` set (db_urls s)"
    by (simp only: set_map [symmetric])
  have "keys_ok ?s'" using inv by (auto simp: keys_ok_def distinct_map_filter delete_where_def)
  then have inv': "sql_inv ?s'" using assms(1)
    by (simp add: sql_inv_def urls_ok_def clicks_ok_def audit_ok_def keys codes)
  have same: "filter (\<lambda>q. ak_id q \<noteq> i) (db_keys s) = filter (\<lambda>q. ak_token_hash q \<noteq> h) (db_keys s)"
    using owner_of_ids [OF inv assms(2)] by (intro filter_cong) auto
  have "sql_owner ?s' = (sql_owner s)(h := None)"
    using select_delete [of ak_token_hash _ h "db_keys s"]
    by (auto simp: sql_owner_def fun_eq_iff delete_where_def same)
  moreover have "sql_view ?s' = (\<lambda>c. map_option (\<lambda>m. if m_APIKeyID m = i then m\<lparr>m_APIKeyID := 0\<rparr> else m) (sql_view s c))"
  proof
    fix c
    have "scan_url (if ?P q then ?f q else q) = (if m_APIKeyID (scan_url q) = i then (scan_url q)\<lparr>m_APIKeyID := 0\<rparr> else scan_url q)" for q
      using pos by (cases "u_api_key_id q") (auto simp: scan_url_def)
    then show "sql_view ?s' c = map_option (\<lambda>m. if m_APIKeyID m = i then m\<lparr>m_APIKeyID := 0\<rparr> else m) (sql_view s c)"
      by (simp add: sql_view_def select_update option.map_comp comp_def)
  qed
  ultimately show ?thesis using run inv' by blast
qed

lemma sq_label_key:
  assumes "sql_inv s" and "sql_owner s h = Some i"
  shows "\<exists>s'. sq_UpdateAPIKeyLabel no_fault i l s = (s', None) \<and> sql_inv s' \<and> sql_owner s' = sql_owner s \<and> sql_view s' = sql_view s"
proof -
  let ?s' = "s\<lparr>db_keys := fst (update_where (\<lambda>r. ak_id r = i) (\<lambda>r. r\<lparr>ak_label := nullableText l\<rparr>) (db_keys s))\<rparr>"
  obtain r where "r \<in> set (db_keys s)" "ak_id r = i" using owner_row [OF assms(2)] by blast
  then have "sq_UpdateAPIKeyLabel no_fault i l s = (?s', None)"
    by (auto simp: sq_UpdateAPIKeyLabel_def Let_def case_prod_unfold select_one_None)
  moreover have "sql_inv ?s'" using assms(1) by (simp add: sql_inv_keys keys_ok_update) (simp add: sql_inv_def keys_ok_update)
  moreover have "sql_owner ?s' = sql_owner s" by (rule sql_owner_update) simp_all
  ultimately show ?thesis by simp
qed

lemma sq_key_gone:
  assumes "sql_inv s" and "i \<notin> ran (sql_owner s)"
  shows "sq_DeleteAPIKey no_fault i s = (s, Some ErrNotFound) \<and> sq_UpdateAPIKeyLabel no_fault i l s = (s, Some ErrNotFound)"
proof -
  have none: "\<forall>r \<in> set (db_keys s). ak_id r \<noteq> i"
    using assms owner_unique by (fastforce simp: sql_inv_def ran_def)
  then have "update_where (\<lambda>r. ak_id r = i) f (db_keys s) = (db_keys s, 0)" for f
    by (simp add: update_where_def map_idI)
  with none show ?thesis
    by (simp add: sq_DeleteAPIKey_def sq_UpdateAPIKeyLabel_def Let_def delete_where_def)
qed

section \<open>The store meets the contract\<close>

lemma bump_view: "scan_url (bump ev r) = norm_mapping stored_time (click_mapping ev (scan_url r))"
  by (simp add: scan_url_def bump_def norm_mapping_def click_mapping_def option.map_comp comp_def)

lemma sq_RecordClick_view: "sql_view (fst (sq_RecordClick no_fault c ev s)) =
    (case sql_view s c of None \<Rightarrow> sql_view s | Some m \<Rightarrow> (sql_view s)(c \<mapsto> norm_mapping stored_time (click_mapping ev m)))"
proof -
  have "sql_view (update_code c (bump ev) s) = (case sql_view s c of None \<Rightarrow> sql_view s
      | Some m \<Rightarrow> (sql_view s)(c \<mapsto> norm_mapping stored_time (click_mapping ev m)))"
    by (rule update_code_view [where f = "bump ev" and g = "\<lambda>m. norm_mapping stored_time (click_mapping ev m)"])
      (simp_all add: bump_view, simp add: bump_def)
  then show ?thesis by (simp add: sq_RecordClick_ok split: option.split)
qed

lemma delete_code_view: "sql_view (fst (delete_urls (\<lambda>r. u_short_code r = c) s)) = (sql_view s)(c := None)"
  by (simp add: sql_view_def fun_eq_iff select_delete)

text \<open>The cleanup pass: the prune of old click events leaves the mappings alone.\<close>

abbreviation row_expired :: "time \<Rightarrow> url_row \<Rightarrow> bool" where
  "row_expired t r \<equiv> (case u_expires_at r of None \<Rightarrow> False | Some x \<Rightarrow> from_unix x < stored_time t)"

lemma prune_inv: "sql_inv s \<Longrightarrow> sql_inv (s\<lparr>db_clicks := filter P (db_clicks s)\<rparr>)"
  by (auto simp: sql_inv_def urls_ok_def clicks_ok_def keys_ok_def audit_ok_def intro: sorted_filter_clicks)

lemma sq_cleanup_inv: "sql_inv s \<Longrightarrow> sql_inv (sq_cleanup no_fault t s)"
  using sql_inv_delete_urls [of s "row_expired t"] prune_inv [of "fst (delete_urls (row_expired t) s)"]
  by (simp add: sq_cleanup_def Let_def delete_where_def)

lemma sq_cleanup_view:
  assumes "sql_inv s"
  shows "sql_view (sq_cleanup no_fault t s) c =
    (case sql_view s c of None \<Rightarrow> None | Some m \<Rightarrow> if expired_at (stored_time t) m then None else Some m)"
proof -
  have "select_one u_short_code c (filter (\<lambda>r. \<not> row_expired t r) (db_urls s)) =
      (case select_one u_short_code c (db_urls s) of None \<Rightarrow> None | Some r \<Rightarrow> if row_expired t r then None else Some r)"
    using assms select_filter [of u_short_code "db_urls s" c "\<lambda>r. \<not> row_expired t r"]
    by (simp add: sql_inv_def urls_ok_def split: option.split)
  moreover have "expired_at (stored_time t) (scan_url r) = row_expired t r" for r
    by (simp add: expired_at_def scan_url_def split: option.split)
  ultimately show ?thesis
    by (simp add: sql_view_def sq_cleanup_def Let_def delete_where_def split: option.split)
qed

interpretation sq: serial_store "sq_ops no_fault" sql_inv sql_view stored_time sql_owner "sq_cleanup no_fault" db_key_seq
proof (unfold_locales, goal_cases)
  case (1 s c m) then show ?case
    using sql_view_insert [of s "url_row_of c m"] scan_url_row_of [of c m] by (simp add: sq_Set_ok url_row_of_def)
next
  case (2 s c m' m) then show ?case by (simp add: sq_Set_ok)
next
  case (3 s c m) then show ?case
    using sql_inv_insert [of s "url_row_of c m"] by (simp add: sq_Set_ok url_row_of_def)
next
  case (4 s t c) then show ?case by (simp add: sq_Get_def sql_view_def Let_def split: option.split)
next
  case (5 s c) then show ?case by (simp add: sq_Exists_ok)
next
  case (6 s c) then show ?case by (simp add: sq_Delete_ok delete_code_view)
next
  case (7 s c) then show ?case by (simp add: sq_Delete_ok)
next
  case (8 s c) then show ?case by (simp add: sq_Delete_ok sql_inv_delete_urls)
next
  case (9 s c ev) then show ?case by (simp add: sq_RecordClick_view)
next
  case (10 s c ev) then show ?case by (simp add: sq_RecordClick_ok)
next
  case (11 s c ev) then show ?case by (simp add: sq_RecordClick_inv)
next
  case (12 s f t c) then show ?case
    by (simp add: sq_Update_ok update_code_view [where g = "\<lambda>m. norm_mapping stored_time (apply_update t f m)"]
        scan_set_assignments)
next
  case (13 s t c f) then show ?case by (simp add: sq_Update_ok)
next
  case (14 s t c f) then show ?case by (simp add: sq_Update_ok update_code_inv)
next
  case (15 s c h) then show ?case
    by (simp add: sq_RotateToken_ok update_code_view [where g = "\<lambda>m. m\<lparr>m_OwnerTokenHash := h\<rparr>"] scan_url_def)
next
  case (16 s c h) then show ?case by (simp add: sq_RotateToken_ok)
next
  case (17 s c h) then show ?case by (simp add: sq_RotateToken_ok update_code_inv)
next
  case (18 s t e) then show ?case by (simp add: sq_LogAudit_ok)
next
  case (19 s t e) then show ?case by (simp add: sq_LogAudit_ok sql_inv_log audit_row_of_def)
next
  case (20 s h i) then show ?case by (auto simp: sql_inv_def keys_ok_def dest!: owner_row)
next
  case (21 s h t) then show ?case by (simp add: sq_lookup_miss)
next
  case (22 s h i t) then show ?case by (simp add: sq_lookup_hit)
next
  case (23 s t h) then show ?case by (simp add: sq_lookup_frame)
next
  case (24 s t h) then show ?case by (simp add: sq_lookup_frame)
next
  case (25 s t h) then show ?case by (simp add: sq_lookup_frame)
next
  case (26 s c m) then show ?case by (simp add: sq_Set_ok)
next
  case (27 s c) then show ?case by (simp add: sq_Delete_ok)
next
  case (28 s c ev) then show ?case by (simp add: sq_RecordClick_ok)
next
  case (29 s t c f) then show ?case by (simp add: sq_Update_ok)
next
  case (30 s c h) then show ?case by (simp add: sq_RotateToken_ok)
next
  case (31 s t e) then show ?case by (simp add: sq_LogAudit_ok)
next
  case (32 s h t l) then show ?case by (simp add: sq_create_key)
next
  case (33 s h i) then show ?case using sq_delete_key by simp
next
  case (34 s h i l) then show ?case using sq_label_key by simp
next
  case (35 s t) then show ?case by (rule sq_cleanup_inv)
next
  case (36 s t c) then show ?case by (rule sq_cleanup_view)
next
  case (37 s c m) then show ?case by (auto simp: sql_view_def)
next
  case (38 s h i) then show ?case by (auto simp: sql_inv_def keys_ok_def dest!: owner_row)
next
  case (39 s h t l s' k) then show ?case by (auto simp: sq_CreateAPIKey_def sql_owner_def Let_def)
next
  case (40 s i) then show ?case by (simp add: sq_key_gone)
next
  case (41 s i l) then show ?case by (simp add: sq_key_gone)
next
  case (42 s t) then show ?case by (simp add: sq_cleanup_def Let_def sql_owner_def)
next
  case (43 c m s) then show ?case by (simp add: sq_Set_ok)
next
  case (44 c s) then show ?case by (simp add: sq_Delete_ok)
next
  case (45 c ev s) then show ?case by (simp add: sq_RecordClick_ok update_code_def split: option.split)
next
  case (46 t c f s) then show ?case by (simp add: sq_Update_ok update_code_def)
next
  case (47 c h s) then show ?case by (simp add: sq_RotateToken_ok update_code_def)
next
  case (48 t e s) then show ?case by (simp add: sq_LogAudit_ok)
next
  case (49 t h s) then show ?case by (simp add: sq_LookupAPIKey_def Let_def split: option.split)
next
  case (50 i s) then show ?case by (simp add: sq_DeleteAPIKey_def Let_def split: prod.split)
next
  case (51 i l s) then show ?case by (simp add: sq_UpdateAPIKeyLabel_def Let_def split: prod.split)
next
  case (52 t s) then show ?case by (simp add: sq_cleanup_def Let_def)
qed

end
