(* ===== verification/Sqlite_Props.thy ===== *)
theory Sqlite_Props
  imports Sqlite_Store Mem_Props
begin

text \<open>
  What the SQLite backend adds to the contract: its behaviour when statements fail, the agreement
  of the click counter with the event table over any run, and its agreement with the memory
  backend.
\<close>

section \<open>Failing statements\<close>

text \<open>
  A method either does what it does without faults, or leaves the tables as they are; only the
  best-effort write of a lookup may be missing.
\<close>

lemma faults_all_or_nothing:
  "fst (sq_Set fl c m s) = s \<or> sq_Set fl c m s = sq_Set no_fault c m s"
  "fst (sq_Delete fl c s) = s \<or> sq_Delete fl c s = sq_Delete no_fault c s"
  "fst (sq_RotateToken fl c h s) = s \<or> sq_RotateToken fl c h s = sq_RotateToken no_fault c h s"
  "fst (sq_Update fl t c f s) = s \<or> sq_Update fl t c f s = sq_Update no_fault t c f s"
  "fst (sq_RecordClick fl c ev s) = s \<or> sq_RecordClick fl c ev s = sq_RecordClick no_fault c ev s"
  "fst (sq_CreateAPIKey fl t l h s) = s \<or> sq_CreateAPIKey fl t l h s = sq_CreateAPIKey no_fault t l h s"
  "fst (sq_DeleteAPIKey fl i s) = s \<or> sq_DeleteAPIKey fl i s = sq_DeleteAPIKey no_fault i s"
  "fst (sq_UpdateAPIKeyLabel fl i l s) = s \<or> sq_UpdateAPIKeyLabel fl i l s = sq_UpdateAPIKeyLabel no_fault i l s"
  "fst (sq_LogAudit fl t e s) = s \<or> sq_LogAudit fl t e s = sq_LogAudit no_fault t e s"
  by (simp_all add: sq_Set_def sq_Delete_def sq_RotateToken_def sq_Update_def sq_RecordClick_def sq_CreateAPIKey_def
      sq_DeleteAPIKey_def sq_UpdateAPIKeyLabel_def sq_LogAudit_def Let_def split: option.split prod.split)

lemma lookup_faults:
  "fst (sq_LookupAPIKey fl t h s) = s \<or> fst (sq_LookupAPIKey fl t h s) = fst (sq_LookupAPIKey no_fault t h s)"
  by (simp add: sq_LookupAPIKey_def Let_def split: option.split)

text \<open>Without faults, a method that answers an error has changed nothing.\<close>

lemma update_keys_absent: "select_one ak_id i (db_keys s) = None \<Longrightarrow>
    s\<lparr>db_keys := fst (update_where (\<lambda>r. ak_id r = i) f (db_keys s))\<rparr> = s"
proof -
  assume "select_one ak_id i (db_keys s) = None"
  then have "map (\<lambda>r. if ak_id r = i then f r else r) (db_keys s) = db_keys s"
    by (intro map_idI) (auto simp: select_one_None)
  then show ?thesis by (simp add: update_where_def)
qed

lemma delete_urls_absent:
  assumes "sql_inv s" and "sql_view s c = None"
  shows "fst (delete_urls (\<lambda>r. u_short_code r = c) s) = s"
proof -
  have no: "r \<notin> set (db_urls s)" if "u_short_code r = c" for r
    using assms(2) that by (auto simp: sql_view_None select_one_None)
  then have "filter (\<lambda>r. u_short_code r \<noteq> c) (db_urls s) = db_urls s" by (auto simp: filter_id_conv)
  moreover have "filter (\<lambda>r. u_short_code r = c) (db_urls s) = []" using no by (auto simp: filter_empty_conv)
  ultimately show ?thesis by (simp add: delete_urls_def delete_where_def)
qed

lemma ok_errors_change_nothing:
  "snd (sq_Set no_fault c m s) \<noteq> None \<Longrightarrow> fst (sq_Set no_fault c m s) = s"
  "sql_inv s \<Longrightarrow> snd (sq_Delete no_fault c s) \<noteq> None \<Longrightarrow> fst (sq_Delete no_fault c s) = s"
  "snd (sq_RotateToken no_fault c h s) \<noteq> None \<Longrightarrow> fst (sq_RotateToken no_fault c h s) = s"
  "snd (sq_Update no_fault t c f s) \<noteq> None \<Longrightarrow> fst (sq_Update no_fault t c f s) = s"
  "snd (sq_RecordClick no_fault c ev s) \<noteq> None \<Longrightarrow> fst (sq_RecordClick no_fault c ev s) = s"
  "snd (sq_CreateAPIKey no_fault t l h s) = Inl e \<Longrightarrow> fst (sq_CreateAPIKey no_fault t l h s) = s"
  "snd (sq_DeleteAPIKey no_fault i s) \<noteq> None \<Longrightarrow> fst (sq_DeleteAPIKey no_fault i s) = s"
  "snd (sq_UpdateAPIKeyLabel no_fault i l s) \<noteq> None \<Longrightarrow> fst (sq_UpdateAPIKeyLabel no_fault i l s) = s"
  by (auto simp: sq_Set_ok sq_Delete_ok sq_RotateToken_ok sq_Update_ok sq_RecordClick_ok sq_CreateAPIKey_def
      sq_DeleteAPIKey_def sq_UpdateAPIKeyLabel_def Let_def case_prod_unfold update_code_absent delete_urls_absent
      update_keys_absent split: if_splits)

lemma all_or_nothingI: "fst x = s \<or> x = y \<Longrightarrow> (snd y \<noteq> None \<Longrightarrow> fst y = s) \<Longrightarrow> snd x \<noteq> None \<Longrightarrow> fst x = s"
  by auto

lemma errors_change_nothing:
  "snd (sq_Set fl c m s) \<noteq> None \<Longrightarrow> fst (sq_Set fl c m s) = s"
  "sql_inv s \<Longrightarrow> snd (sq_Delete fl c s) \<noteq> None \<Longrightarrow> fst (sq_Delete fl c s) = s"
  "snd (sq_RotateToken fl c h s) \<noteq> None \<Longrightarrow> fst (sq_RotateToken fl c h s) = s"
  "snd (sq_Update fl t c f s) \<noteq> None \<Longrightarrow> fst (sq_Update fl t c f s) = s"
  "snd (sq_RecordClick fl c ev s) \<noteq> None \<Longrightarrow> fst (sq_RecordClick fl c ev s) = s"
  "snd (sq_DeleteAPIKey fl i s) \<noteq> None \<Longrightarrow> fst (sq_DeleteAPIKey fl i s) = s"
  "snd (sq_UpdateAPIKeyLabel fl i l s) \<noteq> None \<Longrightarrow> fst (sq_UpdateAPIKeyLabel fl i l s) = s"
  by (rule all_or_nothingI, rule faults_all_or_nothing, erule (1) ok_errors_change_nothing | assumption
    | erule ok_errors_change_nothing)+

lemma sq_RecordClick_done: "snd (sq_RecordClick fl c ev s) = None \<Longrightarrow> sq_RecordClick fl c ev s = sq_RecordClick no_fault c ev s"
  by (auto simp: sq_RecordClick_def Let_def split: option.splits prod.splits if_splits)

lemma sq_DeleteAPIKey_done: "snd (sq_DeleteAPIKey fl i s) = None \<Longrightarrow> sq_DeleteAPIKey fl i s = sq_DeleteAPIKey no_fault i s"
  by (auto simp: sq_DeleteAPIKey_def Let_def split: option.splits prod.splits if_splits)

text \<open>
  C17. Whatever statements fail, of Set, Delete, Update, RotateToken, RecordClick and DeleteAPIKey of
  the SQLite store one that answers an error has changed no table. So
  \<^verbatim>\<open>RecordClick\<close> writes the counter and the event or neither, \<^verbatim>\<open>DeleteAPIKey\<close> releases
  the mappings of a key and deletes the key or does neither, and a lookup whose query succeeds
  answers the key even if the write of \<^verbatim>\<open>last_used_at\<close> fails.
\<close>
theorem sqlite_all_or_nothing:
  assumes "sql_inv s"
  shows "(if snd (sq_RecordClick fl c ev s) = None
       then sql_view (fst (sq_RecordClick fl c ev s)) = (sql_view s)(c \<mapsto>
              norm_mapping stored_time (click_mapping ev (the (sql_view s c))))
         \<and> db_clicks (fst (sq_RecordClick fl c ev s)) = db_clicks s @ [click_row_of (db_click_seq s + 1) c ev]
       else fst (sq_RecordClick fl c ev s) = s)
    \<and> (if snd (sq_DeleteAPIKey fl i s) = None
       then i \<notin> ran (sql_owner (fst (sq_DeleteAPIKey fl i s)))
         \<and> sql_view (fst (sq_DeleteAPIKey fl i s)) = (\<lambda>d. map_option (release_key i) (sql_view s d))
       else fst (sq_DeleteAPIKey fl i s) = s)
    \<and> (snd (sq_Set fl c m s) = None \<or> fst (sq_Set fl c m s) = s)
    \<and> (snd (sq_Delete fl c s) = None \<or> fst (sq_Delete fl c s) = s)
    \<and> (snd (sq_Update fl t c f s) = None \<or> fst (sq_Update fl t c f s) = s)
    \<and> (snd (sq_RotateToken fl c h s) = None \<or> fst (sq_RotateToken fl c h s) = s)
    \<and> (fl 0 \<noteq> None \<or> map_option k_ID (case snd (sq_LookupAPIKey fl t h s) of Inl e \<Rightarrow> None | Inr k \<Rightarrow> Some k) = sql_owner s h)"
proof (intro conjI)
  show "if snd (sq_RecordClick fl c ev s) = None
       then sql_view (fst (sq_RecordClick fl c ev s)) = (sql_view s)(c \<mapsto>
              norm_mapping stored_time (click_mapping ev (the (sql_view s c))))
         \<and> db_clicks (fst (sq_RecordClick fl c ev s)) = db_clicks s @ [click_row_of (db_click_seq s + 1) c ev]
       else fst (sq_RecordClick fl c ev s) = s"
    using errors_change_nothing(5) [of fl c ev s] sq_RecordClick_view [of c ev s] sq_RecordClick_done [of fl c ev s]
    by (cases "sql_view s c") (auto simp: sq_RecordClick_ok split: if_splits)
  show "if snd (sq_DeleteAPIKey fl i s) = None
       then i \<notin> ran (sql_owner (fst (sq_DeleteAPIKey fl i s)))
         \<and> sql_view (fst (sq_DeleteAPIKey fl i s)) = (\<lambda>d. map_option (release_key i) (sql_view s d))
       else fst (sq_DeleteAPIKey fl i s) = s"
  proof (cases "snd (sq_DeleteAPIKey fl i s) = None")
    case False
    then show ?thesis using errors_change_nothing(6) [of fl i s] by auto
  next
    case True
    note ok = sq_DeleteAPIKey_done [OF True]
    have "snd (sq_DeleteAPIKey no_fault i s) = None" using True ok by simp
    then obtain r where r: "r \<in> set (db_keys s)" "ak_id r = i"
      by (auto simp: sq_DeleteAPIKey_def Let_def case_prod_unfold select_one_None split: if_splits)
    have own: "sql_owner s (ak_token_hash r) = Some i"
      using owner_unique [OF _ r(1)] assms r(2) by (simp add: sql_inv_def)
    have inv: "keys_ok s" using assms by (simp add: sql_inv_def)
    from sq_delete_key [OF assms own] obtain s' where s': "sq_DeleteAPIKey no_fault i s = (s', None)"
        "sql_owner s' = (sql_owner s)(ak_token_hash r := None)"
        "sql_view s' = (\<lambda>c. map_option (\<lambda>m. if m_APIKeyID m = i then m\<lparr>m_APIKeyID := 0\<rparr> else m) (sql_view s c))" by blast
    have "h' = ak_token_hash r" if "sql_owner s h' = Some i" for h'
      using owner_row [OF that] owner_of_ids [OF inv own] by blast
    then have "i \<notin> ran (sql_owner s')" by (auto simp: s'(2) ran_def)
    then show ?thesis using True ok s' by (simp add: release_key_def [abs_def])
  qed
qed (use errors_change_nothing assms in \<open>blast | simp add: sq_LookupAPIKey_def sql_owner_def Let_def split: option.split\<close>)+

section \<open>Runs\<close>

text \<open>
  The states the backend reaches from an empty database with retention \<open>d\<close>, under any calls,
  failing statements and ticks of the cleanup goroutine.
\<close>

inductive sq_reach :: "duration \<Rightarrow> sql_store \<Rightarrow> bool" for d where
  reach_new: "sq_reach d (sq_SetClickRetention d NewSQLiteStore)"
| reach_set: "sq_reach d s \<Longrightarrow> insertable c m \<Longrightarrow> sq_reach d (fst (sq_Set fl c m s))"
| reach_delete: "sq_reach d s \<Longrightarrow> sq_reach d (fst (sq_Delete fl c s))"
| reach_click: "sq_reach d s \<Longrightarrow> sq_reach d (fst (sq_RecordClick fl c ev s))"
| reach_update: "sq_reach d s \<Longrightarrow> sq_reach d (fst (sq_Update fl t c f s))"
| reach_rotate: "sq_reach d s \<Longrightarrow> sq_reach d (fst (sq_RotateToken fl c h s))"
| reach_create: "sq_reach d s \<Longrightarrow> sq_reach d (fst (sq_CreateAPIKey fl t l h s))"
| reach_lookup: "sq_reach d s \<Longrightarrow> sq_reach d (fst (sq_LookupAPIKey fl t h s))"
| reach_revoke: "sq_reach d s \<Longrightarrow> sq_reach d (fst (sq_DeleteAPIKey fl i s))"
| reach_label: "sq_reach d s \<Longrightarrow> sq_reach d (fst (sq_UpdateAPIKeyLabel fl i l s))"
| reach_audit: "sq_reach d s \<Longrightarrow> sq_reach d (fst (sq_LogAudit fl t e s))"
| reach_cleanup: "sq_reach d s \<Longrightarrow> sq_reach d (sq_cleanup fl t s)"

text \<open>The counter of a mapping covers its events, and equals their number without retention.\<close>

definition events_no :: "string \<Rightarrow> sql_store \<Rightarrow> nat" where
  "events_no c s = length (filter (\<lambda>r. ce_short_code r = c) (db_clicks s))"

definition counts_ok :: "duration \<Rightarrow> sql_store \<Rightarrow> bool" where
  "counts_ok d s = (clickRetention s = d \<and> (\<forall>r \<in> set (db_urls s). int (events_no (u_short_code r) s) \<le> u_click_count r
     \<and> (d \<le> 0 \<longrightarrow> int (events_no (u_short_code r) s) = u_click_count r)))"

lemma counts_ok_frames [simp]:
  "counts_ok d (s\<lparr>db_keys := k\<rparr>) = counts_ok d s" "counts_ok d (s\<lparr>db_key_seq := n\<rparr>) = counts_ok d s"
  "counts_ok d (s\<lparr>db_audit := a\<rparr>) = counts_ok d s" "counts_ok d (s\<lparr>db_audit_seq := n\<rparr>) = counts_ok d s"
  "counts_ok d (s\<lparr>db_click_seq := n\<rparr>) = counts_ok d s"
  by (simp_all add: counts_ok_def events_no_def)

lemma counts_ok_update:
  assumes "counts_ok d s" and "\<And>r. u_short_code (f r) = u_short_code r" and "\<And>r. u_click_count (f r) = u_click_count r"
  shows "counts_ok d (s\<lparr>db_urls := fst (update_where P f (db_urls s))\<rparr>)"
  using assms by (auto simp: counts_ok_def events_no_def set_update_where)

lemma counts_ok_insert:
  assumes "counts_ok d s" and "sql_inv s" and "insertable c m" and "sql_view s c = None"
  shows "counts_ok d (s\<lparr>db_urls := db_urls s @ [url_row_of c m]\<rparr>)"
proof -
  have "ce_short_code r \<noteq> c" if "r \<in> set (db_clicks s)" for r
    using assms(2,4) that by (force simp: sql_inv_def clicks_ok_def sql_view_None select_one_None)
  then have "events_no c s = 0" by (auto simp: events_no_def filter_empty_conv)
  then show ?thesis
    using assms(1,3) by (auto simp: counts_ok_def events_no_def url_row_of_def insertable_def)
qed

lemma counts_ok_delete:
  assumes "counts_ok d s" and "sql_inv s"
  shows "counts_ok d (fst (delete_urls P s))"
proof -
  have "events_no (u_short_code r) (fst (delete_urls P s)) = events_no (u_short_code r) s"
    if r: "r \<in> set (db_urls s)" "\<not> P r" for r
  proof -
    have "inj_on u_short_code (set (db_urls s))" using assms(2) by (simp add: sql_inv_def urls_ok_def distinct_map)
    then have "u_short_code r \<notin> u_short_code ` {q \<in> set (db_urls s). P q}" using r by (auto dest: inj_onD)
    then have "filter (\<lambda>q. ce_short_code q = u_short_code r) (filter (\<lambda>q. ce_short_code q \<notin> u_short_code ` {q \<in> set (db_urls s). P q}) (db_clicks s))
        = filter (\<lambda>q. ce_short_code q = u_short_code r) (db_clicks s)"
      unfolding filter_filter by (intro filter_cong) (auto simp: image_iff)
    then show ?thesis by (simp add: events_no_def)
  qed
  then show ?thesis using assms(1) by (auto simp: counts_ok_def delete_where_def)
qed

lemma counts_ok_click:
  assumes "counts_ok d s" and "sql_inv s"
  shows "counts_ok d ((update_code c (bump ev) s)\<lparr>db_clicks := db_clicks s @ [click_row_of n c ev]\<rparr>)"
proof -
  let ?s' = "(update_code c (bump ev) s)\<lparr>db_clicks := db_clicks s @ [click_row_of n c ev]\<rparr>"
  have no: "events_no x ?s' = events_no x s + (if x = c then 1 else 0)" for x
    by (simp add: events_no_def click_row_of_def)
  have "int (events_no (u_short_code r) ?s') \<le> u_click_count r \<and> (d \<le> 0 \<longrightarrow> int (events_no (u_short_code r) ?s') = u_click_count r)"
    if "r \<in> set (db_urls ?s')" for r
  proof -
    have "r \<in> set (fst (update_where (\<lambda>r. u_short_code r = c) (bump ev) (db_urls s)))"
      using that by (simp add: update_code_def)
    then obtain r0 where r0: "r0 \<in> set (db_urls s)" "r = (if u_short_code r0 = c then bump ev r0 else r0)"
      unfolding set_update_where by blast
    then have "u_short_code r = u_short_code r0" "u_click_count r = u_click_count r0 + (if u_short_code r0 = c then 1 else 0)"
      by (simp_all add: bump_def)
    then show ?thesis using assms(1) r0(1) by (auto simp: no counts_ok_def)
  qed
  then show ?thesis using assms(1) by (simp add: counts_ok_def update_code_def)
qed

lemma counts_ok_prune: "0 < d \<Longrightarrow> counts_ok d s \<Longrightarrow> counts_ok d (s\<lparr>db_clicks := filter P (db_clicks s)\<rparr>)"
proof -
  assume d: "0 < d" and ok: "counts_ok d s"
  have "length (filter Q (filter P xs)) \<le> length (filter Q xs)" for Q and xs :: "click_row list"
    by (induction xs) auto
  then have le: "int (events_no c (s\<lparr>db_clicks := filter P (db_clicks s)\<rparr>)) \<le> int (events_no c s)" for c
    by (simp add: events_no_def)
  show ?thesis using d ok by (simp add: counts_ok_def) (blast intro: order_trans [OF le])
qed

definition sql_good :: "duration \<Rightarrow> sql_store \<Rightarrow> bool" where
  "sql_good d s = (sql_inv s \<and> counts_ok d s)"

lemma sql_good_or: "fst x = s \<or> x = y \<Longrightarrow> sql_good d s \<Longrightarrow> sql_good d (fst y) \<Longrightarrow> sql_good d (fst x)"
  by auto

lemma good_set: "sql_good d s \<Longrightarrow> insertable c m \<Longrightarrow> sql_good d (fst (sq_Set no_fault c m s))"
  using sq.set_valid [of s c m] by (auto simp: sql_good_def sq_Set_ok counts_ok_insert)

lemma good_delete: "sql_good d s \<Longrightarrow> sql_good d (fst (sq_Delete no_fault c s))"
  by (simp add: sql_good_def sq_Delete_ok sql_inv_delete_urls counts_ok_delete)

lemma good_update_code: "sql_good d s \<Longrightarrow> (\<And>r. u_short_code (f r) = u_short_code r) \<Longrightarrow>
    (\<And>r. u_click_count (f r) = u_click_count r) \<Longrightarrow> sql_good d (update_code c f s)"
  by (simp add: sql_good_def update_code_inv) (simp add: update_code_def counts_ok_update)

lemma good_click: "sql_good d s \<Longrightarrow> sql_good d (fst (sq_RecordClick no_fault c ev s))"
  using sq_RecordClick_inv [of s c ev] counts_ok_click [of d s "db_click_seq s + 1" c ev]
  by (auto simp: sql_good_def sq_RecordClick_ok counts_ok_def events_no_def)

lemma good_create: "sql_good d s \<Longrightarrow> sql_good d (fst (sq_CreateAPIKey no_fault t l h s))"
proof (cases "sql_owner s h = None")
  case True
  assume good: "sql_good d s"
  from sq_create_key [OF _ True, of t l] good have "sql_inv (fst (sq_CreateAPIKey no_fault t l h s))"
    by (auto simp: sql_good_def)
  then show ?thesis using good by (auto simp: sql_good_def sq_CreateAPIKey_def Let_def)
next
  case False
  then show "sql_good d s \<Longrightarrow> ?thesis" by (simp add: sq_CreateAPIKey_def sql_owner_def)
qed

lemma good_lookup: "sql_good d s \<Longrightarrow> sql_good d (fst (sq_LookupAPIKey fl t h s))"
  using sq_lookup_frame [of s fl t h]
  by (auto simp: sql_good_def sq_LookupAPIKey_def Let_def split: option.splits)

lemma good_label: "sql_good d s \<Longrightarrow> sql_good d (fst (sq_UpdateAPIKeyLabel no_fault i l s))"
  by (simp add: sql_good_def sq_UpdateAPIKeyLabel_def Let_def case_prod_unfold sql_inv_keys keys_ok_update)
    (simp add: sql_inv_def keys_ok_update)

lemma good_revoke: "sql_good d s \<Longrightarrow> sql_good d (fst (sq_DeleteAPIKey no_fault i s))"
proof (cases "select_one ak_id i (db_keys s)")
  case None
  then show "sql_good d s \<Longrightarrow> ?thesis" by (simp add: sq_DeleteAPIKey_def Let_def case_prod_unfold)
next
  case (Some r)
  assume good: "sql_good d s"
  have "r \<in> set (db_keys s)" "ak_id r = i" using select_one_Some [OF Some] by simp_all
  then have own: "sql_owner s (ak_token_hash r) = Some i"
    using owner_unique [of s r] good by (simp add: sql_good_def sql_inv_def)
  have "sql_inv (fst (sq_DeleteAPIKey no_fault i s))"
    using sq_delete_key [OF _ own] good by (auto simp: sql_good_def)
  moreover have "counts_ok d (s\<lparr>db_urls := fst (update_where (\<lambda>r. u_api_key_id r = Some i) (\<lambda>r. r\<lparr>u_api_key_id := None\<rparr>) (db_urls s))\<rparr>)"
    using good by (intro counts_ok_update) (simp_all add: sql_good_def)
  ultimately show ?thesis using Some by (simp add: sql_good_def sq_DeleteAPIKey_def Let_def case_prod_unfold)
qed

lemma good_cleanup: "sql_good d s \<Longrightarrow> sql_good d (sq_cleanup fl t s)"
proof -
  assume good: "sql_good d s"
  let ?s1 = "case fl 0 of Some e \<Rightarrow> s | None \<Rightarrow> fst (delete_urls (\<lambda>r. case u_expires_at r of None \<Rightarrow> False
      | Some x \<Rightarrow> from_unix x < stored_time t) s)"
  have g1: "sql_good d ?s1"
    using good by (simp add: sql_good_def sql_inv_delete_urls counts_ok_delete split: option.split)
  then have "clickRetention ?s1 = d" by (simp add: sql_good_def counts_ok_def)
  then show ?thesis using g1
    by (auto simp: sq_cleanup_def Let_def sql_good_def delete_where_def prune_inv counts_ok_prune split: option.split)
qed

lemma good_cleanup_routine: "sql_good d s \<Longrightarrow> sql_good d (fst (sq_cleanup_routine fl i ws s))"
  by (induction fl i ws s rule: sq_cleanup_routine.induct) (simp_all add: good_cleanup)

lemma reach_good: "sq_reach d s \<Longrightarrow> sql_good d s"
proof (induction rule: sq_reach.induct)
  case reach_new
  have "sql_inv (sq_SetClickRetention d NewSQLiteStore)"
    by (simp add: sq_SetClickRetention_def sql_inv_def urls_ok_def clicks_ok_def keys_ok_def audit_ok_def NewSQLiteStore_def)
  then show ?case by (simp add: sql_good_def counts_ok_def sq_SetClickRetention_def NewSQLiteStore_def)
next
  case (reach_set s c m fl)
  show ?case by (rule sql_good_or [OF faults_all_or_nothing(1) reach_set.IH good_set [OF reach_set.IH reach_set.hyps(2)]])
next
  case (reach_delete s fl c)
  show ?case by (rule sql_good_or [OF faults_all_or_nothing(2) reach_delete.IH good_delete [OF reach_delete.IH]])
next
  case (reach_click s fl c ev)
  show ?case by (rule sql_good_or [OF faults_all_or_nothing(5) reach_click.IH good_click [OF reach_click.IH]])
next
  case (reach_update s fl t c f)
  have "sql_good d (fst (sq_Update no_fault t c f s))" using reach_update.IH by (simp add: sq_Update_ok good_update_code)
  then show ?case by (rule sql_good_or [OF faults_all_or_nothing(4) reach_update.IH])
next
  case (reach_rotate s fl c h)
  have "sql_good d (fst (sq_RotateToken no_fault c h s))" using reach_rotate.IH by (simp add: sq_RotateToken_ok good_update_code)
  then show ?case by (rule sql_good_or [OF faults_all_or_nothing(3) reach_rotate.IH])
next
  case (reach_create s fl t l h)
  show ?case by (rule sql_good_or [OF faults_all_or_nothing(6) reach_create.IH good_create [OF reach_create.IH]])
next
  case (reach_lookup s fl t h)
  then show ?case by (simp add: good_lookup)
next
  case (reach_revoke s fl i)
  show ?case by (rule sql_good_or [OF faults_all_or_nothing(7) reach_revoke.IH good_revoke [OF reach_revoke.IH]])
next
  case (reach_label s fl i l)
  show ?case by (rule sql_good_or [OF faults_all_or_nothing(8) reach_label.IH good_label [OF reach_label.IH]])
next
  case (reach_audit s fl t e)
  have "sql_good d (fst (sq_LogAudit no_fault t e s))"
    using reach_audit.IH sq.audit_valid [of s t e] by (simp add: sql_good_def sq_LogAudit_ok)
  then show ?case by (rule sql_good_or [OF faults_all_or_nothing(9) reach_audit.IH])
next
  case (reach_cleanup s fl t)
  then show ?case by (simp add: good_cleanup)
qed

text \<open>
  C16. In every state a SQLite store reaches from an empty database, whatever statements fail and
  whenever the cleanup goroutine ticks: the keys of the tables are unique, every click event
  belongs to a mapping that exists, and the counter of a mapping is at least the number of its
  events, and equal to it if no retention is set. A free code has no events, so its next owner
  starts from none.
\<close>
theorem sqlite_run_invariant:
  assumes "sq_reach d s"
  shows "sql_inv s
    \<and> (\<forall>c. case sql_view s c of
          None \<Rightarrow> events_no c s = 0
        | Some m \<Rightarrow> int (events_no c s) \<le> m_ClickCount m \<and> (0 < d \<or> int (events_no c s) = m_ClickCount m))"
proof -
  have good: "sql_inv s" "counts_ok d s" using reach_good [OF assms] by (simp_all add: sql_good_def)
  have "case sql_view s c of None \<Rightarrow> events_no c s = 0
      | Some m \<Rightarrow> int (events_no c s) \<le> m_ClickCount m \<and> (0 < d \<or> int (events_no c s) = m_ClickCount m)" for c
  proof (cases "select_one u_short_code c (db_urls s)")
    case None
    then have "ce_short_code r \<noteq> c" if "r \<in> set (db_clicks s)" for r
      using good(1) that by (force simp: sql_inv_def clicks_ok_def select_one_None)
    then show ?thesis using None by (auto simp: sql_view_def events_no_def filter_empty_conv)
  next
    case (Some r)
    then show ?thesis using good(2) select_one_Some [OF Some] by (auto simp: sql_view_def counts_ok_def not_less)
  qed
  then show ?thesis using good(1) by blast
qed

definition sqlite_clicked :: sql_store where
  "sqlite_clicked = fst (sq_RecordClick no_fault ''ab'' (sample_click 7)
     (fst (sq_RecordClick (\<lambda>i. if i = 3 then Some ''disk full'' else None) ''ab'' (sample_click 5)
       (fst (sq_Set no_fault ''ab'' (sample_mapping ''ab'') (sq_SetClickRetention 0 NewSQLiteStore))))))"

lemma sqlite_clicked_reach: "sq_reach 0 sqlite_clicked"
  unfolding sqlite_clicked_def
  by (intro reach_click reach_set reach_new) simp

theorem sqlite_run_invariant_witness:
  "case sql_view sqlite_clicked ''ab'' of None \<Rightarrow> False | Some m \<Rightarrow> m_ClickCount m = 1 \<and> events_no ''ab'' sqlite_clicked = 1"
proof -
  have "case sql_view sqlite_clicked ''ab'' of None \<Rightarrow> False | Some m \<Rightarrow> m_ClickCount m = 1" by code_simp
  then obtain m where m: "sql_view sqlite_clicked ''ab'' = Some m" "m_ClickCount m = 1" by (auto split: option.splits)
  have "case sql_view sqlite_clicked ''ab'' of None \<Rightarrow> events_no ''ab'' sqlite_clicked = 0
      | Some m \<Rightarrow> int (events_no ''ab'' sqlite_clicked) \<le> m_ClickCount m
        \<and> (0 < (0 :: int) \<or> int (events_no ''ab'' sqlite_clicked) = m_ClickCount m)"
    using sqlite_run_invariant [OF sqlite_clicked_reach] by blast
  then show ?thesis using m by simp
qed

theorem sqlite_all_or_nothing_witness:
  "fst (sq_RecordClick (\<lambda>i. if i = 3 then Some ''disk full'' else None) ''ab'' (sample_click 9) sqlite_clicked) = sqlite_clicked"
proof -
  let ?fl = "\<lambda>i. if i = 3 then Some ''disk full'' else None"
  have inv: "sql_inv sqlite_clicked" using reach_good [OF sqlite_clicked_reach] by (simp add: sql_good_def)
  have "snd (sq_RecordClick ?fl ''ab'' (sample_click 9) sqlite_clicked) \<noteq> None" by code_simp
  then show ?thesis using sqlite_all_or_nothing [OF inv, of ?fl "''ab''" "sample_click 9"] by simp
qed

section \<open>The histogram\<close>

lemma fold_groups:
  "length out = nat n \<Longrightarrow> fold (\<lambda>(i, x) acc. if 0 \<le> i \<and> i < n then acc[nat i := x] else acc) (map (\<lambda>i. (i, f i)) js) out
    = map (\<lambda>k. if int k \<in> set js then f (int k) else out ! k) [0..<nat n]"
proof (induction js arbitrary: out)
  case Nil
  then show ?case by (intro nth_equalityI) simp_all
next
  case (Cons j js)
  let ?out = "if 0 \<le> j \<and> j < n then out[nat j := f j] else out"
  have "length ?out = nat n" using Cons.prems by simp
  from Cons.IH [OF this] show ?case
    using Cons.prems by (intro nth_equalityI) (auto simp: nth_list_update)
qed

lemma count_list_map_filter: "count_list (map g (filter P xs)) y = length (filter (\<lambda>x. P x \<and> g x = y) xs)"
  by (induction xs) auto

lemma sq_buckets_eq:
  assumes "sql_view s c = Some m" and n: "0 < n" and b: "0 < b" and "n * b < 2 ^ 63"
    and range: "in_int64 (until - n * b)" "in_int64 until"
  shows "sq_ClicksByBucket no_fault c until b n s = Inr (map (\<lambda>i. int (length (filter (in_bucket (until - n * b) b i)
      (map scan_click (filter (\<lambda>r. ce_short_code r = c) (db_clicks s)))))) [0..<nat n])"
proof -
  let ?ws = "until - n * b"
  have "0 \<le> n * b" using assms by simp
  then have "in_int64 (- (n * b))" using assms(4) by (simp add: in_int64_def)
  then have w: "until + wrap64 (- n * b) = ?ws" by simp
  let ?idxs = "map (\<lambda>r. (from_unix (ce_clicked_at r) - ?ws) div b)
    (filter (\<lambda>r. ce_short_code r = c \<and> ?ws \<le> from_unix (ce_clicked_at r) \<and> from_unix (ce_clicked_at r) < until) (db_clicks s))"
  have "sq_ClicksByBucket no_fault c until b n s = Inr (fold (\<lambda>(i, x) acc. if 0 \<le> i \<and> i < n then acc[nat i := x] else acc)
      (map (\<lambda>i. (i, int (count_list ?idxs i))) (remdups ?idxs)) (replicate (nat n) 0))"
    using assms w by (auto simp: sq_ClicksByBucket_def sq_bucket_rows_def Let_def sq_Exists_at_def sql_view_def stored_time_id)
  also have "\<dots> = Inr (map (\<lambda>k. int (count_list ?idxs (int k))) [0..<nat n])"
    by (subst fold_groups) (auto simp: count_list_0_iff)
  also have "\<dots> = Inr (map (\<lambda>i. int (length (filter (in_bucket ?ws b i)
      (map scan_click (filter (\<lambda>r. ce_short_code r = c) (db_clicks s)))))) [0..<nat n])"
  proof -
    have "count_list ?idxs (int k) = length (filter (in_bucket ?ws b k)
        (map scan_click (filter (\<lambda>r. ce_short_code r = c) (db_clicks s))))" if "k < nat n" for k
    proof -
      have "(int k + 1) * b \<le> n * b" using that b by (intro mult_right_mono) auto
      moreover have "0 \<le> int k * b" using b by simp
      ultimately have "(?ws \<le> t \<and> t < until) \<and> (t - ?ws) div b = int k \<longleftrightarrow> ?ws + int k * b \<le> t \<and> t < ?ws + (int k + 1) * b" for t
        using div_eq_iff_int [OF b, of "t - ?ws" "int k"] by auto
      then show ?thesis
        by (simp add: count_list_map_filter filter_map comp_def in_bucket_def scan_click_def conj_assoc
            cong: conj_cong)
    qed
    then show ?thesis by simp
  qed
  finally show ?thesis .
qed

text \<open>
  The memory store's loop and the SQL query of the SQLite backend compute the same histogram:
  for a live code with the same click events, a window that fits in 64 bits and buckets of any
  width, \<^verbatim>\<open>ClicksByBucket\<close> answers the same counts.
\<close>
theorem histograms_agree:
  assumes "mem_view ms c = Some m" and "sql_view ss c = Some m'"
    and "events_of ms c = map scan_click (filter (\<lambda>r. ce_short_code r = c) (db_clicks ss))"
    and "0 < n" and "0 < b" and "n * b < 2 ^ 63" and "in_int64 (until - n * b)" and "in_int64 until"
  shows "mem_ClicksByBucket c until b n ms = sq_ClicksByBucket no_fault c until b n ss"
  using clicks_by_bucket_eq [OF assms(1,4,5,6)] sq_buckets_eq [OF assms(2,4-8)] assms(3) by simp

definition sqlite_twice :: sql_store where
  "sqlite_twice = fst (sq_RecordClick no_fault ''ab'' (sample_click 9) (fst (sq_RecordClick no_fault ''ab'' (sample_click 7)
     (fst (sq_Set no_fault ''ab'' (sample_mapping ''ab'') NewSQLiteStore)))))"

theorem histograms_agree_witness:
  "mem_ClicksByBucket ''ab'' 10 2 3 clicked_twice = sq_ClicksByBucket no_fault ''ab'' 10 2 3 sqlite_twice"
proof -
  have "sql_view sqlite_twice ''ab'' \<noteq> None" by code_simp
  then obtain m where m: "sql_view sqlite_twice ''ab'' = Some m" by blast
  have "map scan_click (filter (\<lambda>r. ce_short_code r = ''ab'') (db_clicks sqlite_twice)) = [sample_click 7, sample_click 9]"
    by code_simp
  then show ?thesis
    by (intro histograms_agree [OF clicked_twice_view m]) (simp_all add: clicked_twice_events in_int64_def)
qed

end
