(* ===== verification/Postgres.thy ===== *)
theory Postgres
  imports Sqlite_Props
begin

text \<open>
  The Postgres backend of \<^verbatim>\<open>services/storage_postgres.go\<close>, \<^verbatim>\<open>storage_postgres_apikey.go\<close> and
  \<^verbatim>\<open>storage_postgres_audit.go\<close>. Its tables are those of the SQLite backend, and most of its
  methods send the same statements with the same reactions to their results, up to the syntax of
  placeholders; those methods are the SQLite ones here. What differs is modelled: the numbered
  placeholders of \<^verbatim>\<open>Update\<close>, and that a failed or rolled-back \<^verbatim>\<open>INSERT\<close> uses up a value of
  its \<^verbatim>\<open>BIGSERIAL\<close> sequence.
\<close>

section \<open>Methods with the same statements\<close>

text \<open>\<^verbatim>\<open>ON CONFLICT DO NOTHING\<close> is \<^verbatim>\<open>INSERT OR IGNORE\<close>; the rows affected tell a conflict.\<close>

definition pg_Set :: "faults \<Rightarrow> string \<Rightarrow> url_mapping \<Rightarrow> sql_store \<Rightarrow> sql_store \<times> store_err option" where
  "pg_Set = sq_Set"
definition pg_Get :: "faults \<Rightarrow> time \<Rightarrow> string \<Rightarrow> sql_store \<Rightarrow> store_err + url_mapping" where
  "pg_Get = sq_Get"
definition pg_Delete :: "faults \<Rightarrow> string \<Rightarrow> sql_store \<Rightarrow> sql_store \<times> store_err option" where
  "pg_Delete = sq_Delete"
definition pg_Exists :: "faults \<Rightarrow> string \<Rightarrow> sql_store \<Rightarrow> bool" where
  "pg_Exists = sq_Exists"
definition pg_RotateToken :: "faults \<Rightarrow> string \<Rightarrow> bytes \<Rightarrow> sql_store \<Rightarrow> sql_store \<times> store_err option" where
  "pg_RotateToken = sq_RotateToken"
definition pg_RecentClicks :: "faults \<Rightarrow> string \<Rightarrow> int \<Rightarrow> sql_store \<Rightarrow> store_err + click_event list" where
  "pg_RecentClicks = sq_RecentClicks"
definition pg_ClicksByBucket ::
  "faults \<Rightarrow> string \<Rightarrow> time \<Rightarrow> duration \<Rightarrow> int \<Rightarrow> sql_store \<Rightarrow> store_err + int list" where
  "pg_ClicksByBucket = sq_ClicksByBucket"
definition pg_LookupAPIKey :: "faults \<Rightarrow> time \<Rightarrow> bytes \<Rightarrow> sql_store \<Rightarrow> sql_store \<times> (store_err + api_key)" where
  "pg_LookupAPIKey = sq_LookupAPIKey"
definition pg_GetAPIKey :: "faults \<Rightarrow> int \<Rightarrow> sql_store \<Rightarrow> store_err + api_key" where
  "pg_GetAPIKey = sq_GetAPIKey"
definition pg_DeleteAPIKey :: "faults \<Rightarrow> int \<Rightarrow> sql_store \<Rightarrow> sql_store \<times> store_err option" where
  "pg_DeleteAPIKey = sq_DeleteAPIKey"
definition pg_UpdateAPIKeyLabel :: "faults \<Rightarrow> int \<Rightarrow> string \<Rightarrow> sql_store \<Rightarrow> sql_store \<times> store_err option" where
  "pg_UpdateAPIKeyLabel = sq_UpdateAPIKeyLabel"
definition pg_ListURLsByAPIKey ::
  "faults \<Rightarrow> int \<Rightarrow> int \<Rightarrow> int \<Rightarrow> sql_store \<Rightarrow> store_err + url_mapping list" where
  "pg_ListURLsByAPIKey = sq_ListURLsByAPIKey"
definition pg_RecentAuditEvents :: "faults \<Rightarrow> int \<Rightarrow> int \<Rightarrow> sql_store \<Rightarrow> store_err + audit_event list" where
  "pg_RecentAuditEvents = sq_RecentAuditEvents"
definition pg_LogAudit :: "faults \<Rightarrow> time \<Rightarrow> audit_event \<Rightarrow> sql_store \<Rightarrow> sql_store \<times> store_err option" where
  "pg_LogAudit = sq_LogAudit"
definition pg_cleanup :: "faults \<Rightarrow> time \<Rightarrow> sql_store \<Rightarrow> sql_store" where
  "pg_cleanup = sq_cleanup"

definition pg_cleanup_routine :: "(nat \<Rightarrow> faults) \<Rightarrow> nat \<Rightarrow> wake list \<Rightarrow> sql_store \<Rightarrow> sql_store \<times> bool" where
  "pg_cleanup_routine = sq_cleanup_routine"
definition pg_Close :: "bool \<Rightarrow> 'e option \<Rightarrow> 'e option option" where
  "pg_Close = sq_Close"

lemmas pg_same_defs = pg_Set_def pg_Get_def pg_Delete_def pg_Exists_def pg_RotateToken_def pg_RecentClicks_def
  pg_ClicksByBucket_def pg_LookupAPIKey_def pg_GetAPIKey_def pg_DeleteAPIKey_def pg_UpdateAPIKeyLabel_def
  pg_ListURLsByAPIKey_def pg_RecentAuditEvents_def pg_LogAudit_def pg_cleanup_def

section \<open>The statement of Update\<close>

text \<open>
  A fragment of \<^verbatim>\<open>sets\<close> is a column with the number of its placeholder. \<open>next\<close> appends a nil
  argument and returns its number; the argument is filled in by index afterwards.
\<close>

type_synonym pg_builder = "(string \<times> nat) list \<times> sql_value list"

definition next_placeholder :: "sql_value list \<Rightarrow> sql_value list \<times> nat" where
  "next_placeholder args = (let args1 = args @ [VNull] in (args1, length args1))"

definition pg_put1 :: "string \<Rightarrow> sql_value \<Rightarrow> pg_builder \<Rightarrow> pg_builder" where
  "pg_put1 c v b =
     (let (args, n) = next_placeholder (snd b)
      in (fst b @ [(c, n)], args[length args - 1 := v]))"

definition pg_put2 :: "string \<Rightarrow> string \<Rightarrow> sql_value \<Rightarrow> sql_value \<Rightarrow> pg_builder \<Rightarrow> pg_builder" where
  "pg_put2 c1 c2 v1 v2 b =
     (let (args1, n1) = next_placeholder (snd b);
          (args2, n2) = next_placeholder args1
      in (fst b @ [(c1, n1), (c2, n2)], args2[length args2 - 2 := v1, length args2 - 1 := v2]))"

definition pg_build :: "time \<Rightarrow> update_fields \<Rightarrow> pg_builder" where
  "pg_build now f = build_update pg_put1 pg_put2 now f ([], [])"

text \<open>Executing a statement: the placeholder \<^verbatim>\<open>$n\<close> stands for the \<open>n\<close>-th argument.\<close>

definition pg_bind :: "pg_builder \<Rightarrow> (string \<times> sql_value) list" where
  "pg_bind b = map (\<lambda>(c, n). (c, snd b ! (n - 1))) (fst b)"

definition pg_exec_update :: "(string \<times> nat) list \<Rightarrow> nat \<Rightarrow> sql_value list \<Rightarrow> url_row list \<Rightarrow> url_row list \<times> nat" where
  "pg_exec_update sets code_n args rows =
     update_where (\<lambda>r. VText (u_short_code r) = args ! (code_n - 1)) (set_columns (pg_bind (sets, args))) rows"

definition pg_Update :: "faults \<Rightarrow> time \<Rightarrow> string \<Rightarrow> update_fields \<Rightarrow> sql_store \<Rightarrow> sql_store \<times> store_err option" where
  "pg_Update fl now code f s =
     (let (sets, args) = pg_build now f
      in if sets = [] then (s, if sq_Exists_at fl 0 code s then None else Some ErrNotFound)
         else (let args1 = args @ [VText code]
           in case fl 0 of
             Some e \<Rightarrow> (s, Some (ErrBackend e))
           | None \<Rightarrow>
               (let (rows, n) = pg_exec_update sets (length args1) args1 (db_urls s)
                in if n = 0 then (s\<lparr>db_urls := rows\<rparr>, Some ErrNotFound) else (s\<lparr>db_urls := rows\<rparr>, None))))"

text \<open>The placeholders are numbered without gaps, so every column is bound to its own argument.\<close>

definition pg_wf :: "pg_builder \<Rightarrow> bool" where
  "pg_wf b = (map snd (fst b) = [1..<length (snd b) + 1])"

lemma pg_wf_length: "pg_wf b \<Longrightarrow> length (fst b) = length (snd b)"
  unfolding pg_wf_def by (metis add_diff_cancel_right' length_map length_upt)

lemma pg_wf_less: "pg_wf b \<Longrightarrow> (c, n) \<in> set (fst b) \<Longrightarrow> 1 \<le> n \<and> n - 1 < length (snd b)"
proof -
  assume wf: "pg_wf b" and mem: "(c, n) \<in> set (fst b)"
  from mem have "n \<in> set (map snd (fst b))" by force
  then have "n \<in> {1..<length (snd b) + 1}" using wf by (simp only: pg_wf_def set_upt)
  then show ?thesis by auto
qed

lemma pg_bind_append: "pg_wf b \<Longrightarrow> pg_bind (fst b @ xs, snd b @ ys) = pg_bind b @ pg_bind (xs, snd b @ ys)"
  unfolding pg_bind_def by (auto simp: nth_append dest!: pg_wf_less)

lemma pg_put1_eq: "pg_put1 c v b = (fst b @ [(c, length (snd b) + 1)], snd b @ [v])"
  by (simp add: pg_put1_def next_placeholder_def Let_def list_update_append)

lemma pg_put2_eq: "pg_put2 c1 c2 v1 v2 b =
    (fst b @ [(c1, length (snd b) + 1), (c2, length (snd b) + 2)], snd b @ [v1, v2])"
  by (simp add: pg_put2_def next_placeholder_def Let_def list_update_append)

interpretation pg_stmt: statement_builder pg_put1 pg_put2 pg_wf pg_bind
proof (unfold_locales, goal_cases)
  case (1 b c v)
  then show ?case by (simp add: pg_put1_eq pg_wf_def)
next
  case (2 b c v)
  then show ?case by (simp add: pg_put1_eq pg_bind_append) (simp add: pg_bind_def)
next
  case (3 b c1 c2 v1 v2)
  then show ?case by (simp add: pg_put2_eq pg_wf_def)
next
  case (4 b c1 c2 v1 v2)
  then show ?case by (simp add: pg_put2_eq pg_bind_append) (simp add: pg_bind_def nth_append)
qed

lemma pg_bind_snoc: "pg_wf (sets, args) \<Longrightarrow> pg_bind (sets, args @ [x]) = pg_bind (sets, args)"
  using pg_bind_append [of "(sets, args)" "[]" "[x]"] by (simp add: pg_bind_def)

section \<open>Inserts\<close>

text \<open>\<^verbatim>\<open>nextval\<close> is not rolled back: a violated \<^verbatim>\<open>UNIQUE\<close> column has used up an ID.\<close>

definition pg_unique_failed :: string where
  "pg_unique_failed = ''ERROR: duplicate key value violates unique constraint \"api_keys_token_hash_key\" (SQLSTATE 23505)''"

definition pg_CreateAPIKey ::
  "faults \<Rightarrow> time \<Rightarrow> string \<Rightarrow> bytes \<Rightarrow> sql_store \<Rightarrow> sql_store \<times> (store_err + api_key)" where
  "pg_CreateAPIKey fl now label tokenHash s =
     (case fl 0 of
        Some e \<Rightarrow> (s, Inl (ErrBackend e))
      | None \<Rightarrow>
          (let i = db_key_seq s + 1;
               row = \<lparr>ak_id = i, ak_token_hash = tokenHash, ak_label = nullableText label,
                      ak_created_at = UnixNano now, ak_last_used_at = None\<rparr>
           in if select_one ak_token_hash tokenHash (db_keys s) \<noteq> None
              then (s\<lparr>db_key_seq := i\<rparr>, Inl (ErrBackend pg_unique_failed))
              else (s\<lparr>db_key_seq := i, db_keys := db_keys s @ [row]\<rparr>,
                    Inr \<lparr>k_ID = i, k_TokenHash = tokenHash, k_Label = label, k_CreatedAt = now,
                         k_LastUsedAt = None\<rparr>)))"

text \<open>The transaction of a click; when its \<^verbatim>\<open>Commit\<close> fails, the rollback leaves the sequence advanced.\<close>

definition pg_RecordClick :: "faults \<Rightarrow> string \<Rightarrow> click_event \<Rightarrow> sql_store \<Rightarrow> sql_store \<times> store_err option" where
  "pg_RecordClick fl code ev s =
     (case fl 0 of
        Some e \<Rightarrow> (s, Some (ErrBackend e))
      | None \<Rightarrow> case fl 1 of
        Some e \<Rightarrow> (s, Some (ErrBackend e))
      | None \<Rightarrow>
          (let (rows, n) = update_where (\<lambda>r. u_short_code r = code)
             (\<lambda>r. r\<lparr>u_click_count := u_click_count r + 1, u_last_accessed := Some (UnixNano (ev_At ev))\<rparr>) (db_urls s)
           in if n = 0 then (s, Some ErrNotFound)
              else case fl 2 of
                Some e \<Rightarrow> (s, Some (ErrBackend e))
              | None \<Rightarrow> case fl 3 of
                Some e \<Rightarrow> (s\<lparr>db_click_seq := db_click_seq s + 1\<rparr>, Some (ErrBackend e))
              | None \<Rightarrow> (s\<lparr>db_urls := rows, db_click_seq := db_click_seq s + 1,
                    db_clicks := db_clicks s @ [click_row_of (db_click_seq s + 1) code ev]\<rparr>, None)))"

section \<open>The method table\<close>

definition pg_ops :: "faults \<Rightarrow> sql_store store_ops" where
  "pg_ops fl = \<lparr>st_Set = pg_Set fl, st_Get = pg_Get fl, st_Delete = pg_Delete fl, st_Exists = pg_Exists fl,
     st_RecordClick = pg_RecordClick fl, st_RecentClicks = pg_RecentClicks fl, st_Update = pg_Update fl,
     st_ClicksByBucket = pg_ClicksByBucket fl, st_RotateToken = pg_RotateToken fl,
     st_CreateAPIKey = pg_CreateAPIKey fl, st_LookupAPIKey = pg_LookupAPIKey fl, st_GetAPIKey = pg_GetAPIKey fl,
     st_DeleteAPIKey = pg_DeleteAPIKey fl, st_UpdateAPIKeyLabel = pg_UpdateAPIKeyLabel fl,
     st_ListURLsByAPIKey = pg_ListURLsByAPIKey fl, st_LogAudit = pg_LogAudit fl,
     st_RecentAuditEvents = pg_RecentAuditEvents fl\<rparr>"

lemma pg_Update_eq: "pg_Update fl = sq_Update fl"
proof (intro ext)
  fix now code f s
  obtain sets args where b: "pg_build now f = (sets, args)" by (cases "pg_build now f")
  from pg_stmt.build_assignments [of "([], [])" now f] have wf: "pg_wf (sets, args)" and asg: "pg_bind (sets, args) = assignments now f"
    by (simp_all add: pg_build_def [symmetric] b pg_wf_def pg_bind_def)
  have empty: "sets = [] \<longleftrightarrow> assignments now f = []" using asg by (auto simp: pg_bind_def)
  have "pg_exec_update sets (length (args @ [VText code])) (args @ [VText code]) rows
      = update_where (\<lambda>r. u_short_code r = code) (set_columns (assignments now f)) rows" for rows
    by (simp add: pg_exec_update_def pg_bind_snoc [OF wf] asg nth_append)
  then show "pg_Update fl now code f s = sq_Update fl now code f s"
    by (simp add: pg_Update_def sq_Update_def b sq_build_eq sq_exec_update_eq empty split: option.split)
qed

lemma pg_RecordClick_ok: "pg_RecordClick no_fault = sq_RecordClick no_fault"
  by (intro ext) (simp add: pg_RecordClick_def sq_RecordClick_def Let_def split: prod.split)

lemma pg_CreateAPIKey_ok: "sql_owner s h = None \<Longrightarrow> pg_CreateAPIKey no_fault t l h s = sq_CreateAPIKey no_fault t l h s"
  by (simp add: pg_CreateAPIKey_def sq_CreateAPIKey_def sql_owner_def Let_def)

lemma pg_ops_sel [simp]:
  "st_Set (pg_ops fl) = st_Set (sq_ops fl)" "st_Get (pg_ops fl) = st_Get (sq_ops fl)"
  "st_Delete (pg_ops fl) = st_Delete (sq_ops fl)" "st_Exists (pg_ops fl) = st_Exists (sq_ops fl)"
  "st_RecordClick (pg_ops fl) = pg_RecordClick fl" "st_RecentClicks (pg_ops fl) = st_RecentClicks (sq_ops fl)"
  "st_Update (pg_ops fl) = st_Update (sq_ops fl)" "st_ClicksByBucket (pg_ops fl) = st_ClicksByBucket (sq_ops fl)"
  "st_RotateToken (pg_ops fl) = st_RotateToken (sq_ops fl)" "st_CreateAPIKey (pg_ops fl) = pg_CreateAPIKey fl"
  "st_LookupAPIKey (pg_ops fl) = st_LookupAPIKey (sq_ops fl)" "st_GetAPIKey (pg_ops fl) = st_GetAPIKey (sq_ops fl)"
  "st_DeleteAPIKey (pg_ops fl) = st_DeleteAPIKey (sq_ops fl)"
  "st_UpdateAPIKeyLabel (pg_ops fl) = st_UpdateAPIKeyLabel (sq_ops fl)"
  "st_ListURLsByAPIKey (pg_ops fl) = st_ListURLsByAPIKey (sq_ops fl)" "st_LogAudit (pg_ops fl) = st_LogAudit (sq_ops fl)"
  "st_RecentAuditEvents (pg_ops fl) = st_RecentAuditEvents (sq_ops fl)"
  by (simp_all add: pg_ops_def pg_same_defs pg_Update_eq)

text \<open>The contract holds for Postgres because the methods it speaks of behave alike.\<close>

interpretation pg: serial_store "pg_ops no_fault" sql_inv sql_view stored_time sql_owner "pg_cleanup no_fault" db_key_seq
proof (unfold_locales, unfold pg_ops_sel pg_RecordClick_ok pg_cleanup_def, fold sq_ops_sel, goal_cases)
  case 1 then show ?case by (rule sq.set_fresh)
next
  case 2 then show ?case by (rule sq.set_conflict)
next
  case 3 then show ?case by (rule sq.set_valid)
next
  case 4 then show ?case by (rule sq.get_spec)
next
  case 5 then show ?case by (rule sq.exists_spec)
next
  case 6 then show ?case by (rule sq.delete_view)
next
  case 7 then show ?case by (rule sq.delete_result)
next
  case 8 then show ?case by (rule sq.delete_valid)
next
  case 9 then show ?case by (rule sq.click_view)
next
  case 10 then show ?case by (rule sq.click_result)
next
  case 11 then show ?case by (rule sq.click_valid)
next
  case 12 then show ?case by (rule sq.update_view)
next
  case 13 then show ?case by (rule sq.update_result)
next
  case 14 then show ?case by (rule sq.update_valid)
next
  case 15 then show ?case by (rule sq.rotate_view)
next
  case 16 then show ?case by (rule sq.rotate_result)
next
  case 17 then show ?case by (rule sq.rotate_valid)
next
  case 18 then show ?case by (rule sq.audit_view)
next
  case 19 then show ?case by (rule sq.audit_valid)
next
  case 20 then show ?case by (rule sq.owner_pos)
next
  case 21 then show ?case by (rule sq.lookup_miss)
next
  case 22 then show ?case by (rule sq.lookup_hit)
next
  case 23 then show ?case by (rule sq.lookup_view)
next
  case 24 then show ?case by (rule sq.lookup_owner)
next
  case 25 then show ?case by (rule sq.lookup_valid)
next
  case 26 then show ?case by (rule sq.set_owner)
next
  case 27 then show ?case by (rule sq.delete_owner)
next
  case 28 then show ?case by (rule sq.click_owner)
next
  case 29 then show ?case by (rule sq.update_owner)
next
  case 30 then show ?case by (rule sq.rotate_owner)
next
  case 31 then show ?case by (rule sq.audit_owner)
next
  case (32 s h t l) then show ?case using sq_create_key [of s h t l] pg_CreateAPIKey_ok [of s h t l] by simp
next
  case 33 then show ?case by (rule sq.delete_key)
next
  case 34 then show ?case by (rule sq.label_key)
next
  case 35 then show ?case by (rule sq.cleanup_valid)
next
  case 36 then show ?case by (rule sq.cleanup_view)
next
  case 37 then show ?case by (rule sq.stored_normal)
next
  case 38 then show ?case by (rule sq.owner_issued)
next
  case (39 s h t l s' k) then show ?case by (auto simp: pg_CreateAPIKey_def sql_owner_def Let_def)
next
  case 40 then show ?case by (rule sq.delete_key_gone)
next
  case 41 then show ?case by (rule sq.label_key_gone)
next
  case 42 then show ?case by (rule sq.cleanup_owner)
next
  case 43 then show ?case by (rule sq.set_issued)
next
  case 44 then show ?case by (rule sq.delete_issued)
next
  case 45 then show ?case by (rule sq.click_issued)
next
  case 46 then show ?case by (rule sq.update_issued)
next
  case 47 then show ?case by (rule sq.rotate_issued)
next
  case 48 then show ?case by (rule sq.audit_issued)
next
  case 49 then show ?case by (rule sq.lookup_issued)
next
  case 50 then show ?case by (rule sq.delete_key_issued)
next
  case 51 then show ?case by (rule sq.label_key_issued)
next
  case 52 then show ?case by (rule sq.cleanup_issued)
qed

text \<open>
  C18. The \<^verbatim>\<open>UPDATE\<close> statement Postgres is sent binds every column to its own argument: whatever
  fields are set, the placeholders are numbered 1, 2, ... without gaps, the columns with the
  arguments they stand for are exactly the assignments the payload asks for, and the last
  placeholder is the code. So \<^verbatim>\<open>Update\<close> does what SQLite's positional version does, for any
  state and any failing statement.
\<close>
theorem pg_update_binds:
  "(case pg_build now f of (sets, args) \<Rightarrow>
      map snd sets = [1..<length args + 1]
      \<and> map (\<lambda>(c, n). (c, (args @ [VText code]) ! (n - 1))) sets = assignments now f
      \<and> (args @ [VText code]) ! (length (args @ [VText code]) - 1) = VText code)
   \<and> pg_Update fl now code f s = sq_Update fl now code f s"
proof -
  obtain sets args where b: "pg_build now f = (sets, args)" by (cases "pg_build now f")
  from pg_stmt.build_assignments [of "([], [])" now f] have wf: "pg_wf (sets, args)" and asg: "pg_bind (sets, args) = assignments now f"
    by (simp_all add: pg_build_def [symmetric] b pg_wf_def pg_bind_def)
  have "pg_bind (sets, args @ [VText code]) = assignments now f" using pg_bind_snoc [OF wf] asg by simp
  then show ?thesis using wf by (simp add: b pg_wf_def pg_bind_def pg_Update_eq del: upt_Suc)
qed

end
