(* ===== verification/Server_Props.thy ===== *)
theory Server_Props
  imports Server Postgres
begin

text \<open>
  What the server as a whole guarantees over any run of the process: what can happen to a link its
  owner leaves alone, and that it can still be followed. The lemmas are proved once over the
  contract of the stores (\<open>cleaned_store\<close>); the theorems here are for the memory backend, those for
  the SQL backends are in \<^verbatim>\<open>Server_Backends\<close>.
\<close>

section \<open>What may happen to a link\<close>

text \<open>
  Left alone, a mapping only gathers clicks and a preview, and may lose its binding to a key that
  is revoked.
\<close>

definition same_link :: "url_mapping \<Rightarrow> url_mapping \<Rightarrow> bool" where
  "same_link m m' = (m' = m\<lparr>m_ClickCount := m_ClickCount m', m_LastAccessed := m_LastAccessed m',
       m_PreviewTitle := m_PreviewTitle m', m_PreviewImage := m_PreviewImage m',
       m_PreviewDescription := m_PreviewDescription m', m_PreviewFetchedAt := m_PreviewFetchedAt m',
       m_APIKeyID := m_APIKeyID m'\<rparr>
     \<and> m_ClickCount m \<le> m_ClickCount m' \<and> (m_APIKeyID m' = m_APIKeyID m \<or> m_APIKeyID m' = 0))"

definition link_kept :: "string \<Rightarrow> (string \<Rightarrow> url_mapping option) \<Rightarrow> (string \<Rightarrow> url_mapping option) \<Rightarrow> bool" where
  "link_kept c v v' = (\<forall>m. v c = Some m \<longrightarrow> (\<exists>m'. v' c = Some m' \<and> same_link m m'))"

lemma same_link_fields:
  "same_link m m' \<Longrightarrow> m_OriginalURL m' = m_OriginalURL m \<and> m_ExpiresAt m' = m_ExpiresAt m \<and> m_MaxClicks m' = m_MaxClicks m
     \<and> m_PasswordHash m' = m_PasswordHash m \<and> m_Destinations m' = m_Destinations m \<and> m_OwnerTokenHash m' = m_OwnerTokenHash m"
  unfolding same_link_def by (cases m; cases m') simp

lemma same_link_refl: "same_link m m"
  by (simp add: same_link_def)

lemma same_link_trans: "same_link a b \<Longrightarrow> same_link b c \<Longrightarrow> same_link a c"
  unfolding same_link_def by (cases a; cases b; cases c) auto

lemma same_link_steps: "same_link m (click_mapping ev m)" "same_link m (with_preview p t m)" "same_link m (m\<lparr>m_APIKeyID := 0\<rparr>)"
  by (simp_all add: same_link_def click_mapping_def with_preview_def)

text \<open>A mapping a backend holds already has the times the backend keeps.\<close>

lemma norm_stored_steps:
  assumes "norm_mapping norm m = m"
  shows "norm_mapping norm (click_mapping ev m) = click_mapping (ev\<lparr>ev_At := norm (ev_At ev)\<rparr>) m"
    and "norm_mapping norm (with_preview p t m) = with_preview p (norm t) m"
  using assms by (cases m; simp add: norm_mapping_def click_mapping_def with_preview_def)+

lemma link_kept_trans: "link_kept c u v \<Longrightarrow> link_kept c v w \<Longrightarrow> link_kept c u w"
  unfolding link_kept_def using same_link_trans by blast

lemma link_kept_same: "v' c = v c \<Longrightarrow> link_kept c v v'"
  by (simp add: link_kept_def same_link_refl)

lemma link_kept_released: "link_kept c v (released i v)"
  by (auto simp: link_kept_def released_def same_link_refl same_link_steps)

section \<open>Who acts on a link\<close>

text \<open>
  The definitions below are over any backend, given by its operations, its cleanup pass and what
  these mean: the mappings it holds (\<open>view\<close>), the keys (\<open>owner\<close>) and what it keeps of a time
  (\<open>norm\<close>).
\<close>

abbreviation store_of :: "'s server \<Rightarrow> 's" where
  "store_of sv \<equiv> rs_store (sv_state sv)"

definition server_ok :: "('s \<Rightarrow> bool) \<Rightarrow> 's server \<Rightarrow> bool" where
  "server_ok valid sv = (valid (store_of sv) \<and> hooks_ok (sv_state sv))"

text \<open>A request of the owner of \<open>c\<close>, or of a key the mapping is bound to.\<close>

definition owner_acts ::
  "('s \<Rightarrow> string \<Rightarrow> url_mapping option) \<Rightarrow> ('s \<Rightarrow> bytes \<Rightarrow> int option) \<Rightarrow> string \<Rightarrow> inputs \<Rightarrow> endpoint \<Rightarrow> request \<Rightarrow> 's \<Rightarrow> bool" where
  "owner_acts view owner c i e r s = (e \<in> {DeleteE, PatchE, RotateE} \<and> r_Code r = c
     \<and> (\<exists>m. may_act (view s) (owner s) (in_env i) (in_clk i 0) r m))"

text \<open>The token a request to create a key draws is not that of a live key.\<close>

definition fresh_key :: "('s \<Rightarrow> bytes \<Rightarrow> int option) \<Rightarrow> inputs \<Rightarrow> endpoint \<Rightarrow> request \<Rightarrow> 's \<Rightarrow> bool" where
  "fresh_key owner i e r s = (\<forall>b. e = KeysE \<longrightarrow> r_Method r = ''POST'' \<longrightarrow> in_rnd i = Some b
     \<longrightarrow> owner s (e_sha256 (in_env i) (RawURLEncode b)) = None)"

text \<open>
  The events that may take a link away from its code or change where it leads: a routed request
  of its owner to delete, patch or rotate it, and a cleanup pass after its expiry.
\<close>

definition acts_on ::
  "('s \<Rightarrow> string \<Rightarrow> url_mapping option) \<Rightarrow> ('s \<Rightarrow> bytes \<Rightarrow> int option) \<Rightarrow> (time \<Rightarrow> time) \<Rightarrow> string \<Rightarrow> event \<Rightarrow> 's server \<Rightarrow> bool" where
  "acts_on view owner norm c ev sv =
     (case ev of
        Request i r \<Rightarrow> (case dispatch True (r_Method r) (in_path i) of
            Routed pat gs e bs \<Rightarrow> owner_acts view owner c i e (bound_request i r bs) (store_of sv)
          | _ \<Rightarrow> False)
      | CleanupTick t \<Rightarrow> (case view (store_of sv) c of None \<Rightarrow> False | Some m \<Rightarrow> expired_at (norm t) m)
      | _ \<Rightarrow> False)"

definition fresh_event :: "('s \<Rightarrow> bytes \<Rightarrow> int option) \<Rightarrow> event \<Rightarrow> 's server \<Rightarrow> bool" where
  "fresh_event owner ev sv =
     (case ev of
        Request i r \<Rightarrow> (case dispatch True (r_Method r) (in_path i) of
            Routed pat gs e bs \<Rightarrow> fresh_key owner i e (bound_request i r bs) (store_of sv)
          | _ \<Rightarrow> True)
      | _ \<Rightarrow> True)"

inductive server_run ::
  "'s store_ops \<Rightarrow> (time \<Rightarrow> 's \<Rightarrow> 's) \<Rightarrow> ('s \<Rightarrow> bytes \<Rightarrow> int option) \<Rightarrow> wiring \<Rightarrow> 's server \<Rightarrow> event list \<Rightarrow> 's server \<Rightarrow> bool"
  for ops cleanup owner w where
  rest: "server_run ops cleanup owner w sv [] sv"
| step: "fresh_event owner ev sv \<Longrightarrow> server_run ops cleanup owner w (server_step ops cleanup w ev sv) evs sv' \<Longrightarrow>
    server_run ops cleanup owner w sv (ev # evs) sv'"

inductive_cases server_run_ConsE: "server_run ops cleanup owner w sv (ev # evs) sv'"

fun left_alone ::
  "'s store_ops \<Rightarrow> (time \<Rightarrow> 's \<Rightarrow> 's) \<Rightarrow> ('s \<Rightarrow> string \<Rightarrow> url_mapping option) \<Rightarrow> ('s \<Rightarrow> bytes \<Rightarrow> int option) \<Rightarrow> (time \<Rightarrow> time)
    \<Rightarrow> wiring \<Rightarrow> string \<Rightarrow> event list \<Rightarrow> 's server \<Rightarrow> bool" where
  "left_alone ops cleanup view owner norm w c [] sv = True"
| "left_alone ops cleanup view owner norm w c (ev # evs) sv = (\<not> acts_on view owner norm c ev sv
     \<and> left_alone ops cleanup view owner norm w c evs (server_step ops cleanup w ev sv))"

section \<open>One request\<close>

lemma server_ok_frames [simp]:
  "server_ok valid (sv\<lparr>sv_unfurler := u\<rparr>) = server_ok valid sv" "server_ok valid (sv\<lparr>sv_writeLimiter := l\<rparr>) = server_ok valid sv"
  "server_ok valid (sv\<lparr>sv_readLimiter := l\<rparr>) = server_ok valid sv"
  by (simp_all add: server_ok_def)

lemma set_store_sel [simp]: "store_of (set_store s sv) = s" "sv_unfurler (set_store s sv) = sv_unfurler sv"
  "server_ok valid sv \<Longrightarrow> server_ok valid (set_store s sv) = valid s"
  by (simp_all add: set_store_def server_ok_def hooks_ok_def)

lemma with_store_rule:
  assumes "with_store A f sv = (sv', a)" and "server_ok valid sv"
    and "\<And>s reply. f (store_of sv) = (s, reply) \<Longrightarrow> valid s \<and> P s"
  shows "server_ok valid sv' \<and> P (store_of sv')"
proof -
  obtain s reply where f: "f (store_of sv) = (s, reply)" by (cases "f (store_of sv)")
  then have "sv' = set_store s sv" using assms(1) by (simp add: with_store_def)
  then show ?thesis using assms(2,3) f by simp
qed

lemma with_jobs_rule:
  assumes "with_jobs A f sv = (sv', a)" and "server_ok valid sv"
    and "\<And>s jobs reply. f (store_of sv) = (s, jobs, reply) \<Longrightarrow> valid s \<and> P s"
  shows "server_ok valid sv' \<and> P (store_of sv')"
proof -
  obtain s jobs reply where f: "f (store_of sv) = (s, jobs, reply)" by (cases "f (store_of sv)")
  then have "sv' = (set_store s sv)\<lparr>sv_unfurler := map_option (enqueue_jobs jobs) (sv_unfurler sv)\<rparr>"
    using assms(1) by (simp add: with_jobs_def)
  then show ?thesis using assms(2,3) f by simp
qed

text \<open>A property of the store that every creation keeps, the bulk endpoint keeps.\<close>

lemma bulk_loop_rule:
  assumes "bulk_loop ops cfg env dr clk key reqID i items resp s = (s', jobs, resp')" and "P s"
    and "\<And>i item s s' jobs res. P s \<Longrightarrow> shortenOne ops cfg env (dr i) (clk i) item key reqID s = (s', jobs, res) \<Longrightarrow> P s'"
  shows "P s'"
  using assms(1,2)
proof (induction items arbitrary: i resp s jobs)
  case (Cons item items)
  obtain s1 j1 res where one: "shortenOne ops cfg env (dr i) (clk i) item key reqID s = (s1, j1, res)" by (metis prod.exhaust)
  obtain resp1 j2 where "bulk_loop ops cfg env dr clk key reqID (Suc i) items resp1 s1 = (s', j2, resp')"
    using Cons.prems(1) one by (auto simp: Let_def split: prod.splits)
  then show ?case using Cons.IH assms(3) [OF Cons.prems(2) one] by blast
qed simp

lemma dispatch_read: "dispatch ok meth path = Routed pat gs e bs \<Longrightarrow> dispatch True meth path = Routed pat gs e bs"
  using dispatch_Routed [of ok meth path pat gs e bs] by simp

lemma guards_answer: "run_guards w i r gs l = (l', Some x) \<Longrightarrow> x = MissingHeader \<or> (\<exists>n. x = TooManyRequests n)"
proof (induction gs arbitrary: l)
  case (Cons q gs)
  show ?case
  proof (cases q)
    case WriteLimiter
    obtain l2 y where lm: "limit_Middleware (n_ip (in_env i)) (w_trustProxy w) (fst (in_writeClk i)) (snd (in_writeClk i)) r l = (l2, y)"
      by (rule prod.exhaust)
    show ?thesis
    proof (cases y)
      case (Inl n)
      then show ?thesis using Cons.prems by (auto simp: WriteLimiter lm)
    next
      case (Inr u)
      then have "run_guards w i r gs l2 = (l', Some x)" using Cons.prems by (simp add: WriteLimiter lm split: unit.splits)
      then show ?thesis by (rule Cons.IH)
    qed
  next
    case XHRHeader
    then have "x = MissingHeader \<or> run_guards w i r gs l = (l', Some x)" using Cons.prems by (simp split: if_splits)
    then show ?thesis using Cons.IH by blast
  qed
qed simp

text \<open>A request either stops before a handler, with the store as it was, or is its handler's.\<close>

lemma request_cases:
  obtains (stopped) "store_of (fst (server_request ops w i r sv)) = store_of sv"
      "server_ok valid (fst (server_request ops w i r sv)) = server_ok valid sv"
      "\<And>x. snd (server_request ops w i r sv) \<noteq> ShortenA x"
  | (handled) rl wl pat gs e bs where "dispatch True (r_Method r) (in_path i) = Routed pat gs e bs"
      "server_request ops w i r sv
        = handle ops w i e (bound_request i r bs) (sv\<lparr>sv_readLimiter := rl, sv_writeLimiter := wl\<rparr>)"
proof -
  obtain rl refused where rl: "read_limit w i r (sv_readLimiter sv) = (rl, refused)" by fastforce
  show thesis
  proof (cases "dispatch (refused = None) (r_Method r) (in_path i)")
    case (Routed pat gs e bs)
    obtain wl stop where g: "run_guards w i r gs (sv_writeLimiter sv) = (wl, stop)" by fastforce
    show thesis
    proof (cases stop)
      case None
      then show thesis using rl Routed g dispatch_read [OF Routed] by (intro handled) (simp_all add: server_request_def)
    next
      case (Some a)
      then show thesis using rl Routed g guards_answer [OF g [unfolded Some]] by (intro stopped) (auto simp: server_request_def)
    qed
  qed (use rl in \<open>intro stopped; simp add: server_request_def\<close>)+
qed

lemma hook_ok_steps: "hook_ok d \<Longrightarrow> hook_ok (worker_step env hv out d)" "hook_ok d \<Longrightarrow> hook_ok (dispatcher_Close d)"
  by (auto simp: hook_ok_def worker_step_frame dispatcher_Close_def close_swap_def close_channel_def)

lemma initial_ok: "buildHandler be cfg s = Inr (w, sv) \<Longrightarrow> valid s \<Longrightarrow> server_ok valid sv \<and> store_of sv = s"
  by (auto simp: buildHandler_def initial_server_def server_ok_def hooks_ok_def hook_ok_def NewWebhookDispatcher_def
      split: sum.splits option.splits)

lemma response_fields:
  assumes "resp = shorten_response_of cfg m tok"
  shows "p_OriginalURL resp = m_OriginalURL m \<and> p_ExpiresAt resp = m_ExpiresAt m \<and> p_MaxClicks resp = m_MaxClicks m
    \<and> p_HasPassword resp = (m_PasswordHash m \<noteq> []) \<and> p_Destinations resp = m_Destinations m"
  by (simp add: assms shorten_response_of_def)

lemma code_for_routed:
  assumes "code_for env req c" and "c \<notin> {''readyz'', ''metrics''}"
  shows "dispatch True ''GET'' [c] = Routed ''GET /{code}'' [] RedirectE [(''code'', c)]"
proof -
  have "c \<noteq> [] \<and> list_all code_char c \<and> c \<noteq> ''healthz''"
  proof (cases "q_CustomCode req = ''''")
    case True
    then have "length c = 6" "set c \<subseteq> set base62Chars" using assms(1) by (simp_all add: code_for_def)
    then show ?thesis using base62_code_char by (auto simp: list_all_iff)
  next
    case False
    then have "ValidateCustomCode (n_lower env) c = None" using assms(1) by (auto simp: code_for_def)
    then show ?thesis by (rule custom_code_chars)
  qed
  then show ?thesis using code_routed assms(2) by blast
qed

section \<open>Every endpoint\<close>

context cleaned_store
begin

lemma shortenOne_keeps:
  assumes "valid s" and "shortenOne ops cfg env dr clk req key reqID s = (s', jobs, res)"
  shows "valid s' \<and> link_kept c (view s) (view s')"
  using shortenOne_codes [OF assms]
  by (cases res) (auto simp: link_kept_same intro!: link_kept_same simp: link_kept_def same_link_refl)

lemma bulk_loop_keeps:
  assumes "valid s" and "bulk_loop ops cfg env dr clk key reqID i items resp s = (s', jobs, resp')"
  shows "valid s' \<and> link_kept c (view s) (view s')"
proof (rule bulk_loop_rule [where P = "\<lambda>t. valid t \<and> link_kept c (view s) (view t)", OF assms(2)])
  show "valid s \<and> link_kept c (view s) (view s)" using assms(1) by (simp add: link_kept_same)
next
  fix i item t t' jobs res
  assume t: "valid t \<and> link_kept c (view s) (view t)"
    and one: "shortenOne ops cfg env (dr i) (clk i) item key reqID t = (t', jobs, res)"
  show "valid t' \<and> link_kept c (view s) (view t')"
    using shortenOne_keeps [OF _ one, of c] t link_kept_trans [of c "view s" "view t" "view t'"] by blast
qed

lemma shorten_keeps:
  assumes "valid s" and "shorten_ServeHTTP ops cfg env dr clk r body s = (s', jobs, reply)"
  shows "valid s' \<and> link_kept c (view s) (view s')"
proof -
  obtain s1 k where d: "detectAPIKey ops env (clk 3) r s = (s1, k)" by (cases "detectAPIKey ops env (clk 3) r s")
  note fr = detectAPIKey_frame [OF assms(1) d]
  then have v1: "valid s1" by simp
  have "s' = s \<or> s' = s1 \<or> (\<exists>req jobs res. shortenOne ops cfg env dr clk req k (r_RequestID r) s1 = (s', jobs, res))"
    using assms(2) d by (auto simp: shorten_ServeHTTP_def split: if_splits option.splits prod.splits sum.splits)
  then show ?thesis using assms(1) fr shortenOne_keeps [OF v1, of cfg env dr clk] by (auto simp: link_kept_same)
qed

lemma bulk_keeps:
  assumes "valid s" and "bulk_ServeHTTP ops cfg n env dr clk now r body s = (s', jobs, reply)"
  shows "valid s' \<and> link_kept c (view s) (view s')"
proof -
  obtain s1 k where d: "detectAPIKey ops env now r s = (s1, k)" by (cases "detectAPIKey ops env now r s")
  note fr = detectAPIKey_frame [OF assms(1) d]
  then have v1: "valid s1" by simp
  have "s' = s \<or> s' = s1 \<or> (\<exists>items resp jobs resp'. bulk_loop ops cfg env dr clk k (r_RequestID r) 0 items resp s1 = (s', jobs, resp'))"
    using assms(2) d by (auto simp: bulk_ServeHTTP_def split: if_splits option.splits prod.splits)
  then show ?thesis using assms(1) fr bulk_loop_keeps [OF v1, of cfg env dr clk] by (auto simp: link_kept_same)
qed

lemma delete_keeps:
  assumes "valid s" and "delete_ServeHTTP ops (in_env i) (in_clk i) r s = (s', reply)" and "\<not> owner_acts view owner c i DeleteE r s"
  shows "valid s' \<and> link_kept c (view s) (view s')"
  using delete_spec [OF assms(1,2)] assms(3)
  by (auto simp: owner_acts_def intro!: link_kept_same split: if_splits)

lemma patch_keeps:
  assumes "valid s" and "patch_ServeHTTP ops cfg (in_env i) salt rnd (in_clk i) r body s = (s', reply)"
    and "\<not> owner_acts view owner c i PatchE r s"
  shows "valid s' \<and> link_kept c (view s) (view s')"
proof -
  have "view s' c = view s c" using patch_spec [OF assms(1,2)] assms(3) by (auto simp: owner_acts_def)
  then show ?thesis using patch_spec [OF assms(1,2)] by (simp add: link_kept_same)
qed

lemma rotate_keeps:
  assumes "valid s" and "rotate_ServeHTTP ops (in_env i) rnd (in_clk i) r s = (s', reply)"
    and "\<not> owner_acts view owner c i RotateE r s"
  shows "valid s' \<and> link_kept c (view s) (view s')"
proof (cases "r_Code r = c")
  case True
  have no: "\<not> (r_Code r \<noteq> '''' \<and> rnd \<noteq> None \<and> (\<exists>m. view s (r_Code r) = Some m \<and> \<not> expired_at (in_clk i 0) m
      \<and> authorizeOwner (in_env i) r (m_OwnerTokenHash m)))"
    using assms(3) True by (auto simp: owner_acts_def may_act_def authorizeOwner_def grants_def split: option.splits if_splits)
  have "s' = s" using rotate_spec [OF assms(1,2)] by (simp only: if_not_P [OF no])
  then show ?thesis using assms(1) by (simp add: link_kept_same)
next
  case False
  then show ?thesis using rotate_spec [OF assms(1,2)] by (auto simp: Let_def intro!: link_kept_same split: if_splits)
qed

lemma myurls_keeps:
  assumes "valid s" and "myurls_ServeHTTP ops env n clk r s = (s', reply)"
  shows "valid s' \<and> view s' = view s"
  using lookup_frame [OF assms(1)] assms
  by (auto simp: myurls_ServeHTTP_def split: option.splits prod.splits sum.splits)

lemma keys_keeps:
  assumes "valid s" and "keys_ServeHTTP ops (in_env i) (in_rnd i) clk r clen label s = (s', reply)" and "fresh_key owner i KeysE r s"
  shows "valid s' \<and> link_kept c (view s) (view s')"
  using keys_frame [OF assms(1,2)] assms(3) by (auto simp: fresh_key_def link_kept_same link_kept_released)

lemma redirect_keeps:
  assumes "valid (rs_store st)" and "hooks_ok st"
    and "redirect_ServeHTTP ops cfg env clk draw r body st = (st', reply)"
  shows "valid (rs_store st') \<and> hooks_ok st' \<and> link_kept c (view (rs_store st)) (view (rs_store st'))"
proof -
  note s = redirect_spec [OF assms]
  have "link_kept c (view (rs_store st)) (view (rs_store st'))"
  proof (cases "r_Code r = c")
    case True
    then show ?thesis using s stored_normal [OF assms(1), THEN norm_stored_steps(1)]
      by (auto simp: Let_def link_kept_def same_link_refl same_link_steps split: if_splits)
  next
    case False
    then have "view (rs_store st') c = view (rs_store st) c" using s by (auto simp: Let_def split: if_splits)
    then show ?thesis by (rule link_kept_same)
  qed
  then show ?thesis using s by blast
qed

text \<open>The endpoints that change no mapping.\<close>

lemma handle_reads:
  assumes "server_ok valid sv" and "handle ops w i e r sv = (sv', a)"
    and "e \<notin> {ShortenE, BulkE, DeleteE, PatchE, RotateE, KeysE, RedirectE}"
  shows "server_ok valid sv' \<and> view (store_of sv') = view (store_of sv)"
proof -
  have inv: "valid (store_of sv)" using assms(1) by (simp add: server_ok_def)
  note st = with_store_rule [where P = "\<lambda>s. view s = view (store_of sv)", OF _ assms(1)]
  show ?thesis
  proof (cases e)
    case MyURLsE
    show ?thesis by (rule st [OF assms(2) [unfolded MyURLsE handle.simps]]) (use myurls_keeps [OF inv] in auto)
  next
    case AuditE
    show ?thesis by (rule st [OF assms(2) [unfolded AuditE handle.simps]]) (simp add: inv)
  next
    case AnalyticsE
    show ?thesis by (rule st [OF assms(2) [unfolded AnalyticsE handle.simps]]) (use analytics_gated [OF inv] in auto)
  next
    case ClicksE
    show ?thesis by (rule st [OF assms(2) [unfolded ClicksE handle.simps]]) (use clicks_gated [OF inv] in auto)
  next
    case ExportE
    show ?thesis by (rule st [OF assms(2) [unfolded ExportE handle.simps]]) (use export_gated [OF inv] in auto)
  next
    case SeriesE
    show ?thesis by (rule st [OF assms(2) [unfolded SeriesE handle.simps]]) (use series_gated [OF inv] in auto)
  next
    case StreamE
    show ?thesis
      using assms(1,2) stream_gated [OF inv]
      by (auto simp: StreamE serve_stream_def server_ok_def hooks_ok_def split: option.splits prod.splits)
  next
    case QRE
    show ?thesis by (rule st [OF assms(2) [unfolded QRE handle.simps]]) (simp add: inv)
  next
    case BadgeE
    show ?thesis by (rule st [OF assms(2) [unfolded BadgeE handle.simps]]) (simp add: inv)
  qed (use assms in simp_all)
qed

lemma handle_keeps:
  assumes "server_ok valid sv" and "handle ops w i e r sv = (sv', a)"
    and "\<not> owner_acts view owner c i e r (store_of sv)" and "fresh_key owner i e r (store_of sv)"
  shows "server_ok valid sv' \<and> link_kept c (view (store_of sv)) (view (store_of sv'))"
proof -
  have inv: "valid (store_of sv)" "hooks_ok (sv_state sv)" using assms(1) by (simp_all add: server_ok_def)
  note st = with_store_rule [where P = "\<lambda>s. link_kept c (view (store_of sv)) (view s)", OF _ assms(1)]
  note jb = with_jobs_rule [where P = "\<lambda>s. link_kept c (view (store_of sv)) (view s)", OF _ assms(1)]
  show ?thesis
  proof (cases e)
    case ShortenE
    show ?thesis by (rule jb [OF assms(2) [unfolded ShortenE handle.simps] shorten_keeps [OF inv(1)]])
  next
    case BulkE
    show ?thesis by (rule jb [OF assms(2) [unfolded BulkE handle.simps] bulk_keeps [OF inv(1)]])
  next
    case DeleteE
    show ?thesis by (rule st [OF assms(2) [unfolded DeleteE handle.simps] delete_keeps [OF inv(1) _ assms(3) [unfolded DeleteE]]])
  next
    case PatchE
    show ?thesis by (rule st [OF assms(2) [unfolded PatchE handle.simps] patch_keeps [OF inv(1) _ assms(3) [unfolded PatchE]]])
  next
    case RotateE
    show ?thesis by (rule st [OF assms(2) [unfolded RotateE handle.simps] rotate_keeps [OF inv(1) _ assms(3) [unfolded RotateE]]])
  next
    case KeysE
    show ?thesis by (rule st [OF assms(2) [unfolded KeysE handle.simps] keys_keeps [OF inv(1) _ assms(4) [unfolded KeysE]]])
  next
    case RedirectE
    show ?thesis
      using assms(2) redirect_keeps [OF inv, of "w_redirect w" "in_env i" "in_clk i" "in_draw i" r "in_form i"]
      by (auto simp: RedirectE serve_redirect_def server_ok_def split: prod.splits)
  qed (use handle_reads [OF assms(1,2)] in \<open>simp_all add: link_kept_same\<close>)
qed

section \<open>Runs\<close>

lemma request_keeps:
  assumes "server_ok valid sv" and "\<not> acts_on view owner norm c (Request i r) sv" and "fresh_event owner (Request i r) sv"
  shows "server_ok valid (fst (server_request ops w i r sv))
    \<and> link_kept c (view (store_of sv)) (view (store_of (fst (server_request ops w i r sv))))"
proof (cases rule: request_cases [of ops w i r sv valid])
  case stopped
  then show ?thesis using assms(1) by (simp add: link_kept_same)
next
  case (handled rl wl pat gs e bs)
  let ?sv = "sv\<lparr>sv_readLimiter := rl, sv_writeLimiter := wl\<rparr>"
  have "\<not> owner_acts view owner c i e (bound_request i r bs) (store_of ?sv)" "fresh_key owner i e (bound_request i r bs) (store_of ?sv)"
    using assms(2,3) handled(1) by (simp_all add: acts_on_def fresh_event_def)
  then show ?thesis
    using handle_keeps [of ?sv w i e "bound_request i r bs", OF _ prod.collapse [symmetric], of c] assms(1) by (simp add: handled(2))
qed

text \<open>A turn of the unfurler sets the preview of at most one mapping, within the bounds.\<close>

lemma unfurl_turn_effect:
  assumes "server_ok valid sv"
  shows "server_ok valid (unfurl_turn ops env tokenize out now sv)
    \<and> (view (store_of (unfurl_turn ops env tokenize out now sv)) = view (store_of sv)
       \<or> (\<exists>k p t. preview_bounded p \<and> view (store_of (unfurl_turn ops env tokenize out now sv)) =
            (\<lambda>c. if c = k then map_option (with_preview p t) (view (store_of sv) k) else view (store_of sv) c)))"
proof (cases "\<exists>u j rest. sv_unfurler sv = Some u \<and> uf_queue u = j # rest")
  case False
  then show ?thesis
    using assms by (auto simp: unfurl_turn_def unfurl_work_def server_ok_def set_store_def hooks_ok_def split: option.split list.split)
next
  case True
  then obtain u j rest where u: "sv_unfurler sv = Some u" "uf_queue u = j # rest" by blast
  let ?f = "unfurl_fetch ops env (ValidateHostAtRuntime env) tokenize out now j (u\<lparr>uf_queue := rest\<rparr>, store_of sv)"
  have inv: "valid (store_of sv)" using assms by (simp add: server_ok_def)
  have turn: "store_of (unfurl_turn ops env tokenize out now sv) = snd (fst ?f)"
      "server_ok valid (unfurl_turn ops env tokenize out now sv) = valid (snd (fst ?f))"
    using u assms by (simp_all add: unfurl_turn_def unfurl_work_def case_prod_unfold)
  define p where "p = opt_or no_preview (snd (doFetch env (ValidateHostAtRuntime env) tokenize out (uj_URL j)))"
  have "preview_bounded p"
    using doFetch_preview [of env "ValidateHostAtRuntime env" tokenize out "uj_URL j"]
    by (cases "snd (doFetch env (ValidateHostAtRuntime env) tokenize out (uj_URL j))")
      (simp_all add: p_def no_preview_def preview_bounded_def)
  moreover have "view (snd (fst ?f)) = (\<lambda>c. if c = uj_Code j then map_option (with_preview p (norm now)) (view (store_of sv) (uj_Code j))
      else view (store_of sv) c)"
    using fetch_view(1) [OF inv, of env "ValidateHostAtRuntime env" tokenize out now j]
      fetch_view(2) [OF inv, of _ j env "ValidateHostAtRuntime env" tokenize out now]
      stored_normal [OF inv, THEN norm_stored_steps(2)]
    by (auto simp: fun_eq_iff p_def cong: map_option_cong)
  ultimately show ?thesis using turn fetch_valid [OF inv]
    by (intro conjI disjI2 exI [of _ "uj_Code j"] exI [of _ p] exI [of _ "norm now"]) simp_all
qed

lemma unfurl_turn_keeps:
  assumes "server_ok valid sv"
  shows "server_ok valid (unfurl_turn ops env tokenize out now sv)
    \<and> link_kept c (view (store_of sv)) (view (store_of (unfurl_turn ops env tokenize out now sv)))"
  using unfurl_turn_effect [OF assms, of env tokenize out now]
  by (auto simp: link_kept_def same_link_refl same_link_steps)

lemma step_keeps:
  assumes "server_ok valid sv" and "\<not> acts_on view owner norm c ev sv" and "fresh_event owner ev sv"
  shows "server_ok valid (server_step ops cleanup w ev sv) \<and> link_kept c (view (store_of sv)) (view (store_of (server_step ops cleanup w ev sv)))"
proof (cases ev)
  case (Request i r)
  then show ?thesis using request_keeps [of sv c i r w] assms by simp
next
  case (UnfurlTurn env tokenize out now)
  then show ?thesis using unfurl_turn_keeps [OF assms(1)] by simp
next
  case (CleanupTick t)
  have inv: "valid (store_of sv)" using assms(1) by (simp add: server_ok_def)
  have "view (cleanup t (store_of sv)) c = view (store_of sv) c"
    using assms(2) CleanupTick by (auto simp: cleanup_view [OF inv] acts_on_def split: option.splits)
  then show ?thesis using CleanupTick assms(1) cleanup_valid [OF inv] by (simp add: link_kept_same)
qed (use assms(1) hook_ok_steps in \<open>auto simp: server_ok_def on_webhook_def on_stream_def hooks_ok_def link_kept_same\<close>)

text \<open>The invariant alone needs no condition on who acts on what.\<close>

lemma step_ok:
  assumes "server_ok valid sv" and "fresh_event owner ev sv"
  shows "server_ok valid (server_step ops cleanup w ev sv)"
proof (cases "\<exists>t. ev = CleanupTick t")
  case True
  then show ?thesis using assms(1) cleanup_valid by (auto simp: server_ok_def set_store_def hooks_ok_def)
next
  case False
  then have "\<not> acts_on view owner norm '''' ev sv"
    by (auto simp: acts_on_def owner_acts_def may_act_def split: event.split destination_of_request.split)
  then show ?thesis using step_keeps [of sv "''''" ev w] assms by blast
qed

lemma run_ok: "server_run ops cleanup owner w sv evs sv' \<Longrightarrow> server_ok valid sv \<Longrightarrow> server_ok valid sv'"
  by (induction rule: server_run.induct) (auto intro: step_ok)

lemma run_keeps:
  "server_run ops cleanup owner w sv evs sv' \<Longrightarrow> server_ok valid sv \<Longrightarrow> left_alone ops cleanup view owner norm w c evs sv \<Longrightarrow>
    link_kept c (view (store_of sv)) (view (store_of sv'))"
proof (induction rule: server_run.induct)
  case (rest sv)
  then show ?case by (simp add: link_kept_same)
next
  case (step ev sv evs sv')
  then have "\<not> acts_on view owner norm c ev sv" "left_alone ops cleanup view owner norm w c evs (server_step ops cleanup w ev sv)" by simp_all
  then show ?case using step_keeps [of sv c ev w] step link_kept_trans by blast
qed

section \<open>A new link can be followed\<close>

text \<open>What a request leaves behind that was answered with a new link.\<close>

lemma shorten_answer:
  assumes "server_ok valid sv" and "server_request ops w i r sv = (sv1, ShortenA (Payload 201 resp))"
  shows "server_ok valid sv1 \<and> (\<exists>m req. view (store_of sv1) (p_ShortCode resp) = Some (norm_mapping norm m)
    \<and> resp = shorten_response_of (w_shorten w) m (p_AdminToken resp) \<and> code_for (in_env i) req (p_ShortCode resp))"
proof -
  obtain rl wl pat gs e bs where d: "dispatch True (r_Method r) (in_path i) = Routed pat gs e bs"
      "server_request ops w i r sv = handle ops w i e (bound_request i r bs) (sv\<lparr>sv_readLimiter := rl, sv_writeLimiter := wl\<rparr>)"
  proof (cases rule: request_cases [of ops w i r sv valid])
    case stopped
    then show ?thesis using stopped(3) [of "Payload 201 resp"] assms(2) by simp
  qed (rule that)
  define sv3 where "sv3 = sv\<lparr>sv_readLimiter := rl, sv_writeLimiter := wl\<rparr>"
  have h: "handle ops w i e (bound_request i r bs) sv3 = (sv1, ShortenA (Payload 201 resp))"
    using assms(2) d(2) by (simp add: sv3_def)
  then have e: "e = ShortenE"
    by (cases e) (auto simp: with_store_def with_jobs_def serve_stream_def serve_redirect_def split: prod.splits option.splits)
  have sv3: "server_ok valid sv3" "store_of sv3 = store_of sv" using assms(1) by (simp_all add: sv3_def)
  then have inv: "valid (store_of sv3)" by (simp add: server_ok_def)
  have ok: "server_ok valid sv1"
    using handle_keeps [OF sv3(1) h, of "''''"] by (auto simp: e owner_acts_def fresh_key_def)
  obtain s jobs where so: "shorten_ServeHTTP ops (w_shorten w) (in_env i) (in_draws i 0) (in_clk i)
      (bound_request i r bs) (in_shorten i) (store_of sv3) = (s, jobs, Payload 201 resp)" "store_of sv1 = s"
    using h by (auto simp: e with_jobs_def split: prod.splits)
  obtain s1 k where det: "detectAPIKey ops (in_env i) (in_clk i 3) (bound_request i r bs) (store_of sv3) = (s1, k)" by fastforce
  then have inv1: "valid s1" using detectAPIKey_frame [OF inv] by blast
  obtain req where one: "shortenOne ops (w_shorten w) (in_env i) (in_draws i 0) (in_clk i) req k
      (r_RequestID (bound_request i r bs)) s1 = (s, jobs, Inr resp)"
    using so(1) det by (auto simp: shorten_ServeHTTP_def split: if_splits option.splits prod.splits sum.splits)
  obtain m where m: "code_for (in_env i) req (m_ID m)" "resp = shorten_response_of (w_shorten w) m (p_AdminToken resp)"
      "view s = (view s1)(m_ID m \<mapsto> norm_mapping norm m)"
    using shortenOne_success [OF inv1 one] by (elim exE conjE) (rule that; assumption)
  have c: "p_ShortCode resp = m_ID m" using arg_cong [OF m(2), of p_ShortCode] by (simp add: shorten_response_of_def)
  have "view (store_of sv1) (p_ShortCode resp) = Some (norm_mapping norm m)" "code_for (in_env i) req (p_ShortCode resp)"
    using m(1,3) so(2) by (simp_all add: c)
  then show ?thesis using m(2) ok by blast
qed

text \<open>A GET of a live, plain link that passes the read limiter is answered with the 302 to its URL.\<close>

lemma live_link_answered:
  assumes "server_ok valid sv" and "view (store_of sv) c = Some m" and "code_for env req c" and "c \<notin> {''readyz'', ''metrics''}"
    and "r_Method g = ''GET''" and "in_path j = [c]" and "snd (read_limit w j g (sv_readLimiter sv)) = None"
    and "m_PasswordHash m = []" and "m_MaxClicks m = 0" and "m_Destinations m = []" and "\<not> expired_at (in_clk j 0) m"
    and "\<not> snd (target_refused (w_redirect w) (in_env j) (in_clk j 1) (m_OriginalURL m) (rs_cache (sv_state sv)))"
  shows "snd (server_request ops w j g sv) = RedirectA (Payload 302 (page.Found (m_OriginalURL m)))"
proof -
  have ok: "valid (store_of sv)" "hooks_ok (sv_state sv)" using assms(1) by (simp_all add: server_ok_def)
  have c: "c \<noteq> []" using assms(3) by (auto simp: code_for_def split: if_splits)
  note d = code_for_routed [OF assms(3,4)]
  obtain rl where rl: "read_limit w j g (sv_readLimiter sv) = (rl, None)"
    using assms(7) by (cases "read_limit w j g (sv_readLimiter sv)") simp
  let ?r = "bound_request j g [(''code'', c)]"
  have code: "r_Code ?r = c" by (simp add: bound_request_def)
  obtain st reply where rd: "redirect_ServeHTTP ops (w_redirect w) (in_env j) (in_clk j) (in_draw j) ?r (in_form j) (sv_state sv) = (st, reply)"
    by fastforce
  have "may_redirect (w_redirect w) (in_env j) (in_clk j) (in_draw j) ?r (in_form j) (rs_cache (sv_state sv)) m
      (redirect_target m (in_draw j))"
    using assms(8-12) by (simp add: may_redirect_def redirect_target_def target_refused_iff)
  then have "reply = Payload 302 (page.Found (m_OriginalURL m))"
    using redirect_spec [OF ok rd] code c assms(2,10) by (simp add: Let_def redirect_target_def)
  then show ?thesis using rl d assms(5,6) rd by (simp add: server_request_def serve_redirect_def)
qed

text \<open>What a creation answered says of the mapping, as long as the link is left alone.\<close>

lemma answered_fields:
  assumes "resp = shorten_response_of cfg m tok" and "same_link (norm_mapping norm m) m'"
    and "\<not> p_HasPassword resp" and "p_MaxClicks resp = 0" and "p_Destinations resp = []"
    and "case p_ExpiresAt resp of None \<Rightarrow> True | Some t \<Rightarrow> now \<le> norm t"
  shows "m_PasswordHash m' = []" "m_MaxClicks m' = 0" "m_Destinations m' = []" "\<not> expired_at now m'"
    "m_OriginalURL m' = p_OriginalURL resp"
  using assms(3-6) response_fields [OF assms(1)] same_link_fields [OF assms(2)]
  by (simp_all add: expired_at_def split: option.splits)

lemma link_followed:
  assumes "server_ok valid sv"
    and "server_request ops w i r sv = (sv1, ShortenA (Payload 201 resp))" and "c = p_ShortCode resp"
    and "server_run ops cleanup owner w sv1 evs sv2" and "left_alone ops cleanup view owner norm w c evs sv1"
    and "r_Method g = ''GET''" and "in_path j = [c]" and "c \<notin> {''readyz'', ''metrics''}"
    and "snd (read_limit w j g (sv_readLimiter sv2)) = None"
    and "\<not> p_HasPassword resp" and "p_MaxClicks resp = 0" and "p_Destinations resp = []"
    and "case p_ExpiresAt resp of None \<Rightarrow> True | Some t \<Rightarrow> in_clk j 0 \<le> norm t"
    and "\<not> snd (target_refused (w_redirect w) (in_env j) (in_clk j 1) (p_OriginalURL resp) (rs_cache (sv_state sv2)))"
  shows "snd (server_request ops w j g sv2) = RedirectA (Payload 302 (page.Found (p_OriginalURL resp)))"
proof -
  obtain m req where m: "server_ok valid sv1" "view (store_of sv1) c = Some (norm_mapping norm m)"
      "resp = shorten_response_of (w_shorten w) m (p_AdminToken resp)" "code_for (in_env i) req c"
    using shorten_answer [OF assms(1,2)] assms(3) by blast
  obtain m' where m': "view (store_of sv2) c = Some m'" "same_link (norm_mapping norm m) m'"
    using run_keeps [OF assms(4) m(1) assms(5)] m(2) by (auto simp: link_kept_def)
  note f = answered_fields [OF m(3) m'(2) assms(10-13)]
  show ?thesis
    using live_link_answered [OF run_ok [OF assms(4) m(1)] m'(1) m(4) assms(8,6,7,9) f(1-4)] assms(14) by (simp add: f(5))
qed

end

section \<open>The memory backend\<close>

abbreviation mem_step :: "wiring \<Rightarrow> event \<Rightarrow> mem_store server \<Rightarrow> mem_store server" where
  "mem_step \<equiv> server_step mem_ops mem_cleanupExpired"

abbreviation mem_run :: "wiring \<Rightarrow> mem_store server \<Rightarrow> event list \<Rightarrow> mem_store server \<Rightarrow> bool" where
  "mem_run \<equiv> server_run mem_ops mem_cleanupExpired mem_owner"

abbreviation mem_left_alone :: "wiring \<Rightarrow> string \<Rightarrow> event list \<Rightarrow> mem_store server \<Rightarrow> bool" where
  "mem_left_alone \<equiv> left_alone mem_ops mem_cleanupExpired mem_view mem_owner (\<lambda>t. t)"

lemma mem_initial_ok: "buildHandler be cfg NewMemoryStore = Inr (w, sv) \<Longrightarrow> server_ok mem_inv sv"
  using initial_ok [of be cfg NewMemoryStore w sv mem_inv] mem_inv_new by blast

section \<open>Links survive\<close>

text \<open>
  C1. On a server started with an empty memory store, whatever requests arrive and however the workers,
  the cleanup and the shutdown interleave with them: a link stays where it is and keeps its
  destination, owner, expiry, cap, password, tags and webhook, unless its owner (or a key it is
  bound to) deletes, patches or rotates it or a cleanup pass finds it expired.
\<close>

theorem links_survive:
  assumes "buildHandler be cfg NewMemoryStore = Inr (w, sv0)" and "mem_run w sv0 before sv"
    and "mem_view (store_of sv) c = Some m" and "mem_run w sv evs sv'" and "mem_left_alone w c evs sv"
  shows "\<exists>m'. mem_view (store_of sv') c = Some m' \<and> same_link m m'"
  using mem.run_keeps [OF assms(4) mem.run_ok [OF assms(2) mem_initial_ok [OF assms(1)]] assms(5)] assms(3)
  by (simp add: link_kept_def)

text \<open>
  C2. A link that was created can be followed: after the 201, whatever happens to the server as long
  as the link is left alone (its owner does not delete, patch or rotate it, no cleanup pass finds it
  expired), a GET of its code that passes the read limiter is answered with the 302 to the URL
  it was created for, if the code is neither readyz nor metrics (which are accepted but served by
  the outer mux), the link has no cap, password or split destinations and has not expired,
  and its host is neither denied nor found reserved at that moment.
\<close>

theorem created_link_followed:
  assumes "buildHandler be cfg NewMemoryStore = Inr (w, sv0)" and "mem_run w sv0 before sv"
    and "server_request mem_ops w i r sv = (sv1, ShortenA (Payload 201 resp))" and "c = p_ShortCode resp"
    and "mem_run w sv1 evs sv2" and "mem_left_alone w c evs sv1"
    and "r_Method g = ''GET''" and "in_path j = [c]" and "c \<notin> {''readyz'', ''metrics''}"
    and "snd (read_limit w j g (sv_readLimiter sv2)) = None"
    and "\<not> p_HasPassword resp" and "p_MaxClicks resp = 0" and "p_Destinations resp = []"
    and "case p_ExpiresAt resp of None \<Rightarrow> True | Some t \<Rightarrow> in_clk j 0 \<le> t"
    and "\<not> snd (target_refused (w_redirect w) (in_env j) (in_clk j 1) (p_OriginalURL resp) (rs_cache (sv_state sv2)))"
  shows "snd (server_request mem_ops w j g sv2) = RedirectA (Payload 302 (page.Found (p_OriginalURL resp)))"
  by (rule mem.link_followed [where c = c and w = w and sv = sv and resp = resp and evs = evs, OF
        mem.run_ok [OF assms(2) mem_initial_ok [OF assms(1)]] assms(3-15)])

section \<open>A server at work\<close>

definition demo_build :: build_env where
  "demo_build = \<lparr>be_env = sample_env, be_denyFile = Inr [], be_static = (\<lambda>name. Inr []), be_salt = ''salt'', be_openDB = (\<lambda>p. None),
     be_embedded = [], be_fromBytes = (\<lambda>b. None), be_marshal = (\<lambda>c ev. [])\<rparr>"

definition demo_config :: config where
  "demo_config = Load (\<lambda>k. if k = ''UNFURL_ENABLED'' then ''true'' else [])"

definition demo_wiring :: wiring where
  "demo_wiring = wire demo_build demo_config None"

definition demo_start :: "mem_store server" where
  "demo_start = initial_server demo_config NewMemoryStore"

definition demo_inputs :: "string list \<Rightarrow> inputs" where
  "demo_inputs path = \<lparr>in_env = sample_env, in_path = path, in_readClk = (1000, 1000), in_writeClk = (1000, 1000),
     in_clk = (\<lambda>i. 1000), in_itemClk = (\<lambda>i k. 1000), in_idBytes = [], in_draws = (\<lambda>i. sample_draws), in_salt = None,
     in_rnd = None, in_draw = 0, in_shorten = Some (sample_req ''promo''\<lparr>q_MaxClicks := 0\<rparr>), in_bulk = None, in_patch = None, in_clen = 0,
     in_label = None, in_form = None, in_flusher = False, in_qr = (\<lambda>u. None)\<rparr>"

definition demo_request :: "string \<Rightarrow> string \<Rightarrow> request" where
  "demo_request meth tok = \<lparr>r_Method = meth, r_Code = [],
     r_Header = (\<lambda>h. if h = ''Authorization'' then ''Bearer '' @ tok
       else if h = ''X-Requested-With'' then ''XMLHttpRequest'' else []), r_Query = (\<lambda>q. []),
     r_RemoteAddr = ''192.0.2.1:80'', r_RequestID = []\<rparr>"

definition demo_post :: event where
  "demo_post = Request (demo_inputs [''api'', ''shorten'']) (demo_request ''POST'' ''x'')"

definition demo_delete :: event where
  "demo_delete = Request (demo_inputs [''api'', ''url'', ''promo'']) (demo_request ''DELETE'' ''x'')"

lemma demo_assets: "NewStaticAssets (staticDirFS (be_static demo_build)) = Inr \<lparr>sa_indexHTML = [], sa_staticFS = (\<lambda>name. Inr [])\<rparr>"
  by (simp add: demo_build_def NewStaticAssets_def staticDirFS_def fs_Sub_def fun_eq_iff)

lemma demo_build_ok: "buildHandler demo_build demo_config NewMemoryStore = Inr (demo_wiring, demo_start)"
proof -
  have "loadDenyList (n_lower (be_env demo_build)) (be_denyFile demo_build) demo_config = Inr None" by code_simp
  then show ?thesis by (simp add: buildHandler_def demo_wiring_def demo_start_def demo_assets)
qed

definition demo_posted :: "mem_store server" where
  "demo_posted = mem_step demo_wiring demo_post demo_start"

lemma demo_answer: "snd (server_request mem_ops demo_wiring (demo_inputs [''api'', ''shorten'']) (demo_request ''POST'' ''x'') demo_start)
  = ShortenA (Payload 201 (promo_response\<lparr>p_ShortURL := ''http://localhost:8080/promo'', p_ExpiresAt := Some 5400000001000, p_MaxClicks := 0\<rparr>))"
  by code_simp

lemma demo_post_fresh: "fresh_event own demo_post sv"
proof -
  have "dispatch True ''POST'' [''api'', ''shorten''] = Routed ''POST /api/shorten'' [WriteLimiter, XHRHeader] ShortenE []" by code_simp
  then show ?thesis by (simp add: fresh_event_def demo_post_def demo_inputs_def demo_request_def fresh_key_def)
qed

lemma demo_run_post: "mem_run demo_wiring demo_start [demo_post] demo_posted"
  unfolding demo_posted_def by (intro server_run.intros demo_post_fresh)

lemma demo_posted_view: "map_option (\<lambda>m. (m_OriginalURL m, m_OwnerTokenHash m, m_APIKeyID m)) (mem_view (store_of demo_posted) ''promo'')
    = Some (''https://example.com/a'', [4, 7], 0)"
  by code_simp

lemma demo_delete_routed: "dispatch True ''DELETE'' [''api'', ''url'', ''promo''] = Routed ''DELETE /api/url/{code}'' [WriteLimiter] DeleteE [(''code'', ''promo'')]"
  by code_simp

text \<open>The DELETE of someone else leaves the link alone.\<close>

lemma foreign_delete:
  assumes "map_option (\<lambda>m. (m_OwnerTokenHash m, m_APIKeyID m)) (view (store_of sv) ''promo'') = Some ([4, 7], 0)"
  shows "\<not> acts_on view owner norm ''promo'' demo_delete sv \<and> fresh_event own demo_delete sv"
proof -
  have eb: "extractBearer sample_env (demo_request ''DELETE'' ''x'') = Some (''x'', [1, 7])" by code_simp
  then have "extractBearer sample_env (bound_request (demo_inputs [''api'', ''url'', ''promo'']) (demo_request ''DELETE'' ''x'') [(''code'', ''promo'')]) = Some (''x'', [1, 7])"
    by (simp add: extractBearer_def bound_request_def)
  then show ?thesis
    using assms demo_delete_routed
    by (auto simp: acts_on_def fresh_event_def fresh_key_def demo_delete_def owner_acts_def may_act_def grants_def demo_inputs_def demo_request_def bound_request_def)
qed

lemma demo_delete_fails: "\<not> acts_on mem_view mem_owner (\<lambda>t. t) ''promo'' demo_delete demo_posted"
proof -
  have "map_option (\<lambda>m. (m_OwnerTokenHash m, m_APIKeyID m)) (mem_view (store_of demo_posted) ''promo'') = Some ([4, 7], 0)"
    using demo_posted_view by auto
  then show ?thesis using foreign_delete [where view = mem_view] by blast
qed

lemma demo_run_delete: "mem_run demo_wiring demo_posted [demo_delete] (mem_step demo_wiring demo_delete demo_posted)"
proof -
  have "fresh_event mem_owner demo_delete demo_posted"
    using demo_delete_routed by (simp add: fresh_event_def demo_delete_def demo_inputs_def demo_request_def fresh_key_def)
  then show ?thesis by (intro server_run.intros)
qed

theorem links_survive_witness:
  "\<exists>m. mem_view (store_of (mem_step demo_wiring demo_delete demo_posted)) ''promo'' = Some m \<and> m_OriginalURL m = ''https://example.com/a''"
proof -
  obtain m where m: "mem_view (store_of demo_posted) ''promo'' = Some m" "m_OriginalURL m = ''https://example.com/a''"
    using demo_posted_view by auto
  have "mem_left_alone demo_wiring ''promo'' [demo_delete] demo_posted" using demo_delete_fails by simp
  from links_survive [OF demo_build_ok demo_run_post m(1) demo_run_delete this] m(2) same_link_fields show ?thesis by fastforce
qed

theorem created_link_followed_witness:
  "snd (server_request mem_ops demo_wiring (demo_inputs [''promo'']) (demo_request ''GET'' ''x'') (mem_step demo_wiring demo_delete demo_posted))
   = RedirectA (Payload 302 (page.Found ''https://example.com/a''))"
proof -
  let ?i = "demo_inputs [''api'', ''shorten'']" and ?sv = "mem_step demo_wiring demo_delete demo_posted"
  define resp where "resp = promo_response\<lparr>p_ShortURL := ''http://localhost:8080/promo'', p_ExpiresAt := Some 5400000001000, p_MaxClicks := 0\<rparr>"
  have post: "server_request mem_ops demo_wiring ?i (demo_request ''POST'' ''x'') demo_start = (demo_posted, ShortenA (Payload 201 resp))"
    using demo_answer by (simp add: demo_posted_def demo_post_def resp_def prod_eq_iff)
  have c: "''promo'' = p_ShortCode resp" by (simp add: resp_def promo_response_def)
  have alone: "mem_left_alone demo_wiring ''promo'' [demo_delete] demo_posted" using demo_delete_fails by simp
  have lim: "snd (read_limit demo_wiring (demo_inputs [''promo'']) (demo_request ''GET'' ''x'') (sv_readLimiter ?sv)) = None" by code_simp
  have ref: "\<not> snd (target_refused (w_redirect demo_wiring) (in_env (demo_inputs [''promo''])) (in_clk (demo_inputs [''promo'']) 1)
      ''https://example.com/a'' (rs_cache (sv_state ?sv)))" by code_simp
  show ?thesis
    using created_link_followed [OF demo_build_ok server_run.rest post c demo_run_delete alone, of "demo_request ''GET'' ''x''" "demo_inputs [''promo'']"]
      lim ref by (simp add: demo_request_def demo_inputs_def resp_def promo_response_def)
qed

end
