(* ===== verification/Link_Form.thy ===== *)
theory Link_Form
  imports Server_Props
begin

text \<open>
  The form of a stored link: what the validation of \<^verbatim>\<open>POST /api/shorten\<close>, of the bulk endpoint and of
  \<^verbatim>\<open>PATCH\<close>, and the bounds of the unfurler, add up to for every mapping of a running server.
\<close>

section \<open>The form\<close>

text \<open>\<open>parse\<close> is \<^verbatim>\<open>url.Parse\<close>.\<close>

definition safe_url :: "(string \<Rightarrow> url_parts option) \<Rightarrow> string \<Rightarrow> bool" where
  "safe_url parse u = (length u \<le> MaxURLLength \<and> (case parse u of None \<Rightarrow> False
     | Some p \<Rightarrow> u_Scheme p \<in> {''http'', ''https''} \<and> \<not> u_HasUser p \<and> u_Hostname p \<noteq> []))"

definition well_tagged :: "string list \<Rightarrow> bool" where
  "well_tagged ts = (length ts \<le> MaxTagsPerURL \<and> distinct ts
     \<and> (\<forall>t \<in> set ts. t \<noteq> [] \<and> length t \<le> MaxTagLength))"

definition well_split :: "(string \<Rightarrow> url_parts option) \<Rightarrow> destination list \<Rightarrow> bool" where
  "well_split parse ds = (length ds \<le> MaxDestinationsPerURL
     \<and> (\<forall>d \<in> set ds. 1 \<le> d_Weight d \<and> d_Weight d \<le> MaxDestinationWeight \<and> safe_url parse (d_URL d)))"

definition well_formed_link :: "(string \<Rightarrow> url_parts option) \<Rightarrow> string \<Rightarrow> url_mapping \<Rightarrow> bool" where
  "well_formed_link parse c m = (m_ID m = c \<and> 3 \<le> length c \<and> length c \<le> 32 \<and> list_all code_char c
     \<and> safe_url parse (m_OriginalURL m) \<and> well_split parse (m_Destinations m) \<and> well_tagged (m_Tags m)
     \<and> 0 \<le> m_ClickCount m \<and> 0 \<le> m_MaxClicks m \<and> 0 \<le> m_APIKeyID m
     \<and> (if m_WebhookURL m = [] then m_WebhookSecret m = [] else safe_url parse (m_WebhookURL m))
     \<and> length (m_PreviewTitle m) \<le> 256 \<and> length (m_PreviewImage m) \<le> 1024 \<and> length (m_PreviewDescription m) \<le> 512)"

definition links_formed :: "(string \<Rightarrow> url_parts option) \<Rightarrow> (string \<Rightarrow> url_mapping option) \<Rightarrow> bool" where
  "links_formed parse v = (\<forall>c m. v c = Some m \<longrightarrow> well_formed_link parse c m)"

section \<open>What the validators let through\<close>

lemma validated_url: "ValidateDestinationURL env deny u = None \<Longrightarrow> safe_url (n_parse env) u"
  by (cases "n_parse env u")
    (auto simp: ValidateDestinationURL_def safe_url_def Let_def ValidateHostAtRuntime_def [where host = "[]"] split: if_splits)

definition tags_so_far :: "string list \<Rightarrow> bool" where
  "tags_so_far ts = (distinct ts \<and> (\<forall>t \<in> set ts. t \<noteq> [] \<and> length t \<le> MaxTagLength))"

lemma tags_so_far_add: "tags_so_far out \<Longrightarrow> t \<noteq> [] \<Longrightarrow> length t \<le> MaxTagLength \<Longrightarrow> t \<notin> set out \<Longrightarrow> tags_so_far (out @ [t])"
  by (auto simp: tags_so_far_def)

lemma normalize_loop_tags: "normalize_loop xs out = Inr ts \<Longrightarrow> tags_so_far out \<Longrightarrow> tags_so_far ts"
  by (induction xs out rule: normalize_loop.induct) (simp_all add: Let_def tags_so_far_add split: if_splits)

lemma normalized_tags: "NormalizeTags xs = Inr ts \<Longrightarrow> well_tagged ts"
  using normalize_loop_tags [of xs "[]"]
  by (auto simp: NormalizeTags_def well_tagged_def tags_so_far_def split: if_splits sum.splits)

lemma destinations_loop_spec:
  "destinations_loop env deny ds out = Inr rs \<Longrightarrow> length rs = length out + length ds \<and>
    (\<forall>d \<in> set rs. d \<in> set out \<or> 1 \<le> d_Weight d \<and> d_Weight d \<le> MaxDestinationWeight \<and> safe_url (n_parse env) (d_URL d))"
proof (induction env deny ds out rule: destinations_loop.induct)
  case (2 env deny d ds out)
  then have v: "1 \<le> d_Weight d" "d_Weight d \<le> MaxDestinationWeight" "ValidateDestinationURL env deny (d_URL d) = None"
      and l: "destinations_loop env deny ds (out @ [\<lparr>d_URL = d_URL d, d_Weight = d_Weight d\<rparr>]) = Inr rs"
    by (auto split: if_splits option.splits)
  show ?case using "2.IH" v l validated_url [OF v(3)] by auto
qed simp

lemma validated_destinations: "ValidateDestinations env deny xs = Inr ds \<Longrightarrow> well_split (n_parse env) ds"
  using destinations_loop_spec [of env deny xs "[]" ds]
  by (auto simp: ValidateDestinations_def well_split_def split: if_splits)

lemma codes_formed: "code_for env req c \<Longrightarrow> 3 \<le> length c \<and> length c \<le> 32 \<and> list_all code_char c"
  using base62_code_char
  by (auto simp: code_for_def ValidateCustomCode_def customCodeRegex_def list_all_iff split: if_splits)

lemma truncate_parse [simp]: "n_parse (net_env.truncate env) = n_parse env"
  by (simp add: net_env.defs)

lemma created_formed:
  assumes "created_from cfg env dr clk req key m tok" and "code_for env req (m_ID m)" and "0 \<le> key"
  shows "well_formed_link (n_parse env) (m_ID m) m"
proof -
  have urls: "safe_url (n_parse env) (m_OriginalURL m)" "well_split (n_parse env) (m_Destinations m)" "well_tagged (m_Tags m)"
    using assms(1) validated_url [of "net_env.truncate env"] validated_destinations [of "net_env.truncate env"] normalized_tags
    by (auto simp: created_from_def)
  have hook: "if m_WebhookURL m = [] then m_WebhookSecret m = [] else safe_url (n_parse env) (m_WebhookURL m)"
    using assms(1) validated_url [of "net_env.truncate env"] by (auto simp: created_from_def)
  have nums: "m_ClickCount m = 0" "0 \<le> m_MaxClicks m" "m_APIKeyID m = key" "m_PreviewTitle m = []"
      "m_PreviewImage m = []" "m_PreviewDescription m = []"
    using assms(1) by (auto simp: created_from_def insertable_def)
  show ?thesis using urls hook nums codes_formed [OF assms(2)] assms(3) by (simp add: well_formed_link_def)
qed

lemma patched_formed:
  assumes "patched cfg env salt rnd now q m m'" and "well_formed_link (n_parse env) c m"
  shows "well_formed_link (n_parse env) c m'"
proof -
  have t: "patched_target cfg env q m m'" and l: "patched_limits cfg now q m m'" and sec: "patched_secrets cfg env salt rnd q m m'"
    and fr: "m' = m\<lparr>m_OriginalURL := m_OriginalURL m', m_ExpiresAt := m_ExpiresAt m', m_Tags := m_Tags m',
          m_MaxClicks := m_MaxClicks m', m_PasswordHash := m_PasswordHash m', m_PasswordSalt := m_PasswordSalt m',
          m_WebhookURL := m_WebhookURL m', m_WebhookSecret := m_WebhookSecret m', m_Destinations := m_Destinations m'\<rparr>"
    using assms(1) by (simp_all add: patched_def)
  have frame: "m_ID m' = m_ID m \<and> m_ClickCount m' = m_ClickCount m \<and> m_APIKeyID m' = m_APIKeyID m \<and> m_PreviewTitle m' = m_PreviewTitle m
      \<and> m_PreviewImage m' = m_PreviewImage m \<and> m_PreviewDescription m' = m_PreviewDescription m"
    using fr by (cases m; cases m') simp
  have urls: "safe_url (n_parse env) (m_OriginalURL m')" "well_split (n_parse env) (m_Destinations m')" "well_tagged (m_Tags m')"
    using t assms(2) validated_url [of "net_env.truncate env"] validated_destinations [of "net_env.truncate env"] normalized_tags
    by (auto simp: patched_target_def well_formed_link_def split: option.splits)
  have hook: "if m_WebhookURL m' = [] then m_WebhookSecret m' = [] else safe_url (n_parse env) (m_WebhookURL m')"
    using sec assms(2) validated_url [of "net_env.truncate env"]
    by (auto simp: patched_secrets_def draws_secret_def well_formed_link_def split: option.splits if_splits)
  have "0 \<le> m_MaxClicks m'" using l assms(2) by (auto simp: patched_limits_def well_formed_link_def split: option.splits)
  then show ?thesis using urls hook frame assms(2) by (simp add: well_formed_link_def)
qed

lemma formed_steps:
  "well_formed_link parse c m \<Longrightarrow> well_formed_link parse c (click_mapping ev m)"
  "well_formed_link parse c m \<Longrightarrow> preview_bounded p \<Longrightarrow> well_formed_link parse c (with_preview p t m)"
  "well_formed_link parse c m \<Longrightarrow> well_formed_link parse c (m\<lparr>m_APIKeyID := 0\<rparr>)"
  "well_formed_link parse c m \<Longrightarrow> well_formed_link parse c (m\<lparr>m_OwnerTokenHash := h\<rparr>)"
  by (simp_all add: well_formed_link_def click_mapping_def with_preview_def preview_bounded_def)

lemma formed_norm [simp]: "well_formed_link parse c (norm_mapping norm m) = well_formed_link parse c m"
  by (simp add: well_formed_link_def norm_mapping_def)

lemma links_formed_upd: "links_formed parse v \<Longrightarrow> well_formed_link parse c m \<Longrightarrow> links_formed parse (v(c \<mapsto> m))"
  by (simp add: links_formed_def)

lemma links_formed_sub: "links_formed parse v \<Longrightarrow> \<forall>c. v' c = None \<or> v' c = v c \<Longrightarrow> links_formed parse v'"
  unfolding links_formed_def by (metis option.distinct(1))

section \<open>Every event keeps it\<close>

definition formed :: "('s \<Rightarrow> bool) \<Rightarrow> ('s \<Rightarrow> string \<Rightarrow> url_mapping option) \<Rightarrow> (string \<Rightarrow> url_parts option) \<Rightarrow> 's \<Rightarrow> bool" where
  "formed valid view parse s = (valid s \<and> links_formed parse (view s))"

abbreviation server_formed ::
  "('s \<Rightarrow> bool) \<Rightarrow> ('s \<Rightarrow> string \<Rightarrow> url_mapping option) \<Rightarrow> (string \<Rightarrow> url_parts option) \<Rightarrow> 's server \<Rightarrow> bool" where
  "server_formed valid view parse sv \<equiv> server_ok valid sv \<and> links_formed parse (view (store_of sv))"

text \<open>The requests of the run are parsed by the one URL parser.\<close>

definition parses_with :: "(string \<Rightarrow> url_parts option) \<Rightarrow> event \<Rightarrow> bool" where
  "parses_with parse ev = (case ev of Request i r \<Rightarrow> n_parse (in_env i) = parse | _ \<Rightarrow> True)"

context cleaned_store
begin

lemma shortenOne_formed:
  assumes "formed valid view (n_parse env) s" and "shortenOne ops cfg env dr clk req key reqID s = (s', jobs, res)" and "0 \<le> key"
  shows "formed valid view (n_parse env) s'"
proof (cases res)
  case (Inl e)
  then show ?thesis using shortenOne_codes [OF _ assms(2)] assms(1) by (simp add: formed_def)
next
  case (Inr p)
  have inv: "valid s" using assms(1) by (simp add: formed_def)
  obtain m where m: "created_from cfg env dr clk req key m (p_AdminToken p)" "code_for env req (m_ID m)"
      "view s' = (view s)(m_ID m \<mapsto> norm_mapping norm m)" "valid s'"
    using shortenOne_success [OF inv assms(2) [unfolded Inr]] by (elim exE conjE) (rule that; assumption)
  then show ?thesis using created_formed [OF m(1,2) assms(3)] assms(1) by (simp add: formed_def links_formed_upd)
qed

lemma detected_key:
  assumes "formed valid view parse s" and "detectAPIKey ops env t r s = (s', k)"
  shows "formed valid view parse s' \<and> 0 \<le> k"
proof -
  have inv: "valid s" using assms(1) by (simp add: formed_def)
  have "0 \<le> opt_or 0 (owner s h)" for h
    using owner_pos [OF inv, of h] by (cases "owner s h") force+
  then show ?thesis
    using detectAPIKey_frame [OF inv assms(2)] assms(1) by (auto simp: formed_def split: option.splits prod.splits)
qed

lemma shorten_formed:
  assumes "formed valid view (n_parse env) s" and "shorten_ServeHTTP ops cfg env dr clk r body s = (s', jobs, reply)"
  shows "formed valid view (n_parse env) s'"
proof -
  obtain s1 k where d: "detectAPIKey ops env (clk 3) r s = (s1, k)" by (cases "detectAPIKey ops env (clk 3) r s")
  note k = detected_key [OF assms(1) d]
  have "s' = s \<or> s' = s1 \<or> (\<exists>req jobs res. shortenOne ops cfg env dr clk req k (r_RequestID r) s1 = (s', jobs, res))"
    using assms(2) d by (auto simp: shorten_ServeHTTP_def split: if_splits option.splits prod.splits sum.splits)
  then show ?thesis using assms(1) k shortenOne_formed by blast
qed

lemma bulk_formed:
  assumes "formed valid view (n_parse env) s" and "bulk_ServeHTTP ops cfg n env dr clk now r body s = (s', jobs, reply)"
  shows "formed valid view (n_parse env) s'"
proof -
  obtain s1 k where d: "detectAPIKey ops env now r s = (s1, k)" by (cases "detectAPIKey ops env now r s")
  note k = detected_key [OF assms(1) d]
  have "s' = s \<or> s' = s1 \<or> (\<exists>items resp jobs resp'. bulk_loop ops cfg env dr clk k (r_RequestID r) 0 items resp s1 = (s', jobs, resp'))"
    using assms(2) d by (auto simp: bulk_ServeHTTP_def split: if_splits option.splits prod.splits)
  moreover have "formed valid view (n_parse env) s'"
    if "bulk_loop ops cfg env dr clk k (r_RequestID r) 0 items resp s1 = (s', jobs, resp')" for items resp jobs resp'
    by (rule bulk_loop_rule [where P = "formed valid view (n_parse env)", OF that conjunct1 [OF k]])
      (rule shortenOne_formed [OF _ _ conjunct2 [OF k]])
  ultimately show ?thesis using assms(1) k by blast
qed

lemma delete_formed:
  assumes "formed valid view parse s" and "delete_ServeHTTP ops env clk r s = (s', reply)"
  shows "formed valid view parse s'"
proof -
  have inv: "valid s" using assms(1) by (simp add: formed_def)
  have "view s' = view s \<or> view s' = (view s)(r_Code r := None)"
    using delete_spec [OF inv assms(2)] by (auto split: if_splits)
  then have "\<forall>c. view s' c = None \<or> view s' c = view s c" by auto
  then show ?thesis
    using delete_spec [OF inv assms(2)] assms(1) links_formed_sub [of parse "view s" "view s'"] by (simp add: formed_def)
qed

lemma patch_formed:
  assumes "formed valid view (n_parse env) s" and "patch_ServeHTTP ops cfg env salt rnd clk r body s = (s', reply)"
  shows "formed valid view (n_parse env) s'"
proof -
  have inv: "valid s" using assms(1) by (simp add: formed_def)
  have "links_formed (n_parse env) (view s')"
  proof (cases "view s' = view s")
    case True
    then show ?thesis using assms(1) by (simp add: formed_def)
  next
    case False
    then obtain q m m' where p: "may_act (view s) (owner s) env (clk 0) r m" "patched cfg env salt rnd (clk 2) q m m'"
        "view s' = (view s)(r_Code r \<mapsto> norm_mapping norm m')"
      using patch_spec [OF inv assms(2)] by (elim conjE disjE exE) (simp, rule that)
    have "well_formed_link (n_parse env) (r_Code r) m" using p(1) assms(1) by (simp add: formed_def links_formed_def may_act_def)
    then show ?thesis using patched_formed [OF p(2)] assms(1) by (simp add: p(3) formed_def links_formed_upd)
  qed
  then show ?thesis using patch_spec [OF inv assms(2)] by (simp add: formed_def)
qed

lemma rotate_formed:
  assumes "formed valid view parse s" and "rotate_ServeHTTP ops env rnd clk r s = (s', reply)"
  shows "formed valid view parse s'"
proof -
  have inv: "valid s" using assms(1) by (simp add: formed_def)
  show ?thesis
    using rotate_spec [OF inv assms(2)] assms(1) formed_steps(4)
    by (auto simp: formed_def links_formed_def Let_def split: if_splits)
qed

lemma keys_formed:
  assumes "formed valid view parse s" and "keys_ServeHTTP ops (in_env i) (in_rnd i) clk r clen label s = (s', reply)" and "fresh_key owner i KeysE r s"
  shows "formed valid view parse s'"
proof -
  have inv: "valid s" using assms(1) by (simp add: formed_def)
  have "links_formed parse (released k (view s))" for k
    using assms(1) formed_steps(3) by (auto simp: formed_def links_formed_def released_def)
  then show ?thesis
    using keys_frame [OF inv assms(2)] assms(1,3) by (auto simp: fresh_key_def formed_def)
qed

lemma redirect_formed:
  assumes "formed valid view parse (rs_store st)" and "hooks_ok st"
    and "redirect_ServeHTTP ops cfg env clk draw r body st = (st', reply)"
  shows "formed valid view parse (rs_store st') \<and> hooks_ok st'"
proof -
  have inv: "valid (rs_store st)" using assms(1) by (simp add: formed_def)
  show ?thesis
    using redirect_spec [OF inv assms(2,3)] assms(1) formed_steps(1)
    by (auto simp: formed_def links_formed_def Let_def norm_mapping_id split: if_splits)
qed

lemma handle_formed:
  assumes "server_formed valid view (n_parse (in_env i)) sv" and "handle ops w i e r sv = (sv', a)" and "fresh_key owner i e r (store_of sv)"
  shows "server_formed valid view (n_parse (in_env i)) sv'"
proof -
  have ok: "server_ok valid sv" and f: "formed valid view (n_parse (in_env i)) (store_of sv)" and hk: "hooks_ok (sv_state sv)"
    using assms(1) by (simp_all add: server_ok_def formed_def)
  note st = with_store_rule [where P = "\<lambda>s. links_formed (n_parse (in_env i)) (view s)", OF _ ok]
  note jb = with_jobs_rule [where P = "\<lambda>s. links_formed (n_parse (in_env i)) (view s)", OF _ ok]
  show ?thesis
  proof (cases e)
    case ShortenE
    show ?thesis by (rule jb [OF assms(2) [unfolded ShortenE handle.simps] shorten_formed [OF f, unfolded formed_def]])
  next
    case BulkE
    show ?thesis by (rule jb [OF assms(2) [unfolded BulkE handle.simps] bulk_formed [OF f, unfolded formed_def]])
  next
    case DeleteE
    show ?thesis by (rule st [OF assms(2) [unfolded DeleteE handle.simps] delete_formed [OF f, unfolded formed_def]])
  next
    case PatchE
    show ?thesis by (rule st [OF assms(2) [unfolded PatchE handle.simps] patch_formed [OF f, unfolded formed_def]])
  next
    case RotateE
    show ?thesis by (rule st [OF assms(2) [unfolded RotateE handle.simps] rotate_formed [OF f, unfolded formed_def]])
  next
    case KeysE
    show ?thesis
      by (rule st [OF assms(2) [unfolded KeysE handle.simps] keys_formed [OF f _ assms(3) [unfolded KeysE], unfolded formed_def]])
  next
    case RedirectE
    show ?thesis
      using assms(2) redirect_formed [OF f hk, of "w_redirect w" "in_env i" "in_clk i" "in_draw i" r "in_form i"]
      by (auto simp: RedirectE serve_redirect_def server_ok_def formed_def split: prod.splits)
  qed (use handle_reads [OF ok assms(2)] assms(1) in simp_all)
qed

lemma step_formed:
  assumes "server_formed valid view parse sv" and "fresh_event owner ev sv" and "parses_with parse ev"
  shows "server_formed valid view parse (server_step ops cleanup w ev sv)"
proof -
  have ok: "server_ok valid (server_step ops cleanup w ev sv)" using step_ok [OF _ assms(2)] assms(1) by blast
  have "links_formed parse (view (store_of (server_step ops cleanup w ev sv)))"
  proof (cases ev)
    case (Request i r)
    have parse: "n_parse (in_env i) = parse" using assms(3) by (simp add: Request parses_with_def)
    show ?thesis
    proof (cases rule: request_cases [of ops w i r sv valid])
      case stopped
      then show ?thesis using assms(1) by (simp add: Request)
    next
      case (handled rl wl pat gs e bs)
      let ?sv = "sv\<lparr>sv_readLimiter := rl, sv_writeLimiter := wl\<rparr>"
      have "fresh_key owner i e (bound_request i r bs) (store_of ?sv)" "server_formed valid view (n_parse (in_env i)) ?sv"
        using assms(1,2) handled(1) parse by (simp_all add: Request fresh_event_def)
      then show ?thesis
        using handle_formed [of ?sv i w e "bound_request i r bs", OF _ prod.collapse [symmetric]] handled(2) parse by (simp add: Request)
    qed
  next
    case (UnfurlTurn env tokenize out now)
    then show ?thesis
      using unfurl_turn_effect [of sv env tokenize out now] assms(1) formed_steps(2)
      by (auto simp: links_formed_def split: if_splits)
  next
    case (CleanupTick t)
    have inv: "valid (store_of sv)" using assms(1) by (simp add: server_ok_def)
    have "\<forall>c. view (cleanup t (store_of sv)) c = None
        \<or> view (cleanup t (store_of sv)) c = view (store_of sv) c"
      by (auto simp: cleanup_view [OF inv] split: option.split)
    then show ?thesis
      using assms(1) links_formed_sub [of parse "view (store_of sv)" "view (cleanup t (store_of sv))"]
      by (simp add: CleanupTick)
  qed (use assms(1) in \<open>simp_all add: on_webhook_def on_stream_def\<close>)
  then show ?thesis using ok by blast
qed

lemma run_formed:
  "server_run ops cleanup owner w sv evs sv' \<Longrightarrow> server_formed valid view parse sv \<Longrightarrow> list_all (parses_with parse) evs \<Longrightarrow> server_formed valid view parse sv'"
proof (induction rule: server_run.induct)
  case (step ev sv evs sv')
  then show ?case using step_formed [of sv parse ev w] by simp
qed simp

end

section \<open>The memory backend\<close>

lemma mem_initial_formed:
  assumes "buildHandler be cfg NewMemoryStore = Inr (w, sv)"
  shows "server_formed mem_inv mem_view parse sv"
proof -
  have "mem_view (store_of sv) = Map.empty"
    using initial_ok [OF assms, of mem_inv] mem_inv_new by (simp add: mem_view_def NewMemoryStore_def fun_eq_iff)
  then show ?thesis using mem_initial_ok [OF assms] by (simp add: links_formed_def)
qed

text \<open>
  C13. Every link a server holds has the form its validation promises, whatever requests arrive and
  however they are mixed with the background work, on a server started with an empty memory
  store: the code is 3 to 32 characters a URL path can carry, the destination (and every split
  destination and webhook) is an http or https URL of at most 2048 bytes with a host and without
  credentials, the weights are from 1 to 100 and at most ten, the tags at most 16, distinct and
  of 1 to 32 bytes, no counter is negative, no webhook secret is without a webhook, and the
  preview is within its bounds.
\<close>

theorem links_well_formed:
  assumes "buildHandler be cfg NewMemoryStore = Inr (w, sv0)" and "mem_run w sv0 evs sv"
    and "list_all (parses_with parse) evs" and "mem_view (store_of sv) c = Some m"
  shows "well_formed_link parse c m"
  using mem.run_formed [OF assms(2) mem_initial_formed [OF assms(1)] assms(3)] assms(4) by (simp add: links_formed_def)

theorem links_well_formed_witness:
  "\<exists>m. mem_view (store_of demo_posted) ''promo'' = Some m \<and> well_formed_link (n_parse sample_env) ''promo'' m"
proof -
  obtain m where m: "mem_view (store_of demo_posted) ''promo'' = Some m" using demo_posted_view by auto
  have "list_all (parses_with (n_parse sample_env)) [demo_post]" by (simp add: parses_with_def demo_post_def demo_inputs_def)
  from links_well_formed [OF demo_build_ok demo_run_post this m] m show ?thesis by blast
qed

end
