(* ===== verification/Server_Backends.thy ===== *)
theory Server_Backends
  imports Link_Form
begin

text \<open>
  The server on its SQL backends, through \<^verbatim>\<open>openStore\<close> and \<^verbatim>\<open>buildHandler\<close> as \<^verbatim>\<open>main\<close> calls them. The tables
  outlive the process, so the theorems speak of two processes, one after the other on the same
  tables, each with its own configuration; what the first held in memory (the queues, the
  limiters, the DNS cache, the streams) is lost in between. No statement fails in these runs:
  what a failing one does is in \<^verbatim>\<open>Sqlite_Props\<close>.
\<close>

section \<open>Processes on the same tables\<close>

fun sql_ops :: "backend \<Rightarrow> sql_store store_ops" where
  "sql_ops (Postgres dsn r) = pg_ops no_fault"
| "sql_ops b = sq_ops no_fault"

fun sql_cleanup :: "backend \<Rightarrow> time \<Rightarrow> sql_store \<Rightarrow> sql_store" where
  "sql_cleanup (Postgres dsn r) = pg_cleanup no_fault"
| "sql_cleanup b = sq_cleanup no_fault"

text \<open>The click retention is a field of the Go struct: zero in a new one, set when the configuration has one.\<close>

fun opened :: "backend \<Rightarrow> sql_store \<Rightarrow> sql_store" where
  "opened Memory db = db"
| "opened (SQLite path r) db = (case r of None \<Rightarrow> sq_SetClickRetention 0 db | Some d \<Rightarrow> sq_SetClickRetention d db)"
| "opened (Postgres dsn r) db = (case r of None \<Rightarrow> sq_SetClickRetention 0 db | Some d \<Rightarrow> sq_SetClickRetention d db)"

text \<open>
  \<open>sqlite\<close> and \<open>postgres\<close> are the outcomes of opening the database. \<open>None\<close> is a process that does not
  serve, or serves from memory.
\<close>

definition sql_boot ::
  "build_env \<Rightarrow> (string \<Rightarrow> string option) \<Rightarrow> (string \<Rightarrow> string option) \<Rightarrow> config \<Rightarrow> sql_store
    \<Rightarrow> (backend \<times> wiring \<times> sql_store server) option" where
  "sql_boot be sqlite postgres cfg db =
     (case openStore sqlite postgres cfg of
        Inl err \<Rightarrow> None
      | Inr b \<Rightarrow>
          (if b = Memory then None
           else case buildHandler be cfg (opened b db) of
             Inl err \<Rightarrow> None
           | Inr (w, sv) \<Rightarrow> Some (b, w, sv)))"

abbreviation sql_run :: "backend \<Rightarrow> wiring \<Rightarrow> sql_store server \<Rightarrow> event list \<Rightarrow> sql_store server \<Rightarrow> bool" where
  "sql_run b \<equiv> server_run (sql_ops b) (sql_cleanup b) sql_owner"

abbreviation sql_left_alone :: "backend \<Rightarrow> wiring \<Rightarrow> string \<Rightarrow> event list \<Rightarrow> sql_store server \<Rightarrow> bool" where
  "sql_left_alone b \<equiv> left_alone (sql_ops b) (sql_cleanup b) sql_view sql_owner stored_time"

section \<open>Runs of either backend\<close>

lemma opened_frame [simp]: "sql_inv (opened b db) = sql_inv db" "sql_view (opened b db) = sql_view db"
  by (cases b; simp add: sq_SetClickRetention_def sql_inv_def urls_ok_def clicks_ok_def keys_ok_def audit_ok_def
      sql_view_def fun_eq_iff split: option.split)+

lemma sql_boot_ok:
  "sql_boot be sqlite postgres cfg db = Some (b, w, sv) \<Longrightarrow> sql_inv db \<Longrightarrow>
    server_ok sql_inv sv \<and> sql_view (store_of sv) = sql_view db"
  using initial_ok [of be cfg "opened b db" w sv sql_inv]
  by (auto simp: sql_boot_def split: sum.splits if_splits)

lemma sql_run_ok: "sql_run b w sv evs sv' \<Longrightarrow> server_ok sql_inv sv \<Longrightarrow> server_ok sql_inv sv'"
  by (cases b) (simp_all add: sq.run_ok pg.run_ok)

lemma sql_run_keeps: "sql_run b w sv evs sv' \<Longrightarrow> server_ok sql_inv sv \<Longrightarrow> sql_left_alone b w c evs sv \<Longrightarrow>
    link_kept c (sql_view (store_of sv)) (sql_view (store_of sv'))"
  by (cases b) (simp_all add: sq.run_keeps pg.run_keeps)

lemma sql_shorten_answer:
  assumes "server_ok sql_inv sv" and "server_request (sql_ops b) w i r sv = (sv1, ShortenA (Payload 201 resp))"
  shows "server_ok sql_inv sv1 \<and> (\<exists>m req. sql_view (store_of sv1) (p_ShortCode resp) = Some (norm_mapping stored_time m)
      \<and> resp = shorten_response_of (w_shorten w) m (p_AdminToken resp) \<and> code_for (in_env i) req (p_ShortCode resp))"
proof (cases b)
  case Memory
  show ?thesis by (rule sq.shorten_answer [OF assms [unfolded Memory sql_ops.simps]])
next
  case (SQLite path ret)
  show ?thesis by (rule sq.shorten_answer [OF assms [unfolded SQLite sql_ops.simps]])
next
  case (Postgres dsn ret)
  show ?thesis by (rule pg.shorten_answer [OF assms [unfolded Postgres sql_ops.simps]])
qed

lemma sql_link_answered:
  assumes "server_ok sql_inv sv" and "sql_view (store_of sv) c = Some m" and "code_for env req c" and "c \<notin> {''readyz'', ''metrics''}"
    and "r_Method g = ''GET''" and "in_path j = [c]" and "snd (read_limit w j g (sv_readLimiter sv)) = None"
    and "m_PasswordHash m = []" and "m_MaxClicks m = 0" and "m_Destinations m = []" and "\<not> expired_at (in_clk j 0) m"
    and "\<not> snd (target_refused (w_redirect w) (in_env j) (in_clk j 1) (m_OriginalURL m) (rs_cache (sv_state sv)))"
  shows "snd (server_request (sql_ops b) w j g sv) = RedirectA (Payload 302 (page.Found (m_OriginalURL m)))"
  using sq.live_link_answered [OF assms] pg.live_link_answered [OF assms] by (cases b) simp_all

lemma sql_run_formed: "sql_run b w sv evs sv' \<Longrightarrow> server_formed sql_inv sql_view parse sv \<Longrightarrow> list_all (parses_with parse) evs \<Longrightarrow>
    server_formed sql_inv sql_view parse sv'"
  using sq.run_formed [of w sv evs sv' parse] pg.run_formed [of w sv evs sv' parse] by (cases b) simp_all

section \<open>Restarts\<close>

text \<open>
  C3. On the SQL backends links survive a restart: whatever one process on the tables did and however
  it was configured, the next one on the same tables still has the link, with its destination,
  owner, expiry, cap, password, tags and webhook, unless its owner deleted, patched or rotated it
  or a cleanup pass found it expired in one of the two.
\<close>

theorem links_survive_restart:
  assumes "sql_inv db" and "sql_view db c = Some m"
    and "sql_boot be sqlite postgres cfg db = Some (b, w, sv0)" and "sql_run b w sv0 evs sv1" and "sql_left_alone b w c evs sv0"
    and "sql_boot be' sqlite' postgres' cfg' (store_of sv1) = Some (b', w', sv0')" and "sql_run b' w' sv0' evs' sv2"
    and "sql_left_alone b' w' c evs' sv0'"
  shows "\<exists>m'. sql_view (store_of sv2) c = Some m' \<and> same_link m m'"
proof -
  note one = sql_boot_ok [OF assms(3,1)]
  have inv: "server_ok sql_inv sv1" using sql_run_ok [OF assms(4)] one by blast
  then have "sql_inv (store_of sv1)" by (simp add: server_ok_def)
  note two = sql_boot_ok [OF assms(6) this]
  have "link_kept c (sql_view db) (sql_view (store_of sv1))" "link_kept c (sql_view (store_of sv1)) (sql_view (store_of sv2))"
    using sql_run_keeps [OF assms(4) _ assms(5)] one sql_run_keeps [OF assms(7) _ assms(8)] two by simp_all
  then show ?thesis using link_kept_trans assms(2) unfolding link_kept_def by blast
qed

text \<open>
  C4. A link created on an SQL backend can be followed by the next process on the same tables: after
  the 201, any run, a restart with any configuration and any run of the new process that leave the
  link alone, a GET of its code that passes the read limiter is answered with the 302 to the URL it
  was created for, if the code is neither readyz nor metrics, the link has no cap, password or split destinations, has not expired as far
  as the database can tell, and its host is neither denied by the new process nor found reserved at
  that moment.
\<close>

theorem link_followed_after_restart:
  assumes "sql_inv db" and "sql_boot be sqlite postgres cfg db = Some (b, w, sv0)" and "sql_run b w sv0 before sv"
    and "server_request (sql_ops b) w i r sv = (sv1, ShortenA (Payload 201 resp))" and "c = p_ShortCode resp"
    and "sql_run b w sv1 evs sv2" and "sql_left_alone b w c evs sv1"
    and "sql_boot be' sqlite' postgres' cfg' (store_of sv2) = Some (b', w', sv0')" and "sql_run b' w' sv0' evs' sv3"
    and "sql_left_alone b' w' c evs' sv0'"
    and "r_Method g = ''GET''" and "in_path j = [c]" and "c \<notin> {''readyz'', ''metrics''}"
    and "snd (read_limit w' j g (sv_readLimiter sv3)) = None"
    and "\<not> p_HasPassword resp" and "p_MaxClicks resp = 0" and "p_Destinations resp = []"
    and "case p_ExpiresAt resp of None \<Rightarrow> True | Some t \<Rightarrow> in_clk j 0 \<le> stored_time t"
    and "\<not> snd (target_refused (w_redirect w') (in_env j) (in_clk j 1) (p_OriginalURL resp) (rs_cache (sv_state sv3)))"
  shows "snd (server_request (sql_ops b') w' j g sv3) = RedirectA (Payload 302 (page.Found (p_OriginalURL resp)))"
proof -
  have ok: "server_ok sql_inv sv" using sql_run_ok [OF assms(3)] sql_boot_ok [OF assms(2,1)] by blast
  obtain m req where m: "server_ok sql_inv sv1" "sql_view (store_of sv1) c = Some (norm_mapping stored_time m)"
      "resp = shorten_response_of (w_shorten w) m (p_AdminToken resp)" "code_for (in_env i) req c"
    using sql_shorten_answer [OF ok assms(4)] assms(5) by blast
  have ok2: "server_ok sql_inv sv2" by (rule sql_run_ok [OF assms(6) m(1)])
  then have "sql_inv (store_of sv2)" by (simp add: server_ok_def)
  note boot = sql_boot_ok [OF assms(8) this]
  have ok3: "server_ok sql_inv sv3" using sql_run_ok [OF assms(9)] boot by blast
  have "link_kept c (sql_view (store_of sv1)) (sql_view (store_of sv3))"
    using sql_run_keeps [OF assms(6) m(1) assms(7)] sql_run_keeps [OF assms(9) conjunct1 [OF boot] assms(10)] boot link_kept_trans
    by simp
  then obtain m' where m': "sql_view (store_of sv3) c = Some m'" "same_link (norm_mapping stored_time m) m'"
    using m(2) by (auto simp: link_kept_def)
  note f = sq.answered_fields [OF m(3) m'(2) assms(15-18)]
  show ?thesis using sql_link_answered [OF ok3 m'(1) m(4) assms(13,11,12,14) f(1-4)] assms(19) by (simp add: f(5))
qed

text \<open>The form of the links, from tables whose links have it.\<close>

theorem sql_links_well_formed:
  assumes "sql_inv db" and "links_formed parse (sql_view db)" and "sql_boot be sqlite postgres cfg db = Some (b, w, sv0)"
    and "sql_run b w sv0 evs sv" and "list_all (parses_with parse) evs" and "sql_view (store_of sv) c = Some m"
  shows "well_formed_link parse c m"
  using sql_run_formed [OF assms(4) _ assms(5)] sql_boot_ok [OF assms(3,1)] assms(2,6) by (simp add: links_formed_def)

section \<open>A restart on SQLite\<close>

definition sqlite_config :: config where
  "sqlite_config = Load (\<lambda>k. if k = ''STORAGE_BACKEND'' then ''sqlite'' else if k = ''SQLITE_PATH'' then ''db''
     else if k = ''CLICK_RETENTION_DAYS'' then ''0'' else [])"

definition sqlite_wiring :: wiring where
  "sqlite_wiring = wire demo_build sqlite_config None"

definition sqlite_start :: "sql_store \<Rightarrow> sql_store server" where
  "sqlite_start db = initial_server sqlite_config (opened (SQLite ''db'' None) db)"

abbreviation sqlite_step :: "event \<Rightarrow> sql_store server \<Rightarrow> sql_store server" where
  "sqlite_step \<equiv> server_step (sql_ops (SQLite ''db'' None)) (sql_cleanup (SQLite ''db'' None)) sqlite_wiring"

lemma sqlite_boots: "sql_boot demo_build (\<lambda>p. None) (\<lambda>p. None) sqlite_config db
    = Some (SQLite ''db'' None, sqlite_wiring, sqlite_start db)"
proof -
  have "openStore (\<lambda>p. None) (\<lambda>p. None) sqlite_config = Inr (SQLite ''db'' None)"
    and "loadDenyList (n_lower (be_env demo_build)) (be_denyFile demo_build) sqlite_config = Inr None" by code_simp+
  then show ?thesis
    by (simp add: sql_boot_def buildHandler_def sqlite_wiring_def sqlite_start_def demo_assets)
qed

definition sqlite_posted :: "sql_store server" where
  "sqlite_posted = sqlite_step demo_post (sqlite_start NewSQLiteStore)"

definition demo_resp :: shorten_response where
  "demo_resp = promo_response\<lparr>p_ShortURL := ''http://localhost:8080/promo'', p_ExpiresAt := Some 5400000001000, p_MaxClicks := 0\<rparr>"

lemma sqlite_post: "server_request (sql_ops (SQLite ''db'' None)) sqlite_wiring (demo_inputs [''api'', ''shorten''])
    (demo_request ''POST'' ''x'') (sqlite_start NewSQLiteStore) = (sqlite_posted, ShortenA (Payload 201 demo_resp))"
proof -
  have "snd (server_request (sql_ops (SQLite ''db'' None)) sqlite_wiring (demo_inputs [''api'', ''shorten''])
    (demo_request ''POST'' ''x'') (sqlite_start NewSQLiteStore)) = ShortenA (Payload 201 demo_resp)" by code_simp
  then show ?thesis by (simp add: sqlite_posted_def demo_post_def prod_eq_iff)
qed

lemma sqlite_view: "map_option (\<lambda>m. (m_OriginalURL m, m_OwnerTokenHash m, m_APIKeyID m, m_ExpiresAt m)) (sql_view (store_of sqlite_posted) ''promo'')
    = Some (''https://example.com/a'', [4, 7], 0, Some 5400000001000)"
  by code_simp

text \<open>
  Two more processes on the tables: one sees a DELETE of someone else, the other an early cleanup
  pass.
\<close>

definition sqlite_tables :: sql_store where
  "sqlite_tables = store_of sqlite_posted"

definition sqlite_first :: "sql_store server" where
  "sqlite_first = sqlite_step demo_delete (sqlite_start sqlite_tables)"

definition sqlite_second :: "sql_store server" where
  "sqlite_second = sqlite_step (CleanupTick 2000) (sqlite_start (store_of sqlite_first))"

lemma sqlite_start_view: "sql_view (store_of (sqlite_start db)) = sql_view db"
  unfolding sqlite_start_def initial_server_def by (simp del: opened.simps)

lemma sqlite_tables_ok: "sql_inv sqlite_tables"
proof -
  have "sql_run (SQLite ''db'' None) sqlite_wiring (sqlite_start NewSQLiteStore) [demo_post] sqlite_posted"
    unfolding sqlite_posted_def by (intro server_run.intros demo_post_fresh)
  then have "server_ok sql_inv sqlite_posted" using sql_run_ok sql_boot_ok [OF sqlite_boots sql_inv_new] by blast
  then show ?thesis by (simp add: server_ok_def sqlite_tables_def)
qed

lemma sqlite_first_run: "sql_run (SQLite ''db'' None) sqlite_wiring (sqlite_start sqlite_tables) [demo_delete] sqlite_first"
    "sql_left_alone (SQLite ''db'' None) sqlite_wiring ''promo'' [demo_delete] (sqlite_start sqlite_tables)"
proof -
  have "map_option (\<lambda>m. (m_OwnerTokenHash m, m_APIKeyID m)) (sql_view (store_of (sqlite_start sqlite_tables)) ''promo'') = Some ([4, 7], 0)"
    using sqlite_view by (auto simp: sqlite_start_view sqlite_tables_def)
  note d = foreign_delete [where view = sql_view, OF this]
  show "sql_run (SQLite ''db'' None) sqlite_wiring (sqlite_start sqlite_tables) [demo_delete] sqlite_first"
    unfolding sqlite_first_def using d by (intro server_run.intros) blast
  show "sql_left_alone (SQLite ''db'' None) sqlite_wiring ''promo'' [demo_delete] (sqlite_start sqlite_tables)" using d by simp
qed

lemma sqlite_second_run:
  "sql_run (SQLite ''db'' None) sqlite_wiring (sqlite_start (store_of sqlite_first)) [CleanupTick 2000] sqlite_second"
  "sql_left_alone (SQLite ''db'' None) sqlite_wiring ''promo'' [CleanupTick 2000] (sqlite_start (store_of sqlite_first))"
proof -
  show "sql_run (SQLite ''db'' None) sqlite_wiring (sqlite_start (store_of sqlite_first)) [CleanupTick 2000] sqlite_second"
    unfolding sqlite_second_def by (intro server_run.intros) (simp add: fresh_event_def)
  have "link_kept ''promo'' (sql_view sqlite_tables) (sql_view (store_of sqlite_first))"
    using sql_run_keeps [OF sqlite_first_run(1) conjunct1 [OF sql_boot_ok [OF sqlite_boots sqlite_tables_ok]] sqlite_first_run(2)]
    by (simp add: sqlite_start_view)
  then obtain m where "sql_view (store_of sqlite_first) ''promo'' = Some m" "m_ExpiresAt m = Some 5400000001000"
    using sqlite_view same_link_fields by (fastforce simp: link_kept_def sqlite_tables_def)
  then show "sql_left_alone (SQLite ''db'' None) sqlite_wiring ''promo'' [CleanupTick 2000] (sqlite_start (store_of sqlite_first))"
    by (simp add: acts_on_def sqlite_start_view expired_at_def stored_time_id in_int64_def)
qed

theorem links_survive_restart_witness:
  "\<exists>m. sql_view (store_of sqlite_second) ''promo'' = Some m \<and> m_OriginalURL m = ''https://example.com/a''"
proof -
  obtain m where m: "sql_view sqlite_tables ''promo'' = Some m" "m_OriginalURL m = ''https://example.com/a''"
    using sqlite_view by (auto simp: sqlite_tables_def)
  show ?thesis
    using links_survive_restart [OF sqlite_tables_ok m(1) sqlite_boots sqlite_first_run sqlite_boots sqlite_second_run]
      m(2) same_link_fields by fastforce
qed

theorem link_followed_after_restart_witness:
  "snd (server_request (sql_ops (SQLite ''db'' None)) sqlite_wiring (demo_inputs [''promo'']) (demo_request ''GET'' ''x'') sqlite_first)
   = RedirectA (Payload 302 (page.Found ''https://example.com/a''))"
proof -
  have c: "''promo'' = p_ShortCode demo_resp" by (simp add: demo_resp_def promo_response_def)
  have lim: "snd (read_limit sqlite_wiring (demo_inputs [''promo'']) (demo_request ''GET'' ''x'') (sv_readLimiter sqlite_first)) = None" by code_simp
  have ref: "\<not> snd (target_refused (w_redirect sqlite_wiring) (in_env (demo_inputs [''promo''])) (in_clk (demo_inputs [''promo'']) 1)
      ''https://example.com/a'' (rs_cache (sv_state sqlite_first)))" by code_simp
  have alone: "sql_left_alone (SQLite ''db'' None) sqlite_wiring ''promo'' [] sqlite_posted" by simp
  show ?thesis
    using link_followed_after_restart [OF sql_inv_new sqlite_boots server_run.rest sqlite_post c server_run.rest alone sqlite_boots
        sqlite_first_run [unfolded sqlite_tables_def], of "demo_request ''GET'' ''x''" "demo_inputs [''promo'']"] lim ref
    by (simp add: demo_request_def demo_inputs_def demo_resp_def promo_response_def stored_time_id in_int64_def)
qed

end
