(* ===== verification/Threads.thy ===== *)
theory Threads
  imports Patch_Props
begin

text \<open>
  Requests that interleave. A handler calls the store several times and holds no lock in between, so
  between its check of the caller and its write other requests run. Here the handlers that write
  mappings are threads whose steps are their store calls; run alone, a thread is its handler
  (\<open>threads_are_handlers\<close>). \<^verbatim>\<open>Interleave\<close> runs any number of them at once.
\<close>

section \<open>Threads\<close>

text \<open>What a goroutine still has to do: answer, or make one store call and go on.\<close>

datatype ('s, 'r) thread = Return 'r | Step "'s \<Rightarrow> 's \<times> ('s, 'r) thread"

definition call :: "('s \<Rightarrow> 's \<times> 'a) \<Rightarrow> ('a \<Rightarrow> ('s, 'r) thread) \<Rightarrow> ('s, 'r) thread" where
  "call f k = Step (\<lambda>s. case f s of (s', a) \<Rightarrow> (s', k a))"

definition look :: "('s \<Rightarrow> 'a) \<Rightarrow> ('a \<Rightarrow> ('s, 'r) thread) \<Rightarrow> ('s, 'r) thread" where
  "look f k = Step (\<lambda>s. (s, k (f s)))"

definition act :: "('s \<Rightarrow> 's) \<Rightarrow> ('s, 'r) thread \<Rightarrow> ('s, 'r) thread" where
  "act f k = Step (\<lambda>s. (f s, k))"

text \<open>A thread that is never interrupted.\<close>

primrec alone :: "('s, 'r) thread \<Rightarrow> 's \<Rightarrow> 's \<times> 'r" where
  "alone (Return r) = (\<lambda>s. (s, r))"
| "alone (Step f) = (\<lambda>s. case map_prod id alone (f s) of (s', g) \<Rightarrow> g s')"

lemma alone_simps [simp]:
  "alone (call f k) s = (case f s of (s', a) \<Rightarrow> alone (k a) s')"
  "alone (look g h) s = alone (h (g s)) s"
  "alone (act u t) s = alone t (u s)"
  by (simp_all add: call_def look_def act_def split: prod.split)

section \<open>The handlers as threads\<close>

text \<open>
  \<^verbatim>\<open>authorizeAccess\<close>, \<^verbatim>\<open>resolveActor\<close> and \<^verbatim>\<open>detectAPIKey\<close> make at most one store call (the key lookup), so
  each is one step.
\<close>

definition delete_thread :: "'s store_ops \<Rightarrow> env \<Rightarrow> (nat \<Rightarrow> time) \<Rightarrow> request \<Rightarrow> ('s, unit reply) thread" where
  "delete_thread ops env clk r =
     (let code = r_Code r in
      if code = '''' then Return (WriteError 400 ''Short code is required'')
      else look (st_Get ops (clk 0) code) (\<lambda>res. case res of
        Inl e \<Rightarrow> Return (get_error e)
      | Inr m \<Rightarrow> call (authorizeAccess ops env (clk 1) r m) (\<lambda>ok.
          if \<not> ok then Return (WriteError 401 ''missing or invalid admin token'')
          else call (st_Delete ops code) (\<lambda>err. case err of
            Some ErrNotFound \<Rightarrow> Return (Bare 204)
          | Some e \<Rightarrow> Return (HttpError 500 ''Internal server error'')
          | None \<Rightarrow> call (resolveActor ops env (clk 2) r (Some m)) (\<lambda>actor.
              act (logAuditBestEffort ops (clk 3) (audit actor AuditActionURLDelete ''url'' code '''' (r_RequestID r)))
                (Return (Bare 204)))))))"

definition rotate_thread :: "'s store_ops \<Rightarrow> env \<Rightarrow> bytes option \<Rightarrow> (nat \<Rightarrow> time) \<Rightarrow> request \<Rightarrow> ('s, rotate_response reply) thread" where
  "rotate_thread ops env rnd clk r =
     (let code = r_Code r in
      if code = '''' then Return (WriteError 400 ''Short code is required'')
      else look (st_Get ops (clk 0) code) (\<lambda>res. case res of
        Inl e \<Rightarrow> Return (get_error e)
      | Inr m \<Rightarrow>
          if \<not> authorizeOwner env r (m_OwnerTokenHash m) then Return (WriteError 401 ''missing or invalid admin token'')
          else case generateOwnerToken env rnd of
            None \<Rightarrow> Return (HttpError 500 ''failed to generate token'')
          | Some (token, hash) \<Rightarrow> call (st_RotateToken ops code hash) (\<lambda>err. case err of
              Some ErrNotFound \<Rightarrow> Return NotFoundPage
            | Some e \<Rightarrow> Return (HttpError 500 ''Internal server error'')
            | None \<Rightarrow> act (logAuditBestEffort ops (clk 1) (audit (AuditActorAdminToken, code) AuditActionURLTokenRotated
                  ''url'' code '''' (r_RequestID r)))
                (Return (Payload 200 \<lparr>rr_ShortCode = code, rr_AdminToken = token\<rparr>)))))"

definition patch_thread :: "'s store_ops \<Rightarrow> patch_cfg \<Rightarrow> env \<Rightarrow> bytes option \<Rightarrow> bytes option \<Rightarrow> (nat \<Rightarrow> time)
    \<Rightarrow> request \<Rightarrow> patch_request option \<Rightarrow> ('s, patch_response reply) thread" where
  "patch_thread ops cfg env salt rnd clk r body =
     (if r_Code r = '''' then Return (WriteError 400 ''Short code is required'')
      else case body of
        None \<Rightarrow> Return (WriteError 400 ''Invalid request body'')
      | Some q \<Rightarrow>
          if patch_empty q
          then Return (WriteError 400 ''Provide at least one of url, expiration_mins, tags, max_clicks, password, webhook_url, destinations'')
          else look (st_Get ops (clk 0) (r_Code r)) (\<lambda>res. case res of
            Inl e \<Rightarrow> Return (get_error e)
          | Inr m \<Rightarrow> call (authorizeAccess ops env (clk 1) r m) (\<lambda>ok.
              if \<not> ok then Return (WriteError 401 ''missing or invalid admin token'')
              else case patch_prepare cfg env salt rnd (clk 2) q m of
                Inl reply \<Rightarrow> Return reply
              | Inr (f, new) \<Rightarrow> call (st_Update ops (clk 3) (r_Code r) f) (\<lambda>err. case err of
                  Some ErrNotFound \<Rightarrow> Return NotFoundPage
                | Some e \<Rightarrow> Return (HttpError 500 ''Internal server error'')
                | None \<Rightarrow> look (st_Get ops (clk 4) (r_Code r)) (\<lambda>res. case res of
                    Inl e \<Rightarrow> Return (HttpError 500 ''Internal server error'')
                  | Inr updated \<Rightarrow> call (resolveActor ops env (clk 5) r (Some m)) (\<lambda>actor.
                      act (logAuditBestEffort ops (clk 6)
                          (audit actor AuditActionURLPatch ''url'' (r_Code r) (patch_metadata q) (r_RequestID r)))
                        (Return (Payload 200 (patch_response_of updated new)))))))))"

text \<open>Creating a link: the custom code is looked up before the other checks, a random one after them.\<close>

definition custom_thread :: "'s store_ops \<Rightarrow> env \<Rightarrow> shorten_request \<Rightarrow> (item_error + string \<Rightarrow> ('s, 'r) thread) \<Rightarrow> ('s, 'r) thread" where
  "custom_thread ops env req k =
     (if q_CustomCode req = '''' then k (Inr '''')
      else case ValidateCustomCode (n_lower env) (q_CustomCode req) of
        Some e \<Rightarrow> k (fail_item 400 ''invalid_custom_code'' (customCodeMessage e))
      | None \<Rightarrow> look (st_Exists ops (q_CustomCode req)) (\<lambda>taken.
          k (if taken then fail_item 409 ''code_conflict'' ''custom code is already in use'' else Inr (q_CustomCode req))))"

fun try_thread :: "'s store_ops \<Rightarrow> nat \<Rightarrow> nat \<Rightarrow> (nat \<Rightarrow> bytes option list) \<Rightarrow> (string option \<Rightarrow> ('s, 'r) thread) \<Rightarrow> ('s, 'r) thread" where
  "try_thread ops 0 i draws k = k None"
| "try_thread ops (Suc n) i draws k =
     (case generateRandomBase62 shortCodeLength (draws i) of
        None \<Rightarrow> k None
      | Some code \<Rightarrow> look (st_Exists ops code) (\<lambda>taken. if \<not> taken then k (Some code) else try_thread ops n (Suc i) draws k))"

definition code_thread :: "'s store_ops \<Rightarrow> draws \<Rightarrow> string \<Rightarrow> (item_error + string \<Rightarrow> ('s, 'r) thread) \<Rightarrow> ('s, 'r) thread" where
  "code_thread ops dr custom k =
     (if custom \<noteq> '''' then k (Inr custom)
      else try_thread ops maxRetries 0 (dr_codes dr) (\<lambda>res. case res of
        None \<Rightarrow> k (fail_item 500 ''internal'' ''Failed to generate short code'')
      | Some c \<Rightarrow> k (Inr c)))"

text \<open>The checks in between read no store.\<close>

definition checked :: "shorten_cfg \<Rightarrow> env \<Rightarrow> draws \<Rightarrow> shorten_request
    \<Rightarrow> item_error + int \<times> string list \<times> (bytes \<times> bytes) \<times> destination list \<times> bytes" where
  "checked cfg env dr req =
     and_then (stage_url cfg env req) (\<lambda>_.
     and_then (stage_expiration cfg req) (\<lambda>mins.
     and_then (stage_tags req) (\<lambda>tags.
     and_then (stage_max_clicks req) (\<lambda>_.
     and_then (stage_password env dr req) (\<lambda>pw.
     and_then (stage_destinations cfg env req) (\<lambda>dests.
     and_then (stage_webhook cfg env dr req) (\<lambda>secret.
       Inr (mins, tags, pw, dests, secret))))))))"

definition shorten_fail :: "item_error \<Rightarrow> ('s, (string \<times> string) list \<times> shorten_response reply) thread" where
  "shorten_fail e = Return ([], WriteError (i_Status e) (i_Message e))"

definition store_thread :: "'s store_ops \<Rightarrow> shorten_cfg \<Rightarrow> (nat \<Rightarrow> time) \<Rightarrow> shorten_request \<Rightarrow> int \<Rightarrow> string \<Rightarrow> url_mapping \<Rightarrow> string
    \<Rightarrow> ('s, (string \<times> string) list \<times> shorten_response reply) thread" where
  "store_thread ops cfg clk req key reqID m token =
     call (st_Set ops (m_ID m) m) (\<lambda>err. case err of
       Some ErrCodeConflict \<Rightarrow> shorten_fail \<lparr>i_Status = 409, i_Code = ''code_conflict'', i_Message = ''custom code is already in use''\<rparr>
     | Some _ \<Rightarrow> shorten_fail \<lparr>i_Status = 500, i_Code = ''internal'', i_Message = ''Failed to store URL''\<rparr>
     | None \<Rightarrow>
         act (logAuditBestEffort ops (clk 2) (audit (if key > 0 then (AuditActorAPIKey, show_int key) else (AuditActorAnon, ''''))
             AuditActionURLCreate ''url'' (m_ID m) '''' reqID))
           (Return (if h_unfurler cfg then [(m_ID m, q_URL req)] else [], Payload 201 (shorten_response_of cfg m token))))"

definition create_thread :: "'s store_ops \<Rightarrow> shorten_cfg \<Rightarrow> env \<Rightarrow> draws \<Rightarrow> (nat \<Rightarrow> time) \<Rightarrow> shorten_request \<Rightarrow> int \<Rightarrow> string
    \<Rightarrow> ('s, (string \<times> string) list \<times> shorten_response reply) thread" where
  "create_thread ops cfg env dr clk req key reqID =
     custom_thread ops env req (\<lambda>x. case x of
       Inl e \<Rightarrow> shorten_fail e
     | Inr custom \<Rightarrow> (case checked cfg env dr req of
         Inl e \<Rightarrow> shorten_fail e
       | Inr (mins, tags, (pwHash, pwSalt), dests, secret) \<Rightarrow>
           code_thread ops dr custom (\<lambda>x. case x of
             Inl e \<Rightarrow> shorten_fail e
           | Inr code \<Rightarrow> (case stage_token env dr of
               Inl e \<Rightarrow> shorten_fail e
             | Inr (token, hash) \<Rightarrow>
                 store_thread ops cfg clk req key reqID
                   \<lparr>m_ID = code, m_OriginalURL = q_URL req, m_CreatedAt = clk 1,
                    m_ExpiresAt = (if mins > 0 then Some (clk 0 + minutes mins) else None),
                    m_ClickCount = 0, m_LastAccessed = None, m_OwnerTokenHash = hash, m_Tags = tags,
                    m_MaxClicks = q_MaxClicks req, m_PasswordHash = pwHash, m_PasswordSalt = pwSalt,
                    m_WebhookURL = q_WebhookURL req, m_WebhookSecret = secret, m_APIKeyID = key,
                    m_PreviewTitle = '''', m_PreviewImage = '''', m_PreviewDescription = '''',
                    m_PreviewFetchedAt = None, m_Destinations = dests\<rparr> token))))"

definition shorten_thread :: "'s store_ops \<Rightarrow> shorten_cfg \<Rightarrow> env \<Rightarrow> draws \<Rightarrow> (nat \<Rightarrow> time) \<Rightarrow> request
    \<Rightarrow> shorten_request option \<Rightarrow> ('s, (string \<times> string) list \<times> shorten_response reply) thread" where
  "shorten_thread ops cfg env dr clk r body =
     (if r_Method r \<noteq> ''POST'' then Return ([], WriteError 405 ''Only POST method is allowed'')
      else call (detectAPIKey ops env (clk 3) r) (\<lambda>key. case body of
        None \<Rightarrow> Return ([], WriteError 400 ''Invalid request body'')
      | Some req \<Rightarrow> create_thread ops cfg env dr clk req key (r_RequestID r)))"

section \<open>A thread alone is its handler\<close>

lemma alone_try: "(\<And>x. alone (k x) s = g x) \<Longrightarrow>
    alone (try_thread ops n i draws k) s = g (try_codes n i draws (\<lambda>c. st_Exists ops c s))"
  by (induction n arbitrary: i) (simp_all split: option.split)

lemma alone_custom: "alone (custom_thread ops env req k) s = alone (k (stage_custom ops env req s)) s"
  by (simp add: custom_thread_def stage_custom_def split: option.split)

lemma alone_code: "alone (code_thread ops dr custom k) s = alone (k (stage_code ops dr custom s)) s"
  using alone_try [where s = s and k = "\<lambda>res. case res of None \<Rightarrow> k (fail_item 500 ''internal'' ''Failed to generate short code'') | Some c \<Rightarrow> k (Inr c)"]
  by (simp add: code_thread_def stage_code_def GenerateShortCode_def split: option.split)

lemma and_then_assoc: "and_then (and_then x f) g = and_then x (\<lambda>a. and_then (f a) g)"
  by (cases x) simp_all

lemma prepare_checked: "prepare ops cfg env dr clk req key s =
    and_then (stage_custom ops env req s) (\<lambda>custom. and_then (checked cfg env dr req) (\<lambda>(mins, tags, (pwHash, pwSalt), dests, secret).
      and_then (stage_code ops dr custom s) (\<lambda>code. and_then (stage_token env dr) (\<lambda>(token, hash).
        Inr (\<lparr>m_ID = code, m_OriginalURL = q_URL req, m_CreatedAt = clk 1,
           m_ExpiresAt = (if mins > 0 then Some (clk 0 + minutes mins) else None),
           m_ClickCount = 0, m_LastAccessed = None, m_OwnerTokenHash = hash, m_Tags = tags,
           m_MaxClicks = q_MaxClicks req, m_PasswordHash = pwHash, m_PasswordSalt = pwSalt,
           m_WebhookURL = q_WebhookURL req, m_WebhookSecret = secret, m_APIKeyID = key,
           m_PreviewTitle = [], m_PreviewImage = [], m_PreviewDescription = [],
           m_PreviewFetchedAt = None, m_Destinations = dests\<rparr>, token)))))"
  by (simp add: prepare_def checked_def and_then_assoc case_prod_unfold cong: if_cong)

lemma fail_item_eq: "fail_item st c msg = Inl \<lparr>i_Status = st, i_Code = c, i_Message = msg\<rparr>"
  by (simp add: fail_item_def)

lemma alone_create: "alone (create_thread ops cfg env dr clk req key reqID) s =
    (case shortenOne ops cfg env dr clk req key reqID s of
       (s', jobs, Inl e) \<Rightarrow> (s', jobs, WriteError (i_Status e) (i_Message e))
     | (s', jobs, Inr resp) \<Rightarrow> (s', jobs, Payload 201 resp))"
proof (cases "stage_custom ops env req s")
  case (Inl e)
  then show ?thesis by (simp add: create_thread_def alone_custom shortenOne_def prepare_checked shorten_fail_def)
next
  case (Inr custom)
  note custom = this
  show ?thesis
  proof (cases "checked cfg env dr req")
    case (Inl e)
    then show ?thesis using custom by (simp add: create_thread_def alone_custom shortenOne_def prepare_checked shorten_fail_def)
  next
    case (Inr x)
    obtain mins tags h salt dests secret where x: "x = (mins, tags, (h, salt), dests, secret)" by (metis prod.exhaust)
    show ?thesis
    proof (cases "stage_code ops dr custom s")
      case (Inl e)
      then show ?thesis using custom Inr x
        by (simp add: create_thread_def alone_custom alone_code shortenOne_def prepare_checked shorten_fail_def)
    next
      case code: (Inr code)
      show ?thesis using custom Inr x code
        by (cases "stage_token env dr") (simp_all add: create_thread_def alone_custom alone_code shortenOne_def prepare_checked
            shorten_fail_def store_thread_def fail_item_eq Let_def case_prod_unfold split: option.split store_err.split)
    qed
  qed
qed

text \<open>
  A thread that nothing interrupts does what its handler does: the threads are the handlers, cut
  at their store calls.
\<close>

theorem threads_are_handlers:
  "alone (delete_thread ops env clk r) s = delete_ServeHTTP ops env clk r s"
  "alone (rotate_thread ops env rnd clk r) s = rotate_ServeHTTP ops env rnd clk r s"
  "alone (patch_thread ops pcfg env salt rnd clk r pbody) s = patch_ServeHTTP ops pcfg env salt rnd clk r pbody s"
  "alone (shorten_thread ops cfg env dr clk r body) s = shorten_ServeHTTP ops cfg env dr clk r body s"
proof -
  show "alone (delete_thread ops env clk r) s = delete_ServeHTTP ops env clk r s"
    by (simp add: delete_thread_def delete_ServeHTTP_def Let_def split: sum.split prod.split bool.split option.split store_err.split)
  show "alone (rotate_thread ops env rnd clk r) s = rotate_ServeHTTP ops env rnd clk r s"
    by (simp add: rotate_thread_def rotate_ServeHTTP_def Let_def split: sum.split prod.split option.split store_err.split)
  show "alone (patch_thread ops pcfg env salt rnd clk r pbody) s = patch_ServeHTTP ops pcfg env salt rnd clk r pbody s"
    by (simp add: patch_thread_def patch_ServeHTTP_def patch_apply_def Let_def
        split: sum.split prod.split bool.split option.split store_err.split)
  show "alone (shorten_thread ops cfg env dr clk r body) s = shorten_ServeHTTP ops cfg env dr clk r body s"
    by (simp add: shorten_thread_def shorten_ServeHTTP_def alone_create split: prod.split option.split sum.split)
qed

end
