(* ===== verification/Interleave.thy ===== *)
theory Interleave
  imports Threads Server_Backends
begin

text \<open>
  Requests in flight: any number of threads (\<^verbatim>\<open>Threads\<close>) interleave at their store calls, with the
  calls the rest of the server makes in between: clicks, previews, the life of the API keys, audit
  events and the cleanup pass.
\<close>

section \<open>Requests in flight\<close>

text \<open>The requests that write mappings, each with the outcomes it needs from outside.\<close>

datatype link_request =
    DeleteL env "nat \<Rightarrow> time" request
  | RotateL env "bytes option" "nat \<Rightarrow> time" request
  | PatchL patch_cfg env "bytes option" "bytes option" "nat \<Rightarrow> time" request "patch_request option"
  | ShortenL shorten_cfg env draws "nat \<Rightarrow> time" request "shorten_request option"

fun thread_of :: "'s store_ops \<Rightarrow> link_request \<Rightarrow> ('s, answer) thread" where
  "thread_of ops (DeleteL env clk r) = map_thread DeleteA (delete_thread ops env clk r)"
| "thread_of ops (RotateL env rnd clk r) = map_thread RotateA (rotate_thread ops env rnd clk r)"
| "thread_of ops (PatchL cfg env salt rnd clk r body) = map_thread PatchA (patch_thread ops cfg env salt rnd clk r body)"
| "thread_of ops (ShortenL cfg env dr clk r body) = map_thread (\<lambda>x. ShortenA (snd x)) (shorten_thread ops cfg env dr clk r body)"

text \<open>
  The calls that write the store outside of these threads: a redirect records a click, the unfurler
  writes a preview, a request looks a key up, a key is created, renamed or revoked, an event is
  logged, the cleanup goroutine makes a pass (\<open>sweep\<close>).
\<close>

datatype other_call =
    ClickC string click_event
  | PreviewC time string preview
  | LookupC time bytes
  | CreateKeyC time string bytes
  | LabelKeyC int string
  | DeleteKeyC int
  | AuditC time audit_event
  | CleanupC time

fun other_step :: "'s store_ops \<Rightarrow> (time \<Rightarrow> 's \<Rightarrow> 's) \<Rightarrow> other_call \<Rightarrow> 's \<Rightarrow> 's" where
  "other_step ops sweep (ClickC c ev) s = fst (st_RecordClick ops c ev s)"
| "other_step ops sweep (PreviewC t c p) s = fst (st_Update ops t c (preview_update p) s)"
| "other_step ops sweep (LookupC t h) s = fst (st_LookupAPIKey ops t h s)"
| "other_step ops sweep (CreateKeyC t l h) s = fst (st_CreateAPIKey ops t l h s)"
| "other_step ops sweep (LabelKeyC i l) s = fst (st_UpdateAPIKeyLabel ops i l s)"
| "other_step ops sweep (DeleteKeyC i) s = fst (st_DeleteAPIKey ops i s)"
| "other_step ops sweep (AuditC t e) s = fst (st_LogAudit ops t e s)"
| "other_step ops sweep (CleanupC t) s = sweep t s"

text \<open>
  The store and the requests in flight. A request may arrive, any thread may make its next store
  call, and so may the rest of the server; \<open>P\<close> and \<open>A\<close> say which requests and which calls.
\<close>

inductive pool_run :: "'s store_ops \<Rightarrow> (time \<Rightarrow> 's \<Rightarrow> 's) \<Rightarrow> (link_request \<Rightarrow> bool) \<Rightarrow> ('s \<Rightarrow> other_call \<Rightarrow> bool)
    \<Rightarrow> 's \<times> ('s, answer) thread list \<Rightarrow> 's \<times> ('s, answer) thread list \<Rightarrow> bool"
  for ops sweep P A x0 where
  rest: "pool_run ops sweep P A x0 x0"
| arrive: "pool_run ops sweep P A x0 (s, ts) \<Longrightarrow> P q \<Longrightarrow> pool_run ops sweep P A x0 (s, ts @ [thread_of ops q])"
| advance: "pool_run ops sweep P A x0 (s, ts) \<Longrightarrow> i < length ts \<Longrightarrow> ts ! i = Step f \<Longrightarrow> f s = (s', t) \<Longrightarrow>
    pool_run ops sweep P A x0 (s', ts[i := t])"
| other: "pool_run ops sweep P A x0 (s, ts) \<Longrightarrow> A s x \<Longrightarrow> pool_run ops sweep P A x0 (other_step ops sweep x s, ts)"

text \<open>A cleanup pass before the mapping expires, and a new key whose token is not that of a live key.\<close>

fun in_time :: "('s \<Rightarrow> bytes \<Rightarrow> int option) \<Rightarrow> (time \<Rightarrow> time) \<Rightarrow> url_mapping \<Rightarrow> 's \<Rightarrow> other_call \<Rightarrow> bool" where
  "in_time owner norm m s (CleanupC t) = (\<not> expired_at (norm t) m)"
| "in_time owner norm m s (CreateKeyC t l h) = (owner s h = None)"
| "in_time owner norm m s x = True"

text \<open>
  A request without a credential of the mapping \<open>m\<close> at \<open>c\<close>: one that asks to write another code, or
  carries neither its owner token nor the key it is bound to. A creation always qualifies.
\<close>

fun foreign :: "(bytes \<Rightarrow> int option) \<Rightarrow> string \<Rightarrow> url_mapping \<Rightarrow> link_request \<Rightarrow> bool" where
  "foreign own c m (DeleteL env clk r) = (r_Code r = c \<longrightarrow> \<not> (\<exists>tok h. extractBearer env r = Some (tok, h) \<and> grants own m h))"
| "foreign own c m (RotateL env rnd clk r) = (r_Code r = c \<longrightarrow> \<not> (\<exists>tok h. extractBearer env r = Some (tok, h) \<and> grants own m h))"
| "foreign own c m (PatchL cfg env salt rnd clk r body) = (r_Code r = c \<longrightarrow> \<not> (\<exists>tok h. extractBearer env r = Some (tok, h) \<and> grants own m h))"
| "foreign own c m (ShortenL cfg env dr clk r body) = True"

section \<open>Threads that do no harm\<close>

text \<open>A thread that keeps \<open>I\<close> at each of its steps, whatever other steps that keep it come in between.\<close>

primrec harmless :: "('s \<Rightarrow> bool) \<Rightarrow> ('s, 'r) thread \<Rightarrow> bool" where
  "harmless I (Return r) = True"
| "harmless I (Step f) = (\<forall>s. I s \<longrightarrow> (case map_prod id (harmless I) (f s) of (s', b) \<Rightarrow> I s' \<and> b))"

lemma harmless_simps [simp]:
  "harmless I (call f k) = (\<forall>s. I s \<longrightarrow> I (fst (f s)) \<and> harmless I (k (snd (f s))))"
  "harmless I (look g h) = (\<forall>s. I s \<longrightarrow> harmless I (h (g s)))"
  "harmless I (act u t) = (\<forall>s. I s \<longrightarrow> I (u s) \<and> harmless I t)"
  by (simp_all add: call_def look_def act_def case_prod_unfold)

lemma harmless_map [simp]: "harmless I (map_thread g t) = harmless I t"
proof (induction t)
  case (Step f)
  have "harmless I (map_thread g (snd (f s))) = harmless I (snd (f s))" for s
    by (rule Step [of "f s"]) (auto intro: snds.intros)
  then show ?case by (simp add: case_prod_unfold)
qed simp

text \<open>Looking for a free code changes nothing.\<close>

lemma harmless_try: "(\<And>x. harmless I (k x)) \<Longrightarrow> harmless I (try_thread ops n i draws k)"
  by (induction n arbitrary: i) (simp_all split: option.split)

lemma harmless_code: "(\<And>x. harmless I (k x)) \<Longrightarrow> harmless I (code_thread ops dr custom k)"
  by (auto simp: code_thread_def intro!: harmless_try split: option.split)

lemma harmless_custom: "(\<And>x. harmless I (k x)) \<Longrightarrow> harmless I (custom_thread ops env req k)"
  by (simp add: custom_thread_def split: option.split)

section \<open>Requests without the credentials do no harm\<close>

text \<open>
  What the requests cannot take away: the store holds the link, and at most the tokens that \<open>own\<close>
  assigns to the key of \<open>m\<close> are tokens of that key, whose ID has been issued.
\<close>

definition still_linked ::
  "('s \<Rightarrow> bool) \<Rightarrow> ('s \<Rightarrow> string \<Rightarrow> url_mapping option) \<Rightarrow> ('s \<Rightarrow> bytes \<Rightarrow> int option) \<Rightarrow> ('s \<Rightarrow> int)
    \<Rightarrow> (bytes \<Rightarrow> int option) \<Rightarrow> string \<Rightarrow> url_mapping \<Rightarrow> 's \<Rightarrow> bool" where
  "still_linked valid view owner issued own c m s = (valid s
     \<and> (m_APIKeyID m \<noteq> 0 \<longrightarrow> m_APIKeyID m \<le> issued s \<and> (\<forall>h. owner s h = Some (m_APIKeyID m) \<longrightarrow> own h = Some (m_APIKeyID m)))
     \<and> (\<exists>m'. view s c = Some m' \<and> same_link m m'))"

lemma still_linked_step:
  "still_linked valid view owner issued own c m s \<Longrightarrow> valid s' \<Longrightarrow> owner s' = owner s \<Longrightarrow> issued s' = issued s \<Longrightarrow>
    view s' c = view s c \<Longrightarrow> still_linked valid view owner issued own c m s'"
  by (simp add: still_linked_def)

text \<open>Gathering clicks and losing the binding to a key add no credential.\<close>

lemma grants_same:
  assumes "still_linked valid view owner issued own c m s" and "same_link m m'" and "grants (owner s) m' h"
  shows "grants own m h"
proof -
  have "m_APIKeyID m' = m_APIKeyID m \<or> m_APIKeyID m' = 0" using assms(2) by (simp add: same_link_def)
  then show ?thesis using assms same_link_fields [OF assms(2)] by (auto simp: grants_def still_linked_def)
qed

context serial_store
begin

abbreviation linked :: "(bytes \<Rightarrow> int option) \<Rightarrow> string \<Rightarrow> url_mapping \<Rightarrow> 's \<Rightarrow> bool" where
  "linked \<equiv> still_linked valid view owner issued"

lemma linked_valid: "linked own c m s \<Longrightarrow> valid s"
  by (simp add: still_linked_def)

lemma lookup_counter: "st_LookupAPIKey ops t h s = (s', r) \<Longrightarrow> issued s' = issued s"
  using lookup_issued [of t h s] by simp

lemma auth_issued:
  "issued (fst (authorizeAccess ops env t r m1 s)) = issued s"
  "issued (fst (resolveActor ops env t r mo s)) = issued s"
  "issued (fst (detectAPIKey ops env t r s)) = issued s"
  "issued (logAuditBestEffort ops t e s) = issued s"
  by (auto simp: authorizeAccess_def resolveActor_def detectAPIKey_def logAuditBestEffort_def audit_issued
      dest!: lookup_counter split: option.split prod.split sum.split)

lemma linked_access: "linked own c m s \<Longrightarrow> linked own c m (fst (authorizeAccess ops env t r m1 s))"
  using authorizeAccess_frame [OF linked_valid prod.collapse [symmetric]] by (auto simp: auth_issued intro: still_linked_step)

lemma linked_actor: "linked own c m s \<Longrightarrow> linked own c m (fst (resolveActor ops env t r mo s))"
  using resolveActor_frame [OF linked_valid prod.collapse [symmetric]] by (auto simp: auth_issued intro: still_linked_step)

lemma linked_detect: "linked own c m s \<Longrightarrow> linked own c m (fst (detectAPIKey ops env t r s))"
  using detectAPIKey_frame [OF linked_valid prod.collapse [symmetric]] by (auto simp: auth_issued intro: still_linked_step)

lemma linked_audit: "linked own c m s \<Longrightarrow> linked own c m (logAuditBestEffort ops t e s)"
  using logAudit_frame [OF linked_valid] by (auto simp: auth_issued intro: still_linked_step)

lemma linked_lookup: "linked own c m s \<Longrightarrow> linked own c m (fst (st_LookupAPIKey ops t h s))"
  by (rule still_linked_step [where s = s]) (simp_all add: linked_valid lookup_valid lookup_owner lookup_view issued_frame)

text \<open>Writes to another code, and a creation, which never overwrites.\<close>

lemma linked_delete: "linked own c m s \<Longrightarrow> d \<noteq> c \<Longrightarrow> linked own c m (fst (st_Delete ops d s))"
  by (rule still_linked_step [where s = s]) (simp_all add: linked_valid delete_valid delete_owner delete_view issued_frame)

lemma linked_rotate: "linked own c m s \<Longrightarrow> d \<noteq> c \<Longrightarrow> linked own c m (fst (st_RotateToken ops d h s))"
  by (rule still_linked_step [where s = s]) (simp_all add: linked_valid rotate_valid rotate_owner rotate_view issued_frame split: option.split)

lemma linked_update: "linked own c m s \<Longrightarrow> d \<noteq> c \<Longrightarrow> paired f \<Longrightarrow> linked own c m (fst (st_Update ops t d f s))"
  by (rule still_linked_step [where s = s]) (simp_all add: linked_valid update_valid update_owner update_view issued_frame split: option.split)

lemma linked_set:
  assumes "linked own c m s" and "insertable d n"
  shows "linked own c m (fst (st_Set ops d n s))"
proof (rule still_linked_step [OF assms(1)])
  obtain m' where "view s c = Some m'" using assms(1) by (auto simp: still_linked_def)
  then show "view (fst (st_Set ops d n s)) c = view s c"
    using linked_valid [OF assms(1)] assms(2) by (auto simp: set_view split: option.split)
qed (simp_all add: linked_valid [OF assms(1)] assms(2) set_valid set_owner issued_frame)

text \<open>The steps of the rest of the server.\<close>

lemma linked_click:
  assumes "linked own c m s"
  shows "linked own c m (fst (st_RecordClick ops d ev s))"
proof -
  have v: "valid s" by (rule linked_valid [OF assms])
  obtain m' where m': "view s c = Some m'" "same_link m m'" using assms by (auto simp: still_linked_def)
  have "same_link m (norm_mapping norm (click_mapping ev m'))"
    using norm_stored_steps(1) [OF stored_normal [OF v m'(1)], of ev] same_link_trans [OF m'(2) same_link_steps(1)] by simp
  then have "\<exists>m''. view (fst (st_RecordClick ops d ev s)) c = Some m'' \<and> same_link m m''"
    using m' by (auto simp: click_view [OF v] split: option.split)
  then show ?thesis using assms v by (simp add: still_linked_def click_valid click_owner issued_frame)
qed

lemma linked_preview:
  assumes "linked own c m s"
  shows "linked own c m (fst (st_Update ops t d (preview_update p) s))"
proof -
  have v: "valid s" by (rule linked_valid [OF assms])
  obtain m' where m': "view s c = Some m'" "same_link m m'" using assms by (auto simp: still_linked_def)
  have "same_link m (norm_mapping norm (with_preview p t m'))"
    using norm_stored_steps(2) [OF stored_normal [OF v m'(1)], of p t] same_link_trans [OF m'(2) same_link_steps(2)] by simp
  then have "\<exists>m''. view (fst (st_Update ops t d (preview_update p) s)) c = Some m'' \<and> same_link m m''"
    using m' by (auto simp: update_view [OF v preview_update_paired] apply_preview_update split: option.split)
  then show ?thesis using assms v by (simp add: still_linked_def update_valid update_owner issued_frame)
qed

text \<open>A new key is not the one of the link, and a revoked one leaves at most its binding behind.\<close>

lemma linked_create_key:
  assumes "linked own c m s" and "owner s h = None"
  shows "linked own c m (fst (st_CreateAPIKey ops t l h s))"
proof -
  obtain s' k where c: "st_CreateAPIKey ops t l h s = (s', Inr k)" "valid s'" "view s' = view s" "owner s' = (owner s)(h \<mapsto> k_ID k)"
    using create_key [OF linked_valid [OF assms(1)] assms(2), of t l] by blast
  have "issued s < k_ID k \<and> k_ID k \<le> issued s'" by (rule create_issued [OF linked_valid [OF assms(1)] assms(2) c(1)])
  then show ?thesis using assms(1) c by (auto simp: still_linked_def)
qed

lemma linked_label_key:
  assumes "linked own c m s"
  shows "linked own c m (fst (st_UpdateAPIKeyLabel ops i l s))"
proof (cases "i \<in> ran (owner s)")
  case True
  then obtain h where "owner s h = Some i" by (auto simp: ran_def)
  from label_key [OF linked_valid [OF assms] this, of l]
  obtain s' where s': "st_UpdateAPIKeyLabel ops i l s = (s', None)" "valid s'" "owner s' = owner s" "view s' = view s" by blast
  then show ?thesis using still_linked_step [OF assms] label_key_issued [of i l s] by simp
next
  case False
  then show ?thesis using assms by (simp add: label_key_gone linked_valid)
qed

lemma linked_delete_key:
  assumes "linked own c m s"
  shows "linked own c m (fst (st_DeleteAPIKey ops i s))"
proof (cases "i \<in> ran (owner s)")
  case True
  then obtain h where "owner s h = Some i" by (auto simp: ran_def)
  from delete_key [OF linked_valid [OF assms] this]
  obtain s' where s': "st_DeleteAPIKey ops i s = (s', None)" "valid s'" "owner s' = (owner s)(h := None)" "view s' = released i (view s)"
    by (auto simp: released_def)
  have "\<exists>m'. view s' c = Some m' \<and> same_link m m'"
    using assms link_kept_released [of c "view s" i] same_link_trans unfolding s'(4) still_linked_def link_kept_def by blast
  then show ?thesis using assms s' delete_key_issued [of i s] by (simp add: still_linked_def)
next
  case False
  then show ?thesis using assms by (simp add: delete_key_gone linked_valid)
qed

lemma linked_cleanup:
  assumes "linked own c m s" and "\<not> expired_at (norm t) m"
  shows "linked own c m (cleanup t s)"
proof -
  obtain m' where m': "view s c = Some m'" "same_link m m'" using assms(1) by (auto simp: still_linked_def)
  have "\<not> expired_at (norm t) m'" using assms(2) same_link_fields [OF m'(2)] by (simp add: expired_at_def)
  then have "view (cleanup t s) c = view s c" using m'(1) by (simp add: cleanup_keeps linked_valid [OF assms(1)])
  then show ?thesis
    by (rule still_linked_step [OF assms(1)
        cleanup_valid [OF linked_valid [OF assms(1)]] cleanup_owner [OF linked_valid [OF assms(1)]] cleanup_issued])
qed

lemma linked_other: "linked own c m s \<Longrightarrow> in_time owner norm m s x \<Longrightarrow> linked own c m (other_step ops cleanup x s)"
  by (cases x) (simp_all add: linked_click linked_preview linked_lookup linked_create_key linked_label_key
      linked_delete_key linked_audit [unfolded logAuditBestEffort_def] linked_cleanup)

text \<open>What a foreign request reads of the link does not let it in.\<close>

lemma reads_link:
  assumes "linked own c m s" and "st_Get ops t c s = Inr m1"
  shows "same_link m m1"
  using get_Inr [OF linked_valid [OF assms(1)] assms(2)] assms(1) by (simp add: still_linked_def)

lemma foreign_access:
  assumes "linked own c m s" and "st_Get ops t c s = Inr m1" and "linked own c m s'"
    and "\<not> (\<exists>tok h. extractBearer env r = Some (tok, h) \<and> grants own m h)"
  shows "\<not> snd (authorizeAccess ops env t' r m1 s')"
  using grants_same [OF assms(3) reads_link [OF assms(1,2)]] assms(4) by (auto simp: authorizeAccess_iff [OF linked_valid [OF assms(3)]])

lemma foreign_owner:
  assumes "linked own c m s" and "st_Get ops t c s = Inr m1"
    and "\<not> (\<exists>tok h. extractBearer env r = Some (tok, h) \<and> grants own m h)"
  shows "\<not> authorizeOwner env r (m_OwnerTokenHash m1)"
  using grants_same [OF assms(1) reads_link [OF assms(1,2)]] assms(3)
  by (auto simp: authorizeOwner_def grants_def split: option.splits)

text \<open>The threads of foreign requests.\<close>

lemma harmless_delete:
  assumes "foreign own c m (DeleteL env clk r)"
  shows "harmless (linked own c m) (delete_thread ops env clk r)"
proof (cases "r_Code r = c")
  case True
  have "\<not> snd (authorizeAccess ops env (clk 1) r m1 s')"
    if "linked own c m s" and "st_Get ops (clk 0) (r_Code r) s = Inr m1" and "linked own c m s'" for s s' m1
    using foreign_access [OF that(1) _ that(3)] that(2) assms True by simp
  then show ?thesis by (auto simp: delete_thread_def Let_def linked_access split: sum.split)
next
  case False
  then show ?thesis
    by (auto simp: delete_thread_def Let_def linked_access linked_actor linked_audit linked_delete
        split: sum.split option.split store_err.split)
qed

lemma harmless_rotate:
  assumes "foreign own c m (RotateL env rnd clk r)"
  shows "harmless (linked own c m) (rotate_thread ops env rnd clk r)"
proof (cases "r_Code r = c")
  case True
  have "\<not> authorizeOwner env r (m_OwnerTokenHash m1)"
    if "linked own c m s" and "st_Get ops (clk 0) (r_Code r) s = Inr m1" for s m1
    using foreign_owner [OF that(1)] that(2) assms True by simp
  then show ?thesis by (auto simp: rotate_thread_def Let_def split: sum.split)
next
  case False
  then show ?thesis
    by (auto simp: rotate_thread_def Let_def linked_audit linked_rotate split: sum.split option.split store_err.split)
qed

lemma harmless_patch:
  assumes "foreign own c m (PatchL cfg env salt rnd clk r body)"
  shows "harmless (linked own c m) (patch_thread ops cfg env salt rnd clk r body)"
proof (cases "r_Code r = c")
  case True
  have "\<not> snd (authorizeAccess ops env (clk 1) r m1 s')"
    if "linked own c m s" and "st_Get ops (clk 0) (r_Code r) s = Inr m1" and "linked own c m s'" for s s' m1
    using foreign_access [OF that(1) _ that(3)] that(2) assms True by simp
  then show ?thesis by (auto simp: patch_thread_def linked_access split: sum.split option.split)
next
  case False
  then show ?thesis using patch_prepare_paired
    by (auto simp: patch_thread_def linked_access linked_actor linked_audit linked_update
        split: sum.split option.split store_err.split)
qed

lemma harmless_fail: "harmless I (shorten_fail e)"
  by (simp add: shorten_fail_def)

lemma harmless_store: "insertable (m_ID n) n \<Longrightarrow> harmless (linked own c m) (store_thread ops cfg clk req key reqID n token)"
  by (auto simp: store_thread_def linked_set linked_audit harmless_fail split: option.split store_err.split)

lemma harmless_create: "harmless (linked own c m) (create_thread ops cfg env dr clk req key reqID)"
  unfolding create_thread_def
  by (rule harmless_custom)
    (auto intro!: harmless_code harmless_store simp: harmless_fail insertable_def split: sum.split)

lemma harmless_request: "foreign own c m q \<Longrightarrow> harmless (linked own c m) (thread_of ops q)"
  by (cases q) (auto simp: harmless_delete harmless_rotate harmless_patch shorten_thread_def harmless_create linked_detect
      simp del: foreign.simps split: option.split)

lemma linked_start: "valid s \<Longrightarrow> view s c = Some m \<Longrightarrow> m_APIKeyID m = 0 \<or> m_APIKeyID m \<in> ran (owner s) \<Longrightarrow> linked (owner s) c m s"
  by (auto simp: still_linked_def same_link_refl ran_def owner_issued)

lemma pool_harmless:
  "pool_run ops cleanup (foreign own c m) (in_time owner norm m) x0 x \<Longrightarrow> linked own c m (fst x0) \<Longrightarrow> \<forall>t \<in> set (snd x0). harmless (linked own c m) t \<Longrightarrow>
    linked own c m (fst x) \<and> (\<forall>t \<in> set (snd x). harmless (linked own c m) t)"
proof (induction rule: pool_run.induct)
  case (advance s ts i f s' t)
  then have l: "linked own c m s" and ts: "\<forall>t \<in> set ts. harmless (linked own c m) t" by simp_all
  then have "harmless (linked own c m) (Step f)" using advance.hyps(2,3) nth_mem by metis
  then have "linked own c m s' \<and> harmless (linked own c m) t" using l advance.hyps(4) by fastforce
  then show ?case using ts set_update_subset_insert by fastforce
qed (auto simp: harmless_request linked_other)

end

section \<open>Links survive any interleaving\<close>

text \<open>
  C5. Links survive requests that interleave at their store calls: starting from a store that holds a
  link, bound to no API key or to a live one, with no request in flight, let any number of
  creations, deletions, patches and rotations arrive, none of them with a credential of that link,
  and let their store calls interleave in any order, with clicks, previews, audit events, API keys
  looked up, created, renamed and revoked, and cleanup passes before the link expires in between.
  The link is still there, with its destination, owner, expiry, cap, password, tags and webhook.
\<close>

theorem links_survive_interleaved:
  assumes "mem_inv s" and "mem_view s c = Some m" and "m_APIKeyID m = 0 \<or> m_APIKeyID m \<in> ran (mem_owner s)"
    and "pool_run mem_ops mem_cleanupExpired (foreign (mem_owner s) c m) (in_time mem_owner (\<lambda>t. t) m) (s, []) (s', ts)"
  shows "\<exists>m'. mem_view s' c = Some m' \<and> same_link m m'"
  using mem.pool_harmless [OF assms(4)] mem.linked_start [OF assms(1,2,3)] by (simp add: still_linked_def)

text \<open>The same on the SQL backends.\<close>

theorem sql_links_survive_interleaved:
  assumes "sql_inv s" and "sql_view s c = Some m" and "m_APIKeyID m = 0 \<or> m_APIKeyID m \<in> ran (sql_owner s)"
    and "pool_run (sql_ops b) (sql_cleanup b) (foreign (sql_owner s) c m) (in_time sql_owner stored_time m) (s, []) (s', ts)"
  shows "\<exists>m'. sql_view s' c = Some m' \<and> same_link m m'"
proof -
  have "still_linked sql_inv sql_view sql_owner db_key_seq (sql_owner s) c m s'"
    using sq.pool_harmless [of "sql_owner s" c m "(s, [])" "(s', ts)"] pg.pool_harmless [of "sql_owner s" c m "(s, [])" "(s', ts)"]
      sq.linked_start [OF assms(1,2,3)] assms(4) by (cases b) simp_all
  then show ?thesis by (simp add: still_linked_def)
qed

section \<open>Two runs\<close>

text \<open>The next store call of one thread.\<close>

fun advance_at :: "nat \<Rightarrow> 's \<times> ('s, 'r) thread list \<Rightarrow> 's \<times> ('s, 'r) thread list" where
  "advance_at i (s, ts) =
     (case ts ! i of
        Return r \<Rightarrow> (s, ts)
      | Step f \<Rightarrow> (case f s of (s', t) \<Rightarrow> (s', ts[i := t])))"

lemma pool_advance:
  assumes "pool_run ops sweep P A x0 (s, ts)" and "i < length ts"
  shows "pool_run ops sweep P A x0 (advance_at i (s, ts))"
proof (cases "ts ! i")
  case (Return r)
  then show ?thesis using assms(1) by simp
next
  case (Step f)
  then show ?thesis using pool_run.advance [OF assms Step] by (cases "f s") simp
qed

lemma advance_length [simp]: "length (snd (advance_at i x)) = length (snd x)"
  by (cases x) (simp split: thread.split prod.split)

lemma advance_lengths [simp]: "length (snd (fold advance_at sched x)) = length (snd x)"
  by (induction sched arbitrary: x) simp_all

lemma pool_schedule:
  "pool_run ops sweep P A x0 x \<Longrightarrow> list_all (\<lambda>i. i < length (snd x)) sched \<Longrightarrow> pool_run ops sweep P A x0 (fold advance_at sched x)"
proof (induction sched arbitrary: x)
  case (Cons i sched)
  obtain s ts where x: "x = (s, ts)" by (cases x)
  have "pool_run ops sweep P A x0 (advance_at i x)" using Cons.prems by (simp add: x pool_advance del: advance_at.simps)
  then show ?case using Cons by (simp del: advance_at.simps)
qed simp

definition requests :: "'s store_ops \<Rightarrow> link_request list \<Rightarrow> 's \<Rightarrow> 's \<times> ('s, answer) thread list" where
  "requests ops qs s = (s, map (thread_of ops) qs)"

lemma pool_requests: "list_all P qs \<Longrightarrow> pool_run ops sweep P A (s, []) (requests ops qs s)"
proof (induction qs rule: rev_induct)
  case Nil
  show ?case by (simp add: requests_def pool_run.rest)
next
  case (snoc q qs)
  then have "pool_run ops sweep P A (s, []) (s, map (thread_of ops) qs)" "P q" by (simp_all add: requests_def)
  from pool_run.arrive [OF this] show ?case by (simp add: requests_def)
qed

text \<open>The owner's DELETE of \<open>promo\<close>, one with a wrong token, and someone else's creation of the same code.\<close>

definition promo_delete :: "string \<Rightarrow> link_request" where
  "promo_delete tok = DeleteL sample_env (\<lambda>i. 2000) (bearer_request ''promo'' tok)"

definition promo_again :: link_request where
  "promo_again = ShortenL sample_cfg sample_env (sample_draws\<lparr>dr_token := Some [1, 2, 3, 4, 5]\<rparr>) (\<lambda>i. 2000)
     ((demo_request ''POST'' '''')) (Some (sample_req ''promo''))"

text \<open>Then a key is created and a cleanup pass comes along.\<close>

definition promo_calls :: "mem_store \<times> (mem_store, answer) thread list" where
  "promo_calls = fold advance_at [0, 1, 1, 0, 1, 1] (requests mem_ops [promo_delete ''no'', promo_again] promo_store)"

definition promo_keyed :: mem_store where
  "promo_keyed = other_step mem_ops mem_cleanupExpired (CreateKeyC 2000 ''ci'' [9, 7]) (fst promo_calls)"

theorem links_survive_interleaved_witness:
  "\<exists>m. mem_view (other_step mem_ops mem_cleanupExpired (CleanupC 3000) promo_keyed) ''promo'' = Some m
     \<and> m_OwnerTokenHash m = [4, 7]"
proof -
  obtain m where m: "mem_view promo_store ''promo'' = Some m" "m_OwnerTokenHash m = [4, 7]" using promo_view by auto
  have k: "map_option m_APIKeyID (mem_view promo_store ''promo'') = Some 0"
    "map_option (expired_at 3000) (mem_view promo_store ''promo'') = Some False"
    "mem_owner (fst promo_calls) [9, 7] = None" by code_simp+
  let ?P = "foreign (mem_owner promo_store) ''promo'' m" and ?A = "in_time mem_owner (\<lambda>t. t) m"
  have "extractBearer sample_env (bearer_request ''promo'' ''no'') = Some (''no'', [2, 7])" by code_simp
  then have "list_all ?P [promo_delete ''no'', promo_again]"
    using m k by (simp add: promo_delete_def promo_again_def grants_def)
  from pool_schedule [OF pool_requests [OF this], where sched = "[0, 1, 1, 0, 1, 1]"]
  have "pool_run mem_ops mem_cleanupExpired ?P ?A (promo_store, []) promo_calls"
    by (simp add: promo_calls_def requests_def del: advance_at.simps)
  then have "pool_run mem_ops mem_cleanupExpired ?P ?A (promo_store, []) (promo_keyed, snd promo_calls)"
    unfolding promo_keyed_def by (intro pool_run.other) (simp_all add: k)
  then have "pool_run mem_ops mem_cleanupExpired ?P ?A (promo_store, [])
      (other_step mem_ops mem_cleanupExpired (CleanupC 3000) promo_keyed, snd promo_calls)"
    by (rule pool_run.other) (use m k in simp)
  from links_survive_interleaved [OF promo_inv m(1) _ this] show ?thesis
    using m k same_link_fields by fastforce
qed

text \<open>
  A DELETE that was authorised on one mapping can remove another: two deletes of the owner are under
  way, the first is past its check when the second completes, someone else takes the free code,
  and the first then deletes that link, on which its token grants nothing.
\<close>

definition stale_pool :: "mem_store \<times> (mem_store, answer) thread list" where
  "stale_pool = fold advance_at [0, 0, 1, 1, 1, 1, 1, 2, 2, 2, 2]
     (requests mem_ops [promo_delete ''AQID'', promo_delete ''AQID'', promo_again] promo_store)"

lemma stale_length: "length (snd stale_pool) = 3"
  unfolding stale_pool_def by (simp only: advance_lengths) (simp add: requests_def)

theorem stale_delete:
  "pool_run mem_ops mem_cleanupExpired (\<lambda>q. True) (\<lambda>s x. False) (promo_store, []) (advance_at 0 stale_pool)
   \<and> map_option m_OwnerTokenHash (mem_view (fst stale_pool) ''promo'') = Some [7, 7]
   \<and> map_option snd (extractBearer sample_env (bearer_request ''promo'' ''AQID'')) = Some [4, 7]
   \<and> mem_view (fst (advance_at 0 stale_pool)) ''promo'' = None"
proof (intro conjI)
  have "pool_run mem_ops mem_cleanupExpired (\<lambda>q. True) (\<lambda>s x. False) (promo_store, []) stale_pool"
    unfolding stale_pool_def by (intro pool_schedule pool_requests) (simp_all add: requests_def)
  then show "pool_run mem_ops mem_cleanupExpired (\<lambda>q. True) (\<lambda>s x. False) (promo_store, []) (advance_at 0 stale_pool)"
    using pool_schedule [of mem_ops mem_cleanupExpired "\<lambda>q. True" "\<lambda>s x. False" "(promo_store, [])" stale_pool "[0]"] by (simp add: stale_length)
qed (code_simp+)

end
