(* ===== verification/Password_Form.thy ===== *)
theory Password_Form
  imports Redirect_Props Routes
begin

text \<open>
  The page \<^verbatim>\<open>renderPasswordForm\<close> of \<^verbatim>\<open>handlers/redirect.go\<close> writes: its template, executed with the
  contextual escaping of \<^verbatim>\<open>html/template\<close>. The form posts back to the code it was served for.
\<close>

section \<open>Escaping\<close>

text \<open>The replacements of \<^verbatim>\<open>html/template\<close> in text and in quoted attributes.\<close>

definition html_replacement :: "char \<Rightarrow> string" where
  "html_replacement c =
     (if c = CHR 0x00 then [CHR 0xEF, CHR 0xBF, CHR 0xBD]
      else if c = CHR 0x22 then ''&#34;'' else if c = CHR 0x26 then ''&amp;'' else if c = CHR 0x27 then ''&#39;''
      else if c = CHR 0x2B then ''&#43;'' else if c = CHR 0x3C then ''&lt;'' else if c = CHR 0x3E then ''&gt;'' else [c])"

definition html_escape :: "string \<Rightarrow> string" where
  "html_escape s = concat (map html_replacement s)"

text \<open>The URL normaliser: what is neither reserved nor unreserved is percent-encoded, an escape is kept.\<close>

definition alphanumeric :: "char \<Rightarrow> bool" where
  "alphanumeric c = (let n = of_char c :: nat in 48 \<le> n \<and> n \<le> 57 \<or> 65 \<le> n \<and> n \<le> 90 \<or> 97 \<le> n \<and> n \<le> 122)"

definition hex_char :: "char \<Rightarrow> bool" where
  "hex_char c = (c \<in> set ''0123456789abcdefABCDEF'')"

definition percent :: "char \<Rightarrow> string" where
  "percent c = [CHR 0x25, ''0123456789abcdef'' ! (of_char c div 16), ''0123456789abcdef'' ! (of_char c mod 16)]"

fun url_normalize :: "string \<Rightarrow> string" where
  "url_normalize [] = []"
| "url_normalize (c # cs) =
     (if c \<in> set ''!#$&*+,/:;=?@[]-._~'' \<or> alphanumeric c
         \<or> c = CHR 0x25 \<and> (case cs of a # b # _ \<Rightarrow> hex_char a \<and> hex_char b | _ \<Rightarrow> False)
      then [c] else percent c) @ url_normalize cs"

section \<open>The template\<close>

definition lines_of :: "string list \<Rightarrow> string" where
  "lines_of ls = concat (map (\<lambda>l. l @ [CHR 0x0A]) ls)"

definition form_head :: string where
  \<open>form_head =
     lines_of [''<!DOCTYPE html>'',
       ''<html lang="en">'',
       ''<head>'',
       ''<meta charset="UTF-8">'',
       ''<title>Password required</title>'',
       ''<meta name="viewport" content="width=device-width, initial-scale=1.0">'',
       ''<style>'',
       ''  body { font-family: system-ui, sans-serif; background: #0f1115; color: #e6e8ee; display: flex; align-items: center; justify-content: center; min-height: 100vh; margin: 0; padding: 1rem; }'',
       ''  .card { background: #1a1d24; border: 1px solid #2a2f3a; border-radius: 12px; padding: 2rem; max-width: 360px; width: 100%; box-shadow: 0 8px 24px rgba(0,0,0,0.35); }'',
       ''  h1 { font-size: 1.15rem; margin: 0 0 0.25rem; }'',
       ''  p.muted { color: #98a0ad; font-size: 0.85rem; margin: 0 0 1rem; }'',
       ''  label { display: block; font-size: 0.85rem; margin-bottom: 0.4rem; }'',
       ''  input[type=password] { width: 100%; box-sizing: border-box; padding: 0.6rem 0.7rem; border-radius: 8px; border: 1px solid #2a2f3a; background: #0f1115; color: #e6e8ee; font-size: 0.95rem; }'',
       ''  input[type=password]:focus { outline: 2px solid #5b8dff; outline-offset: -1px; }'',
       ''  button { width: 100%; margin-top: 0.9rem; padding: 0.6rem; background: #5b8dff; color: #0f1115; border: 0; border-radius: 8px; font-weight: 600; cursor: pointer; }'',
       ''  button:hover { filter: brightness(1.08); }'',
       ''  .err { background: rgba(255, 85, 85, 0.12); border: 1px solid rgba(255, 85, 85, 0.35); color: #ff8a8a; padding: 0.5rem 0.7rem; border-radius: 6px; font-size: 0.85rem; margin-bottom: 0.8rem; }'',
       ''</style>'',
       ''</head>'',
       ''<body>''] @ ''<form class="card" method="POST" action="/''\<close>

definition form_hint :: string where
  \<open>form_hint =
     lines_of [''" autocomplete="off">'',
       ''  <h1>This link is password-protected</h1>''] @ ''  <p class="muted">Enter the passphrase to continue to /''\<close>

definition form_body :: string where
  \<open>form_body =
     lines_of [''.</p>''] @ ''  ''\<close>

definition form_end :: string where
  \<open>form_end =
     lines_of ['''',
       ''  <label for="password">Password</label>'',
       ''  <input type="password" id="password" name="password" required autofocus>'',
       ''  <button type="submit">Continue</button>'',
       ''</form>'',
       ''</body>''] @ ''</html>''\<close>

definition form_error :: "string \<Rightarrow> string" where
  \<open>form_error errMsg = ''<div class="err">'' @ html_escape errMsg @ ''</div>''\<close>

text \<open>The action is a URL in a quoted attribute; the message is shown only if there is one.\<close>

definition passwordFormTmpl :: "string \<Rightarrow> string \<Rightarrow> string" where
  \<open>passwordFormTmpl code errMsg =
     form_head @ html_escape (url_normalize code) @ form_hint @ html_escape code @ form_body
     @ (if errMsg \<noteq> [] then form_error errMsg else []) @ form_end\<close>

section \<open>A code goes through unescaped\<close>

lemma html_escape_plain: "list_all (\<lambda>c. html_replacement c = [c]) s \<Longrightarrow> html_escape s = s"
  by (induction s) (simp_all add: html_escape_def)

lemma code_char_plain: "code_char c \<Longrightarrow> html_replacement c = [c] \<and> (alphanumeric c \<or> c \<in> set ''-_'')"
proof -
  have "\<forall>c. code_char c \<longrightarrow> html_replacement c = [c] \<and> (alphanumeric c \<or> c \<in> set ''-_'')" by code_simp
  then show "code_char c \<Longrightarrow> html_replacement c = [c] \<and> (alphanumeric c \<or> c \<in> set ''-_'')" by blast
qed

lemma url_normalize_code: "list_all code_char code \<Longrightarrow> url_normalize code = code"
  by (induction code) (auto dest: code_char_plain)

text \<open>The form of a code posts to the path of that code, and shows the code and the message as they are.\<close>

lemma form_posts_back:
  assumes "list_all code_char code"
  shows "passwordFormTmpl code [] = form_head @ code @ form_hint @ code @ form_body @ form_end"
    and "errMsg \<noteq> [] \<Longrightarrow> passwordFormTmpl code errMsg = form_head @ code @ form_hint @ code @ form_body @ form_error errMsg @ form_end"
proof -
  have "html_escape code = code" using assms code_char_plain by (intro html_escape_plain) (auto simp: list_all_iff)
  then show "passwordFormTmpl code [] = form_head @ code @ form_hint @ code @ form_body @ form_end"
    and "errMsg \<noteq> [] \<Longrightarrow> passwordFormTmpl code errMsg = form_head @ code @ form_hint @ code @ form_body @ form_error errMsg @ form_end"
    by (simp_all add: passwordFormTmpl_def url_normalize_code [OF assms])
qed

lemma hints_plain: "html_escape ''Incorrect password. Try again.'' = ''Incorrect password. Try again.''"
  by code_simp

end
