(* ===== verification/Sqlite_Backends.thy ===== *)
theory Sqlite_Backends
  imports Sqlite_Props
begin

text \<open>
  \<^verbatim>\<open>STORAGE_BACKEND\<close> can be switched: the memory and the SQLite backend answer any sequence of
  calls on mappings and keys alike, as long as times fit in 64 bits and no statement fails. The
  proof is a simulation over the abstract views the contract speaks of.
\<close>

section \<open>Calls and answers\<close>

datatype store_call =
    DoSet string url_mapping
  | DoGet time string
  | DoExists string
  | DoDelete string
  | DoClick string click_event
  | DoUpdate time string update_fields
  | DoRotate string bytes
  | DoAudit time audit_event
  | DoCreateKey time string bytes
  | DoLookup time bytes
  | DoRevoke int

datatype answer = AError "store_err option" | AMapping "store_err + url_mapping" | AFound bool | AKey "int option"

definition key_answer :: "store_err + api_key \<Rightarrow> answer" where
  "key_answer x = AKey (case x of Inl e \<Rightarrow> None | Inr k \<Rightarrow> Some (k_ID k))"

fun do_call :: "'s store_ops \<Rightarrow> store_call \<Rightarrow> 's \<Rightarrow> 's \<times> answer" where
  "do_call ops (DoSet c m) s = map_prod id AError (st_Set ops c m s)"
| "do_call ops (DoGet t c) s = (s, AMapping (st_Get ops t c s))"
| "do_call ops (DoExists c) s = (s, AFound (st_Exists ops c s))"
| "do_call ops (DoDelete c) s = map_prod id AError (st_Delete ops c s)"
| "do_call ops (DoClick c ev) s = map_prod id AError (st_RecordClick ops c ev s)"
| "do_call ops (DoUpdate t c f) s = map_prod id AError (st_Update ops t c f s)"
| "do_call ops (DoRotate c h) s = map_prod id AError (st_RotateToken ops c h s)"
| "do_call ops (DoAudit t e) s = map_prod id (\<lambda>_. AError None) (st_LogAudit ops t e s)"
| "do_call ops (DoCreateKey t l h) s = map_prod id key_answer (st_CreateAPIKey ops t l h s)"
| "do_call ops (DoLookup t h) s = map_prod id key_answer (st_LookupAPIKey ops t h s)"
| "do_call ops (DoRevoke i) s = map_prod id AError (st_DeleteAPIKey ops i s)"

fun do_calls :: "'s store_ops \<Rightarrow> store_call list \<Rightarrow> 's \<Rightarrow> 's \<times> answer list" where
  "do_calls ops [] s = (s, [])"
| "do_calls ops (c # cs) s =
     (let (s1, a) = do_call ops c s; (s2, as) = do_calls ops cs s1 in (s2, a # as))"

text \<open>
  What the callers guarantee of a call: times in the 64-bit range, mappings inserted under their
  own ID without clicks, webhook updates with a secret, and a fresh hash for a new key.
\<close>

definition times_ok :: "url_mapping \<Rightarrow> bool" where
  "times_ok m = (norm_mapping stored_time m = m)"

fun call_ok :: "store_call \<Rightarrow> mem_store \<Rightarrow> bool" where
  "call_ok (DoSet c m) s = (insertable c m \<and> times_ok m)"
| "call_ok (DoClick c ev) s = in_int64 (ev_At ev)"
| "call_ok (DoUpdate t c f) s = (paired f \<and> in_int64 t \<and> (\<forall>x. f_ExpiresAt f = Some x \<longrightarrow> in_int64 x))"
| "call_ok (DoCreateKey t l h) s = (mem_owner s h = None)"
| "call_ok _ s = True"

fun calls_ok :: "store_call list \<Rightarrow> mem_store \<Rightarrow> bool" where
  "calls_ok [] s = True"
| "calls_ok (c # cs) s = (call_ok c s \<and> calls_ok cs (fst (do_call mem_ops c s)))"

section \<open>The simulation\<close>

definition same_store :: "mem_store \<Rightarrow> sql_store \<Rightarrow> bool" where
  "same_store ms ss = (mem_inv ms \<and> sql_inv ss \<and> mem_view ms = sql_view ss \<and> mem_owner ms = sql_owner ss
     \<and> s_nextKeyID ms = db_key_seq ss)"

lemma times_ok_view: "sql_view ss c = Some m \<Longrightarrow> times_ok m"
  by (auto simp: sql_view_def times_ok_def)

lemma times_ok_click: "times_ok m \<Longrightarrow> in_int64 (ev_At ev) \<Longrightarrow> norm_mapping stored_time (click_mapping ev m) = click_mapping ev m"
  unfolding times_ok_def norm_mapping_def click_mapping_def by (cases m) (simp add: stored_time_id)

lemma times_ok_fields: "times_ok m \<longleftrightarrow> stored_time (m_CreatedAt m) = m_CreatedAt m \<and> map_option stored_time (m_ExpiresAt m) = m_ExpiresAt m
    \<and> map_option stored_time (m_LastAccessed m) = m_LastAccessed m \<and> map_option stored_time (m_PreviewFetchedAt m) = m_PreviewFetchedAt m"
  unfolding times_ok_def norm_mapping_def by (cases m) auto

lemma times_ok_update:
  assumes "times_ok m" and "in_int64 t" and "\<forall>x. f_ExpiresAt f = Some x \<longrightarrow> in_int64 x"
  shows "norm_mapping stored_time (apply_update t f m) = apply_update t f m"
proof -
  have "times_ok (apply_update t f m)"
    using assms by (auto simp: times_ok_fields apply_update_fields apply_update_preview stored_time_id)
  then show ?thesis by (simp add: times_ok_def)
qed

text \<open>No method but \<^verbatim>\<open>CreateAPIKey\<close> moves the sequence the key IDs are drawn from.\<close>

lemma key_seq_frames [simp]:
  "s_nextKeyID (fst (mem_Set c m ms)) = s_nextKeyID ms" "s_nextKeyID (fst (mem_Delete c ms)) = s_nextKeyID ms"
  "s_nextKeyID (fst (mem_RecordClick c ev ms)) = s_nextKeyID ms" "s_nextKeyID (fst (mem_Update t c f ms)) = s_nextKeyID ms"
  "s_nextKeyID (fst (mem_RotateToken c h ms)) = s_nextKeyID ms" "s_nextKeyID (fst (mem_LogAudit t e ms)) = s_nextKeyID ms"
  "s_nextKeyID (fst (mem_LookupAPIKey t h ms)) = s_nextKeyID ms" "s_nextKeyID (fst (mem_DeleteAPIKey i ms)) = s_nextKeyID ms"
  "db_key_seq (fst (sq_Set fl c m ss)) = db_key_seq ss" "db_key_seq (fst (sq_Delete fl c ss)) = db_key_seq ss"
  "db_key_seq (fst (sq_RecordClick fl c ev ss)) = db_key_seq ss" "db_key_seq (fst (sq_Update fl t c f ss)) = db_key_seq ss"
  "db_key_seq (fst (sq_RotateToken fl c h ss)) = db_key_seq ss" "db_key_seq (fst (sq_LogAudit fl t e ss)) = db_key_seq ss"
  "db_key_seq (fst (sq_LookupAPIKey fl t h ss)) = db_key_seq ss" "db_key_seq (fst (sq_DeleteAPIKey fl i ss)) = db_key_seq ss"
  by (simp_all add: mem_url_defs mem_LogAudit_def mem_LookupAPIKey_def mem_DeleteAPIKey_def sq_Set_def sq_Delete_def
      sq_RecordClick_def sq_Update_def sq_RotateToken_def sq_LogAudit_def sq_LookupAPIKey_def sq_DeleteAPIKey_def
      Let_def case_prod_unfold split: option.split)

text \<open>Revoking an ID that names no key changes nothing.\<close>

lemma mem_revoke_unknown: "mem_inv ms \<Longrightarrow> i \<notin> ran (mem_owner ms) \<Longrightarrow> mem_DeleteAPIKey i ms = (ms, Some ErrNotFound)"
  by (cases "map_of (s_apiKeys ms) i") (auto simp: mem_DeleteAPIKey_def mem_inv_def ran_def mem_owner_iff)

lemma sq_revoke_unknown: "sql_inv ss \<Longrightarrow> i \<notin> ran (sql_owner ss) \<Longrightarrow> sq_DeleteAPIKey no_fault i ss = (ss, Some ErrNotFound)"
proof -
  assume inv: "sql_inv ss" and no: "i \<notin> ran (sql_owner ss)"
  have "select_one ak_id i (db_keys ss) = None"
  proof (rule ccontr)
    assume "select_one ak_id i (db_keys ss) \<noteq> None"
    then obtain r where "r \<in> set (db_keys ss)" "ak_id r = i" by (auto simp: select_one_None)
    then have "sql_owner ss (ak_token_hash r) = Some i" using owner_unique [of ss r] inv by (simp add: sql_inv_def)
    then show False using no by (auto simp: ran_def)
  qed
  then show ?thesis by (simp add: sq_DeleteAPIKey_def Let_def case_prod_unfold)
qed

lemma same_store_revoke:
  assumes "same_store ms ss"
  shows "snd (mem_DeleteAPIKey i ms) = snd (sq_DeleteAPIKey no_fault i ss)
    \<and> same_store (fst (mem_DeleteAPIKey i ms)) (fst (sq_DeleteAPIKey no_fault i ss))"
proof (cases "i \<in> ran (mem_owner ms)")
  case False
  then show ?thesis using assms mem_revoke_unknown [of ms i] sq_revoke_unknown [of ss i] by (simp add: same_store_def)
next
  case True
  then obtain h where h: "mem_owner ms h = Some i" "sql_owner ss h = Some i" using assms by (auto simp: ran_def same_store_def)
  obtain ms' where m: "mem_DeleteAPIKey i ms = (ms', None)" "mem_inv ms'" "mem_owner ms' = (mem_owner ms)(h := None)"
      "mem_view ms' = (\<lambda>c. map_option (\<lambda>m. if m_APIKeyID m = i then m\<lparr>m_APIKeyID := 0\<rparr> else m) (mem_view ms c))"
    using mem_delete_key [OF _ h(1)] assms by (auto simp: same_store_def)
  obtain ss' where q: "sq_DeleteAPIKey no_fault i ss = (ss', None)" "sql_inv ss'" "sql_owner ss' = (sql_owner ss)(h := None)"
      "sql_view ss' = (\<lambda>c. map_option (\<lambda>m. if m_APIKeyID m = i then m\<lparr>m_APIKeyID := 0\<rparr> else m) (sql_view ss c))"
    using sq_delete_key [OF _ h(2)] assms by (auto simp: same_store_def)
  show ?thesis
    using assms m q key_seq_frames(8) [of i ms] key_seq_frames(16) [of no_fault i ss] by (simp add: same_store_def)
qed

lemma same_store_create:
  assumes "same_store ms ss" and "mem_owner ms h = None"
  shows "key_answer (snd (mem_CreateAPIKey t l h ms)) = key_answer (snd (sq_CreateAPIKey no_fault t l h ss))
    \<and> same_store (fst (mem_CreateAPIKey t l h ms)) (fst (sq_CreateAPIKey no_fault t l h ss))"
proof -
  have none: "sql_owner ss h = None" using assms by (simp add: same_store_def)
  obtain ms' k where m: "mem_CreateAPIKey t l h ms = (ms', Inr k)" "mem_inv ms'" "mem_view ms' = mem_view ms"
      "mem_owner ms' = (mem_owner ms)(h \<mapsto> k_ID k)"
    using mem_create_key [OF _ assms(2), of t l] assms(1) by (auto simp: same_store_def)
  obtain ss' q where s: "sq_CreateAPIKey no_fault t l h ss = (ss', Inr q)" "sql_inv ss'" "sql_view ss' = sql_view ss"
      "sql_owner ss' = (sql_owner ss)(h \<mapsto> k_ID q)"
    using sq_create_key [OF _ none, of t l] assms(1) by (auto simp: same_store_def)
  have "k_ID k = s_nextKeyID ms + 1" "s_nextKeyID ms' = s_nextKeyID ms + 1"
    using m(1) by (auto simp: mem_CreateAPIKey_def Let_def)
  moreover have "k_ID q = db_key_seq ss + 1" "db_key_seq ss' = db_key_seq ss + 1"
    using s(1) none by (auto simp: sq_CreateAPIKey_def Let_def sql_owner_def)
  ultimately show ?thesis using assms(1) m s by (simp add: same_store_def key_answer_def)
qed

lemma same_storeI:
  assumes "same_store ms ss" and "mem_inv ms'" and "sql_inv ss'" and "mem_view ms' = sql_view ss'"
    and "mem_owner ms' = mem_owner ms" and "sql_owner ss' = sql_owner ss"
    and "s_nextKeyID ms' = s_nextKeyID ms" and "db_key_seq ss' = db_key_seq ss"
  shows "same_store ms' ss'"
  using assms by (simp add: same_store_def)

text \<open>The two stores make the same change to the view, and answer the same.\<close>

lemma do_call_view:
  assumes "same_store ms ss" and "call_ok c ms" and "\<forall>t l h. c \<noteq> DoCreateKey t l h" and "\<forall>i. c \<noteq> DoRevoke i"
  shows "mem_view (fst (do_call mem_ops c ms)) = sql_view (fst (do_call (sq_ops no_fault) c ss))
    \<and> snd (do_call mem_ops c ms) = snd (do_call (sq_ops no_fault) c ss)"
proof -
  have v: "mem_inv ms" "sql_inv ss" "mem_view ms = sql_view ss" "mem_owner ms = sql_owner ss"
    using assms(1) by (simp_all add: same_store_def)
  show ?thesis
  proof (cases c)
    case (DoSet code m)
    then have m: "insertable code m" "norm_mapping stored_time m = m" using assms(2) by (simp_all add: times_ok_def)
    then show ?thesis using DoSet v mem.set_view [OF v(1) m(1)] sq.set_view [OF v(2) m(1)] mem.set_result [OF v(1) m(1)]
        sq.set_result [OF v(2) m(1)] by (simp split: option.split)
  next
    case (DoGet t code)
    then show ?thesis using v mem.get_spec [OF v(1), of t code] sq.get_spec [OF v(2), of t code] by simp
  next
    case (DoExists code)
    then show ?thesis using v mem.exists_spec [OF v(1), of code] sq.exists_spec [OF v(2), of code] by simp
  next
    case (DoDelete code)
    then show ?thesis using v mem.delete_view [OF v(1)] sq.delete_view [OF v(2)] mem.delete_result [OF v(1)]
        sq.delete_result [OF v(2)] by simp
  next
    case (DoClick code ev)
    then show ?thesis using assms(2) v mem.click_view [OF v(1)] sq.click_view [OF v(2)] mem.click_result [OF v(1)]
        sq.click_result [OF v(2)] times_ok_click [OF times_ok_view [of ss code]]
      by (simp split: option.split)
  next
    case (DoUpdate t code f)
    then have f: "paired f" "in_int64 t" "\<forall>x. f_ExpiresAt f = Some x \<longrightarrow> in_int64 x" using assms(2) by simp_all
    then show ?thesis using DoUpdate v mem.update_view [OF v(1) f(1)] sq.update_view [OF v(2) f(1)]
        mem.update_result [OF v(1)] sq.update_result [OF v(2)] times_ok_update [OF times_ok_view [of ss code] f(2,3)]
      by (simp split: option.split)
  next
    case (DoRotate code h)
    then show ?thesis using v mem.rotate_view [OF v(1)] sq.rotate_view [OF v(2)] mem.rotate_result [OF v(1)]
        sq.rotate_result [OF v(2)] by (simp split: option.split)
  next
    case (DoAudit t e)
    then show ?thesis using v mem.audit_view [OF v(1)] sq.audit_view [OF v(2)] by simp
  next
    case (DoLookup t h)
    have "key_answer x = AKey (case x of Inl e \<Rightarrow> None | Inr k \<Rightarrow> Some (k_ID k))" for x by (simp add: key_answer_def)
    then show ?thesis using DoLookup v mem.lookup_view [OF v(1)] sq.lookup_view [OF v(2)]
        mem.lookup_result [OF v(1), of t h] sq.lookup_result [OF v(2), of t h] by simp
  qed (use assms(3,4) in simp_all)
qed

lemma do_call_same:
  assumes "same_store ms ss" and "call_ok c ms"
  shows "snd (do_call mem_ops c ms) = snd (do_call (sq_ops no_fault) c ss)
    \<and> same_store (fst (do_call mem_ops c ms)) (fst (do_call (sq_ops no_fault) c ss))"
proof (cases "(\<exists>t l h. c = DoCreateKey t l h) \<or> (\<exists>i. c = DoRevoke i)")
  case True
  then show ?thesis using assms same_store_create [OF assms(1)] same_store_revoke [OF assms(1)] by auto
next
  case False
  then have view: "mem_view (fst (do_call mem_ops c ms)) = sql_view (fst (do_call (sq_ops no_fault) c ss))"
    and ans: "snd (do_call mem_ops c ms) = snd (do_call (sq_ops no_fault) c ss)"
    using do_call_view [OF assms] by blast+
  have v: "mem_inv ms" "sql_inv ss" using assms(1) by (simp_all add: same_store_def)
  have "same_store (fst (do_call mem_ops c ms)) (fst (do_call (sq_ops no_fault) c ss))"
    using False assms(2) v
    by (intro same_storeI [OF assms(1) _ _ view]; cases c)
      (simp_all add: mem_op_invs insertable_def sq.set_valid [simplified] sq.delete_valid [simplified]
        sq.click_valid [simplified] sq.update_valid [simplified] sq.rotate_valid [simplified] sq.audit_valid [simplified]
        sq.lookup_valid [simplified] mem.set_owner [simplified] sq.set_owner [simplified] mem.owner_laws [simplified]
        sq.owner_laws [simplified])
  then show ?thesis using ans by blast
qed

lemma same_store_new: "same_store NewMemoryStore NewSQLiteStore"
  by (simp add: same_store_def mem_inv_new sql_inv_new)
    (simp add: mem_view_def sql_view_def mem_owner_def sql_owner_def NewMemoryStore_def NewSQLiteStore_def fun_eq_iff)

lemma do_calls_same:
  "same_store ms ss \<Longrightarrow> calls_ok cs ms \<Longrightarrow> snd (do_calls mem_ops cs ms) = snd (do_calls (sq_ops no_fault) cs ss)
    \<and> same_store (fst (do_calls mem_ops cs ms)) (fst (do_calls (sq_ops no_fault) cs ss))"
proof (induction cs arbitrary: ms ss)
  case Nil
  then show ?case by simp
next
  case (Cons c cs)
  note step = do_call_same [OF Cons.prems(1), of c]
  from Cons.prems(2) have ok: "call_ok c ms" "calls_ok cs (fst (do_call mem_ops c ms))" by simp_all
  from Cons.IH [OF conjunct2 [OF step [OF ok(1)]] ok(2)] step [OF ok(1)]
  show ?case by (simp add: case_prod_unfold Let_def del: no_fault_simp)
qed

text \<open>
  C15. On the calls a redirecting and editing client makes, the memory and the SQLite backend are
  interchangeable: started empty and given the same sequence of Set, Get, Exists, Delete,
  RecordClick, Update, RotateToken, LogAudit, CreateAPIKey, LookupAPIKey and DeleteAPIKey, with
  times in the 64-bit range, mappings as \<^verbatim>\<open>shortenOne\<close> inserts them, a webhook URL updated together
  with its secret, fresh key hashes and no failing statement, they give the same answers (of a key,
  its ID) and hold the same mappings and the same owners of key hashes in the end. Reading events,
  listings and labels back is not among the calls; there the caps of the memory backend show.
\<close>
theorem backends_agree:
  assumes "calls_ok cs NewMemoryStore"
  shows "snd (do_calls mem_ops cs NewMemoryStore) = snd (do_calls (sq_ops no_fault) cs NewSQLiteStore)
    \<and> mem_view (fst (do_calls mem_ops cs NewMemoryStore)) = sql_view (fst (do_calls (sq_ops no_fault) cs NewSQLiteStore))
    \<and> mem_owner (fst (do_calls mem_ops cs NewMemoryStore)) = sql_owner (fst (do_calls (sq_ops no_fault) cs NewSQLiteStore))"
  using do_calls_same [OF same_store_new assms] by (simp add: same_store_def)

definition sample_calls :: "store_call list" where
  "sample_calls = [DoCreateKey 1 ''k'' [5], DoSet ''ab'' (sample_mapping ''ab''), DoSet ''ab'' (sample_mapping ''ab''),
     DoClick ''ab'' (sample_click 7), DoGet 8 ''ab'', DoLookup 9 [5], DoRevoke 1, DoLookup 10 [5], DoDelete ''ab'', DoExists ''ab'']"

theorem backends_agree_witness:
  "snd (do_calls mem_ops sample_calls NewMemoryStore) = snd (do_calls (sq_ops no_fault) sample_calls NewSQLiteStore)
    \<and> calls_ok sample_calls NewMemoryStore"
proof -
  have "times_ok (sample_mapping c)" for c
    by (simp add: times_ok_fields sample_mapping_def stored_time_id in_int64_def)
  then have ok: "calls_ok sample_calls NewMemoryStore"
    by (simp add: sample_calls_def in_int64_def sample_click_def) (simp add: mem_owner_def NewMemoryStore_def)
  from backends_agree [OF ok] show ?thesis using ok by simp
qed

end
