(* ===== verification/Sql_Open.thy ===== *)
theory Sql_Open
  imports Sql Go_Strings "HOL-Library.Sublist"
begin

text \<open>
  Opening a database: the schema and the migrations of \<^verbatim>\<open>NewSQLiteStore\<close> and
  \<^verbatim>\<open>NewPostgresStore\<close>, over the columns the tables have. An earlier version of the program, or
  an open that failed half way, leaves a database with some of the later columns; the property is
  that the next successful open ends with all of them.
\<close>

section \<open>Schemas\<close>

text \<open>A schema is the list of its columns, each under its table. Indexes are left out.\<close>

type_synonym db_schema = "(string \<times> string) list"

definition has_table :: "string \<Rightarrow> db_schema \<Rightarrow> bool" where
  "has_table t db = (t \<in> set (map fst db))"

text \<open>The \<^verbatim>\<open>CREATE TABLE IF NOT EXISTS\<close> statements.\<close>

definition base_tables :: "(string \<times> string list) list" where
  "base_tables =
     [(''urls'', [''short_code'', ''original_url'', ''created_at'', ''expires_at'', ''click_count'', ''last_accessed'',
         ''owner_token_hash'']),
      (''click_events'', [''id'', ''short_code'', ''clicked_at'', ''ip_hash'', ''referer'', ''ua_class'']),
      (''api_keys'', [''id'', ''token_hash'', ''label'', ''created_at'', ''last_used_at'']),
      (''audit_events'', [''id'', ''at'', ''actor_kind'', ''actor_id'', ''action'', ''target_kind'', ''target_id'',
         ''metadata'', ''request_id''])]"

definition create_table :: "string \<times> string list \<Rightarrow> db_schema \<Rightarrow> db_schema" where
  "create_table tc db = (if has_table (fst tc) db then db else db @ map (Pair (fst tc)) (snd tc))"

definition apply_schema :: "db_schema \<Rightarrow> db_schema" where
  "apply_schema db = fold create_table base_tables db"

text \<open>The columns that did not exist in the first schema: table, column, type.\<close>

definition addedColumns :: "(string \<times> string \<times> string) list" where
  "addedColumns =
     [(''urls'', ''tags'', ''TEXT''), (''urls'', ''max_clicks'', ''INTEGER''), (''urls'', ''password_hash'', ''BLOB''),
      (''urls'', ''password_salt'', ''BLOB''), (''urls'', ''webhook_url'', ''TEXT''), (''urls'', ''webhook_secret'', ''BLOB''),
      (''click_events'', ''country'', ''TEXT''), (''urls'', ''api_key_id'', ''INTEGER''), (''urls'', ''preview_title'', ''TEXT''),
      (''urls'', ''preview_image'', ''TEXT''), (''urls'', ''preview_description'', ''TEXT''),
      (''urls'', ''preview_fetched_at'', ''INTEGER''), (''urls'', ''destinations'', ''TEXT''),
      (''click_events'', ''destination_url'', ''TEXT'')]"

definition postgresMigrations :: "(string \<times> string \<times> string) list" where
  "postgresMigrations =
     [(''urls'', ''tags'', ''TEXT''), (''urls'', ''max_clicks'', ''BIGINT''), (''urls'', ''password_hash'', ''BYTEA''),
      (''urls'', ''password_salt'', ''BYTEA''), (''urls'', ''webhook_url'', ''TEXT''), (''urls'', ''webhook_secret'', ''BYTEA''),
      (''click_events'', ''country'', ''TEXT''), (''urls'', ''api_key_id'', ''BIGINT''), (''urls'', ''preview_title'', ''TEXT''),
      (''urls'', ''preview_image'', ''TEXT''), (''urls'', ''preview_description'', ''TEXT''),
      (''urls'', ''preview_fetched_at'', ''BIGINT''), (''urls'', ''destinations'', ''TEXT''),
      (''click_events'', ''destination_url'', ''TEXT'')]"

section \<open>SQLite\<close>

text \<open>\<^verbatim>\<open>strings.Contains\<close>.\<close>

definition Contains :: "string \<Rightarrow> string \<Rightarrow> bool" where
  "Contains s sub = list_ex (\<lambda>x. prefix sub x) (suffixes s)"

definition isDuplicateColumnErr :: "string \<Rightarrow> bool" where
  "isDuplicateColumnErr e = Contains e ''duplicate column name''"

text \<open>
  \<^verbatim>\<open>ALTER TABLE t ADD COLUMN c\<close>, with the driver's error if the column exists or the table does
  not; \<open>fault\<close> is an error of the driver that comes instead.
\<close>

definition alter_add :: "string option \<Rightarrow> string \<times> string \<times> string \<Rightarrow> db_schema \<Rightarrow> db_schema \<times> string option" where
  "alter_add fault col db =
     (case col of (t, c, ty) \<Rightarrow>
        case fault of
          Some e \<Rightarrow> (db, Some e)
        | None \<Rightarrow>
            if \<not> has_table t db then (db, Some (''SQL logic error: no such table: '' @ t @ '' (1)''))
            else if (t, c) \<in> set db then (db, Some (''SQL logic error: duplicate column name: '' @ c @ '' (1)''))
            else (db @ [(t, c)], None))"

definition alter_text :: "string \<times> string \<times> string \<Rightarrow> string" where
  "alter_text col = (case col of (t, c, ty) \<Rightarrow> ''ALTER TABLE '' @ t @ '' ADD COLUMN '' @ c @ '' '' @ ty)"

fun sq_migrate :: "faults \<Rightarrow> nat \<Rightarrow> (string \<times> string \<times> string) list \<Rightarrow> db_schema \<Rightarrow> db_schema \<times> string option" where
  "sq_migrate fl i [] db = (db, None)"
| "sq_migrate fl i (col # cols) db =
     (let (db1, err) = alter_add (fl i) col db
      in case err of
           None \<Rightarrow> sq_migrate fl (Suc i) cols db1
         | Some e \<Rightarrow>
             if \<not> isDuplicateColumnErr e
             then (db1, Some (''sqlite migrate \"'' @ alter_text col @ ''\": '' @ e))
             else sq_migrate fl (Suc i) cols db1)"

text \<open>The statements are the ping (0), the schema (1) and the migrations (from 2). The schema
  text holds several CREATEs, which are made together or not at all here.\<close>

definition sq_open :: "faults \<Rightarrow> db_schema \<Rightarrow> db_schema \<times> string option" where
  "sq_open fl db =
     (case fl 0 of
        Some e \<Rightarrow> (db, Some (''sqlite ping: '' @ e))
      | None \<Rightarrow> case fl 1 of
        Some e \<Rightarrow> (db, Some (''sqlite schema: '' @ e))
      | None \<Rightarrow> sq_migrate fl 2 addedColumns (apply_schema db))"

section \<open>Postgres\<close>

text \<open>
  The schema declares a type and constraints with each column; its comment promises that it mirrors
  the SQLite backend column for column.
\<close>

definition postgresSchema :: "(string \<times> (string \<times> string) list) list" where
  "postgresSchema =
     [(''urls'', [(''short_code'', ''TEXT PRIMARY KEY''), (''original_url'', ''TEXT NOT NULL''), (''created_at'', ''BIGINT NOT NULL''),
         (''expires_at'', ''BIGINT''), (''click_count'', ''BIGINT NOT NULL DEFAULT 0''), (''last_accessed'', ''BIGINT''),
         (''owner_token_hash'', ''BYTEA'')]),
      (''click_events'', [(''id'', ''BIGSERIAL PRIMARY KEY''),
         (''short_code'', ''TEXT NOT NULL REFERENCES urls(short_code) ON DELETE CASCADE''), (''clicked_at'', ''BIGINT NOT NULL''),
         (''ip_hash'', ''TEXT''), (''referer'', ''TEXT''), (''ua_class'', ''TEXT'')]),
      (''api_keys'', [(''id'', ''BIGSERIAL PRIMARY KEY''), (''token_hash'', ''BYTEA NOT NULL UNIQUE''), (''label'', ''TEXT''),
         (''created_at'', ''BIGINT NOT NULL''), (''last_used_at'', ''BIGINT'')]),
      (''audit_events'', [(''id'', ''BIGSERIAL PRIMARY KEY''), (''at'', ''BIGINT NOT NULL''), (''actor_kind'', ''TEXT NOT NULL''),
         (''actor_id'', ''TEXT NOT NULL DEFAULT '' @ [CHR 0x27, CHR 0x27]), (''action'', ''TEXT NOT NULL''),
         (''target_kind'', ''TEXT NOT NULL''), (''target_id'', ''TEXT NOT NULL DEFAULT '' @ [CHR 0x27, CHR 0x27]),
         (''metadata'', ''TEXT''), (''request_id'', ''TEXT'')])]"

definition pg_apply_schema :: "db_schema \<Rightarrow> db_schema" where
  "pg_apply_schema db = fold create_table (map (\<lambda>(t, cs). (t, map fst cs)) postgresSchema) db"

lemma schemas_mirror: "map (\<lambda>(t, cs). (t, map fst cs)) postgresSchema = base_tables"
  by (simp add: postgresSchema_def base_tables_def)

lemma pg_apply_schema_eq [simp]: "pg_apply_schema db = apply_schema db"
  by (simp add: pg_apply_schema_def apply_schema_def schemas_mirror)

text \<open>\<^verbatim>\<open>ADD COLUMN IF NOT EXISTS\<close>.\<close>

definition alter_add_if_absent :: "string option \<Rightarrow> string \<times> string \<times> string \<Rightarrow> db_schema \<Rightarrow> db_schema \<times> string option" where
  "alter_add_if_absent fault col db =
     (case col of (t, c, ty) \<Rightarrow>
        case fault of
          Some e \<Rightarrow> (db, Some e)
        | None \<Rightarrow>
            if \<not> has_table t db then (db, Some (''ERROR: relation \"'' @ t @ ''\" does not exist (SQLSTATE 42P01)''))
            else if (t, c) \<in> set db then (db, None)
            else (db @ [(t, c)], None))"

definition alter_if_absent_text :: "string \<times> string \<times> string \<Rightarrow> string" where
  "alter_if_absent_text col = (case col of (t, c, ty) \<Rightarrow> ''ALTER TABLE '' @ t @ '' ADD COLUMN IF NOT EXISTS '' @ c @ '' '' @ ty)"

fun pg_migrate :: "faults \<Rightarrow> nat \<Rightarrow> (string \<times> string \<times> string) list \<Rightarrow> db_schema \<Rightarrow> db_schema \<times> string option" where
  "pg_migrate fl i [] db = (db, None)"
| "pg_migrate fl i (col # cols) db =
     (let (db1, err) = alter_add_if_absent (fl i) col db
      in case err of
           None \<Rightarrow> pg_migrate fl (Suc i) cols db1
         | Some e \<Rightarrow> (db1, Some (''postgres migrate \"'' @ alter_if_absent_text col @ ''\": '' @ e)))"

definition pg_open :: "faults \<Rightarrow> db_schema \<Rightarrow> db_schema \<times> string option" where
  "pg_open fl db =
     (case fl 0 of
        Some e \<Rightarrow> (db, Some (''postgres ping: '' @ e))
      | None \<Rightarrow> case fl 1 of
        Some e \<Rightarrow> (db, Some (''postgres schema: '' @ e))
      | None \<Rightarrow> pg_migrate fl 2 postgresMigrations (pg_apply_schema db))"

section \<open>Migration converges\<close>

definition all_columns :: "(string \<times> string) set" where
  "all_columns = (\<Union>(t, cs) \<in> set base_tables. Pair t ` set cs) \<union> (\<lambda>(t, c, ty). (t, c)) ` set addedColumns"

text \<open>
  A database some version of the program has opened, or tried to: a table that exists has the
  columns of the first schema, and no column is unknown to this version.
\<close>

definition earlier_db :: "db_schema \<Rightarrow> bool" where
  "earlier_db db = (distinct db \<and> set db \<subseteq> all_columns
     \<and> list_all (\<lambda>(t, cs). has_table t db \<longrightarrow> Pair t ` set cs \<subseteq> set db) base_tables)"

lemma duplicate_tolerated: "isDuplicateColumnErr (''SQL logic error: duplicate column name: '' @ c @ x)"
proof -
  have "suffix (''duplicate column name: '' @ c @ x) (''SQL logic error: duplicate column name: '' @ c @ x)"
    by (rule suffixI [of _ "''SQL logic error: ''"]) simp
  then show ?thesis unfolding isDuplicateColumnErr_def Contains_def list_ex_iff
    by (intro bexI [of _ "''duplicate column name: '' @ c @ x"]) simp_all
qed

text \<open>Without faults, a migration adds exactly the missing columns of the tables it finds.\<close>

lemma alter_add_ok: "has_table t db \<Longrightarrow> alter_add None (t, c, ty) db = (if (t, c) \<in> set db
    then (db, Some (''SQL logic error: duplicate column name: '' @ c @ '' (1)'')) else (db @ [(t, c)], None))"
  by (simp add: alter_add_def)

lemma migrate_ok:
  assumes "\<forall>(t, c, ty) \<in> set cols. has_table t db"
  shows "snd (sq_migrate no_fault i cols db) = None
    \<and> set (fst (sq_migrate no_fault i cols db)) = set db \<union> (\<lambda>(t, c, ty). (t, c)) ` set cols
    \<and> (distinct db \<longrightarrow> distinct (fst (sq_migrate no_fault i cols db)))
    \<and> pg_migrate no_fault i cols db = sq_migrate no_fault i cols db"
  using assms
proof (induction cols arbitrary: i db)
  case Nil
  then show ?case by simp
next
  case (Cons col cols)
  obtain t c ty where col: "col = (t, c, ty)" by (cases col) auto
  define db1 where "db1 = (if (t, c) \<in> set db then db else db @ [(t, c)])"
  have t: "has_table t db" using Cons.prems by (simp add: col)
  have step: "sq_migrate no_fault i (col # cols) db = sq_migrate no_fault (Suc i) cols db1"
    using t duplicate_tolerated [of c "'' (1)''"] by (simp add: col no_fault_def alter_add_ok db1_def)
  have pstep: "pg_migrate no_fault i (col # cols) db = pg_migrate no_fault (Suc i) cols db1"
    using t by (simp add: col no_fault_def alter_add_if_absent_def db1_def)
  have "\<forall>(t, c, ty) \<in> set cols. has_table t db1" using Cons.prems by (auto simp: has_table_def db1_def)
  from Cons.IH [OF this, of "Suc i"] show ?case
    unfolding step pstep by (auto simp: col db1_def)
qed

lemma has_table_create: "has_table t (create_table (t', cs) db) \<longleftrightarrow> has_table t db \<or> (t = t' \<and> cs \<noteq> [])"
  by (cases cs) (auto simp: has_table_def create_table_def)

lemma has_table_mem: "(t, c) \<in> set db \<Longrightarrow> has_table t db"
  by (force simp: has_table_def)

lemma earlier_columns: "earlier_db db \<Longrightarrow> (t, cs) \<in> set base_tables \<Longrightarrow> has_table t db \<Longrightarrow> c \<in> set cs \<Longrightarrow> (t, c) \<in> set db"
  by (fastforce simp: earlier_db_def list_all_iff)

lemma earlier_dbI: "distinct db \<Longrightarrow> set db \<subseteq> all_columns \<Longrightarrow>
    (\<And>t cs c. (t, cs) \<in> set base_tables \<Longrightarrow> has_table t db \<Longrightarrow> c \<in> set cs \<Longrightarrow> (t, c) \<in> set db) \<Longrightarrow> earlier_db db"
  by (auto simp: earlier_db_def list_all_iff)

lemma set_create_table: "earlier_db db \<Longrightarrow> (t, cs) \<in> set base_tables \<Longrightarrow>
    set (create_table (t, cs) db) = set db \<union> Pair t ` set cs"
  by (auto simp: create_table_def dest: earlier_columns)

lemma earlier_create:
  assumes "earlier_db db" and "(t, cs) \<in> set base_tables"
  shows "earlier_db (create_table (t, cs) db)"
proof -
  note set = set_create_table [OF assms]
  have known: "Pair t ` set cs \<subseteq> all_columns" using assms(2) by (force simp: all_columns_def)
  have keys: "distinct (map fst base_tables)" by (simp add: base_tables_def)
  have cols: "distinct cs" using assms(2) by (auto simp: base_tables_def)
  have dist: "distinct db" and sub: "set db \<subseteq> all_columns" using assms(1) by (simp_all add: earlier_db_def)
  show ?thesis
  proof (rule earlier_dbI)
    show "distinct (create_table (t, cs) db)"
      using dist cols by (auto simp: create_table_def distinct_map inj_on_def dest: has_table_mem)
    show "set (create_table (t, cs) db) \<subseteq> all_columns" using known sub set by simp
    fix t' cs' c
    assume mem: "(t', cs') \<in> set base_tables" and has: "has_table t' (create_table (t, cs) db)" and c: "c \<in> set cs'"
    show "(t', c) \<in> set (create_table (t, cs) db)"
    proof (cases "t' = t")
      case True
      then have "cs' = cs" using keys mem assms(2) by (auto simp: base_tables_def)
      then show ?thesis using True set c by simp
    next
      case False
      then have "has_table t' db" using has by (simp add: has_table_create)
      then show ?thesis using earlier_columns [OF assms(1) mem _ c] set by simp
    qed
  qed
qed

lemma apply_schema_ok:
  assumes "earlier_db db"
  shows "earlier_db (apply_schema db) \<and> set (apply_schema db) = set db \<union> (\<Union>(t, cs) \<in> set base_tables. Pair t ` set cs)"
proof -
  have "earlier_db (fold create_table tabs db)
      \<and> set (fold create_table tabs db) = set db \<union> (\<Union>(t, cs) \<in> set tabs. Pair t ` set cs)"
    if "set tabs \<subseteq> set base_tables" for tabs
    using that assms
  proof (induction tabs arbitrary: db)
    case Nil
    then show ?case by simp
  next
    case (Cons tc tabs)
    obtain t cs where tc: "tc = (t, cs)" by (cases tc)
    have mem: "(t, cs) \<in> set base_tables" and sub: "set tabs \<subseteq> set base_tables" using Cons.prems(1) by (simp_all add: tc)
    note e = earlier_create [OF Cons.prems(2) mem] and st = set_create_table [OF Cons.prems(2) mem]
    from Cons.IH [OF sub e] st show ?case by (auto simp: tc)
  qed
  then show ?thesis by (simp add: apply_schema_def)
qed

lemma added_tables: "\<forall>(t, c, ty) \<in> set addedColumns. t \<in> {''urls'', ''click_events''}"
  by (simp add: addedColumns_def)

lemma earlier_add:
  assumes "earlier_db db" and "has_table t db" and "(t, c) \<notin> set db" and "(t, c) \<in> all_columns"
  shows "earlier_db (db @ [(t, c)])"
proof (rule earlier_dbI)
  have has: "has_table t' (db @ [(t, c)]) \<longleftrightarrow> has_table t' db" for t' using assms(2) by (auto simp: has_table_def)
  fix t' cs' c'
  assume "(t', cs') \<in> set base_tables" and "has_table t' (db @ [(t, c)])" and "c' \<in> set cs'"
  then show "(t', c') \<in> set (db @ [(t, c)])" using earlier_columns [OF assms(1)] by (simp add: has)
qed (use assms in \<open>auto simp: earlier_db_def\<close>)

lemma added_known: "(t, c, ty) \<in> set addedColumns \<Longrightarrow> (t, c) \<in> all_columns"
  unfolding all_columns_def by (rule UnI2, rule image_eqI [where x = "(t, c, ty)"]) simp_all

text \<open>An open that fails, at any statement, leaves a database the next open can work on.\<close>

lemma sq_migrate_earlier:
  assumes "earlier_db db" and "set cols \<subseteq> set addedColumns"
  shows "earlier_db (fst (sq_migrate fl i cols db))"
  using assms
proof (induction cols arbitrary: i db)
  case Nil
  then show ?case by simp
next
  case (Cons col cols)
  obtain t c ty where col: "col = (t, c, ty)" by (cases col) auto
  have known: "(t, c) \<in> all_columns" using Cons.prems(2) by (intro added_known [of t c ty]) (simp add: col)
  obtain db1 err where r: "alter_add (fl i) col db = (db1, err)" by (cases "alter_add (fl i) col db")
  have "db1 = db \<or> has_table t db \<and> (t, c) \<notin> set db \<and> db1 = db @ [(t, c)]"
    using r by (auto simp: alter_add_def col split: option.splits if_splits)
  then have e: "earlier_db db1"
    by (elim disjE conjE) (simp_all add: Cons.prems(1) earlier_add [OF Cons.prems(1) _ _ known])
  have "set cols \<subseteq> set addedColumns" using Cons.prems(2) by simp
  from Cons.IH [OF e this] e show ?case by (simp add: r split: option.split)
qed

lemma sq_open_earlier: "earlier_db db \<Longrightarrow> earlier_db (fst (sq_open fl db))"
  using sq_migrate_earlier [of "apply_schema db" addedColumns fl 2] apply_schema_ok [of db]
  by (simp add: sq_open_def split: option.split)

lemma sq_open_ok:
  assumes "earlier_db db"
  shows "snd (sq_open no_fault db) = None \<and> set (fst (sq_open no_fault db)) = all_columns
    \<and> distinct (fst (sq_open no_fault db)) \<and> pg_migrate no_fault 2 addedColumns (apply_schema db) = sq_open no_fault db"
proof -
  note a = apply_schema_ok [OF assms]
  have tabs: "\<forall>(t, c, ty) \<in> set addedColumns. has_table t (apply_schema db)"
  proof -
    have "(''urls'', ''short_code'') \<in> set (apply_schema db)" "(''click_events'', ''id'') \<in> set (apply_schema db)"
      using a by (simp_all add: base_tables_def)
    then have "has_table ''urls'' (apply_schema db)" "has_table ''click_events'' (apply_schema db)"
      by (auto dest: has_table_mem)
    then show ?thesis using added_tables by auto
  qed
  have sub: "set db \<subseteq> all_columns" using assms by (simp add: earlier_db_def)
  have dist: "distinct (apply_schema db)" using a by (simp add: earlier_db_def)
  show ?thesis
    using migrate_ok [OF tabs, of 2] a sub dist by (auto simp: sq_open_def no_fault_def all_columns_def)
qed

lemma migrate_known: "\<forall>(t, c, ty) \<in> set cols. (t, c) \<in> set db \<Longrightarrow> fst (sq_migrate no_fault i cols db) = db"
proof (induction cols arbitrary: i)
  case Nil
  then show ?case by simp
next
  case (Cons col cols)
  obtain t c ty where col: "col = (t, c, ty)" by (cases col) auto
  then have "alter_add (no_fault i) col db = (db, Some (''SQL logic error: duplicate column name: '' @ c @ '' (1)''))"
    using Cons.prems has_table_mem [of t c db] by (simp add: no_fault_def alter_add_ok)
  then show ?case using Cons duplicate_tolerated [of c "'' (1)''"] by simp
qed

lemma schema_known: "(\<And>t cs. (t, cs) \<in> set tabs \<Longrightarrow> has_table t db) \<Longrightarrow> fold create_table tabs db = db"
proof (induction tabs)
  case (Cons tc tabs)
  have "has_table (fst tc) db" by (rule Cons.prems [of _ "snd tc"]) simp
  then have "create_table tc db = db" by (simp add: create_table_def)
  moreover have "fold create_table tabs db = db" by (rule Cons.IH) (rule Cons.prems [OF list.set_intros(2)])
  ultimately show ?case by simp
qed simp

lemma open_known:
  assumes "set db = all_columns"
  shows "fst (sq_open no_fault db) = db"
proof -
  have "has_table t db" if "(t, cs) \<in> set base_tables" for t cs
  proof -
    have "cs \<noteq> []" using that by (auto simp: base_tables_def)
    then have "hd cs \<in> set cs" by simp
    then have "(t, hd cs) \<in> set db" using that assms by (force simp: all_columns_def)
    then show ?thesis by (rule has_table_mem)
  qed
  then have "apply_schema db = db" unfolding apply_schema_def by (rule schema_known)
  moreover have "\<forall>(t, c, ty) \<in> set addedColumns. (t, c) \<in> set db" using assms added_known by auto
  ultimately show ?thesis using migrate_known [of addedColumns db 2] by (simp add: sq_open_def no_fault_def)
qed

lemma postgresMigrations_columns: "map (\<lambda>(t, c, ty). (t, c)) postgresMigrations = map (\<lambda>(t, c, ty). (t, c)) addedColumns"
  by (simp add: postgresMigrations_def addedColumns_def)

lemma pg_migrate_types: "map (\<lambda>(t, c, ty). (t, c)) cols = map (\<lambda>(t, c, ty). (t, c)) cols' \<Longrightarrow>
    fst (pg_migrate no_fault i cols db) = fst (pg_migrate no_fault i cols' db)
    \<and> (snd (pg_migrate no_fault i cols db) = None \<longleftrightarrow> snd (pg_migrate no_fault i cols' db) = None)"
proof (induction cols arbitrary: i db cols')
  case Nil
  then show ?case by simp
next
  case (Cons col cols)
  obtain col' rest where c: "cols' = col' # rest" using Cons.prems by (cases cols') auto
  obtain t n ty ty' where cols: "col = (t, n, ty)" "col' = (t, n, ty')" using Cons.prems c by (cases col; cases col') auto
  have rest: "map (\<lambda>(t, c, ty). (t, c)) cols = map (\<lambda>(t, c, ty). (t, c)) rest" using Cons.prems c by simp
  have same: "alter_add_if_absent (no_fault i) col db = alter_add_if_absent (no_fault i) col' db"
    by (simp add: alter_add_if_absent_def cols)
  obtain db1 err where r: "alter_add_if_absent (no_fault i) col' db = (db1, err)"
    by (cases "alter_add_if_absent (no_fault i) col' db")
  show ?case using Cons.IH [OF rest, of "Suc i" db1] by (simp add: c same r split: option.split)
qed

text \<open>
  C35. Migrations converge: an earlier version's database, or one on which any number of opens
  failed at any statements, is opened with all columns of this version, each once, by the next
  open without a failing statement; opening it again changes nothing. Postgres, with
  \<^verbatim>\<open>IF NOT EXISTS\<close> instead of tolerated errors, ends with the same columns.
\<close>
theorem migration_converges:
  assumes "earlier_db db"
  shows "snd (sq_open no_fault (fst (sq_open fl db))) = None
    \<and> set (fst (sq_open no_fault (fst (sq_open fl db)))) = all_columns
    \<and> distinct (fst (sq_open no_fault (fst (sq_open fl db))))
    \<and> fst (sq_open no_fault (fst (sq_open no_fault db))) = fst (sq_open no_fault db)
    \<and> snd (pg_open no_fault db) = None \<and> fst (pg_open no_fault db) = fst (sq_open no_fault db)"
proof -
  have "fst (pg_open no_fault db) = fst (sq_open no_fault db)" "snd (pg_open no_fault db) = None"
    using pg_migrate_types [OF postgresMigrations_columns, of 2 "apply_schema db"] sq_open_ok [OF assms]
    by (simp_all add: pg_open_def no_fault_def)
  then show ?thesis
    using sq_open_ok [OF sq_open_earlier [OF assms]] sq_open_ok [OF assms] open_known by simp
qed

theorem migration_converges_witness:
  "set (fst (sq_open no_fault (fst (sq_open (\<lambda>i. if i = 4 then Some ''disk full'' else None) [])))) = all_columns"
proof -
  have "earlier_db []" by (simp add: earlier_db_def has_table_def list_all_iff)
  from migration_converges [OF this] show ?thesis by blast
qed

end
