(* ===== verification/Spec2Isabelle.thy ===== *)
theory Spec2Isabelle
  imports Server_Backends Interleave Password_Form Sqlite_Backends Sql_Open
begin

text \<open>
  A verification library of tiny-url, a URL shortener written in Go. It models the implementation
  under \<^verbatim>\<open>src/\<close>: the packages \<^verbatim>\<open>models\<close>, \<^verbatim>\<open>services\<close>, \<^verbatim>\<open>handlers\<close>, \<^verbatim>\<open>middleware\<close>, \<^verbatim>\<open>config\<close>, and the wiring
  in \<^verbatim>\<open>app.go\<close> and \<^verbatim>\<open>main.go\<close>. File names below are relative to \<^verbatim>\<open>src/\<close>.

  \<^bold>\<open>The program.\<close> A request enters the chain RequestID, Logger, Metrics, Recover, SecurityHeaders, then
  an outer mux that serves the probes and hands everything else, through the read limiter, to the
  application mux; a route may add the write limiter and a CSRF header check before its handler.
  Handlers work on a \<^verbatim>\<open>Store\<close> (memory, SQLite or Postgres) that holds short-URL mappings, their click
  events, API keys and the audit log. Following a link also goes through the DNS cache, the click
  stream and the webhook dispatcher; creating one may leave a job for the unfurler. A cleanup
  pass removes expired mappings. All of these are modelled, and put together in \<^verbatim>\<open>Server\<close>; \<^verbatim>\<open>Interleave\<close> runs
  the writing requests at once, store call by store call.

  \<^bold>\<open>Conventions.\<close> A Go function is a HOL function of the same name where HOL allows it (\<open>mem_\<close>, \<open>sq_\<close>,
  \<open>pg_\<close> for the methods of the three stores, \<^verbatim>\<open><handler>_ServeHTTP\<close> for the handlers). Structs are records
  with a prefix per record. A string is the list of its bytes; a byte slice is a list of \<^verbatim>\<open>8 word\<close>, nil
  and empty being one value except where the code tells them apart. Times and durations are
  nanoseconds as \<open>int\<close>; products the code computes in 64 bits are wrapped explicitly (\<open>wrap64\<close>).
  A Go map is an association list in the order a \<^verbatim>\<open>range\<close> happens to visit it. A method that holds a
  mutex for its whole body is one function on the state; where a lock is released in between, the
  parts are separate definitions and the steps of several goroutines interleave. Every call of
  \<^verbatim>\<open>time.Now()\<close> and every random read is an argument. Errors are \<open>Inl\<close> or \<open>Some\<close>; early returns are
  branches. A run-time panic is an error value (\<open>Panicked\<close>, \<open>SendPanic\<close>, \<open>TickerPanic\<close>) or an action.

  \<^bold>\<open>Theories.\<close>
  \<^item> \<^verbatim>\<open>Prelude\<close>, \<^verbatim>\<open>Go_Strings\<close>, \<^verbatim>\<open>Models\<close>, \<^verbatim>\<open>Http\<close>: shared types, Go's \<^verbatim>\<open>strings\<close> functions, the data of
    \<^verbatim>\<open>models/\<close>, requests, replies and the environment \<open>env\<close> of library functions.
  \<^item> \<^verbatim>\<open>Store_Iface\<close>: the \<^verbatim>\<open>Store\<close> interface as a record of operations, the meaning of an operation on one
    mapping (\<open>apply_update\<close>, \<open>click_mapping\<close>), and its contract as the locales \<open>url_store\<close>, \<open>key_store\<close>,
    \<open>cleaned_store\<close> and \<open>serial_store\<close> (each extends the one before: mappings and clicks, API keys, the
    cleanup pass, key IDs that are never reused) over an abstract \<open>view\<close> (code to mapping) and \<open>owner\<close> (token hash to key ID). \<open>norm\<close> is what a
    backend keeps of a time: the identity in memory, the 64-bit wrapping of \<^verbatim>\<open>UnixNano\<close> in SQL.
  \<^item> \<^verbatim>\<open>Mem_Store\<close>, \<^verbatim>\<open>Mem_Runs\<close>, \<^verbatim>\<open>Mem_Props\<close>: \<^verbatim>\<open>services/storage.go\<close>; the invariant, the contract
    (interpretation \<open>mem\<close>), click and audit logs as pages of an unbounded history, exact histograms.
  \<^item> \<^verbatim>\<open>Sql\<close>, \<^verbatim>\<open>Sqlite\<close>, \<^verbatim>\<open>Sqlite_Store\<close>, \<^verbatim>\<open>Sqlite_Props\<close>, \<^verbatim>\<open>Sqlite_Backends\<close>, \<^verbatim>\<open>Postgres\<close>, \<^verbatim>\<open>Sql_Open\<close>: the tables
    and methods of \<^verbatim>\<open>storage_sqlite*.go\<close>, \<^verbatim>\<open>storage_postgres*.go\<close> and \<^verbatim>\<open>storage_audit.go\<close>; both stores meet
    the same contract (interpretations \<open>sq\<close> and \<open>pg\<close>); SQLite answers any run of calls as the memory store
    does, and changes nothing when it answers an error; Postgres equals SQLite except for its dynamically
    numbered \<^verbatim>\<open>UPDATE\<close>, which is proved to bind every column to its argument (both builders are instances of one locale,
    interpretations \<open>sq_stmt\<close> and \<open>pg_stmt\<close>); opening a database
    migrates it whatever earlier opens left behind. The outcome of the n-th statement of a call is
    the fault argument \<open>fl n\<close> (\<open>None\<close>: it succeeds); a failed transaction leaves the tables as they were.
  \<^item> \<^verbatim>\<open>Deny_List\<close>, \<^verbatim>\<open>Validation\<close>, \<^verbatim>\<open>IP_Guard\<close>, \<^verbatim>\<open>DNS_Cache\<close>: \<^verbatim>\<open>services/denylist.go\<close>, \<^verbatim>\<open>validation.go\<close> and
    \<^verbatim>\<open>dnscache.go\<close>; the bit tests of the address guard as numeric ranges, freshness of cached answers.
  \<^item> \<^verbatim>\<open>Short_Code\<close>, \<^verbatim>\<open>Picker\<close>, \<^verbatim>\<open>Click_Info\<close>, \<^verbatim>\<open>Geo\<close>: \<^verbatim>\<open>services/shortcode.go\<close> (rejection sampling, unbiased),
    \<^verbatim>\<open>destination_picker.go\<close> (proportional), \<^verbatim>\<open>clicks.go\<close>, \<^verbatim>\<open>geoip.go\<close>.
  \<^item> \<^verbatim>\<open>Auth\<close>, \<^verbatim>\<open>Shorten\<close>, \<^verbatim>\<open>Shorten_Props\<close>, \<^verbatim>\<open>Bulk\<close>, \<^verbatim>\<open>Owner_Ops\<close>, \<^verbatim>\<open>Patch\<close>, \<^verbatim>\<open>Patch_Props\<close>, \<^verbatim>\<open>Api_Keys\<close>, \<^verbatim>\<open>Key_Props\<close>,
    \<^verbatim>\<open>Reads\<close>, \<^verbatim>\<open>Export\<close>, \<^verbatim>\<open>Export_Props\<close>, \<^verbatim>\<open>Read_Props\<close>, \<^verbatim>\<open>Redirect\<close>, \<^verbatim>\<open>Redirect_Props\<close>, \<^verbatim>\<open>Probes\<close>, \<^verbatim>\<open>Static_Files\<close>,
    \<^verbatim>\<open>Password_Form\<close>: the files of \<^verbatim>\<open>handlers/\<close>. Each handler is specified over the contract of the store (lemmas \<open>*_spec\<close>, \<open>*_gated\<close> in
    \<open>context key_store\<close>), so the specifications hold of all three backends; the theorems state them for the
    memory store. \<open>may_act\<close> is who may read or change a mapping, \<open>created_from\<close> and \<open>patched\<close> what a
    request makes of it, \<open>may_redirect\<close> which requests are redirected. A read or a refused write is not
    quite without effect: a live key presented as the bearer has its time of last use stamped, which is
    all that \<open>only_stamped\<close> allows of a state. What a successful write does to the rest of the memory
    store is stated as an equation of states: one audit event, and the fields it is about.
  \<^item> \<^verbatim>\<open>Job_Queue\<close> (the locale \<open>job_queue\<close> of a bounded queue with workers and a stop), interpreted as \<open>hook\<close> in
    \<^verbatim>\<open>Webhook\<close> (\<^verbatim>\<open>services/webhook.go\<close>) and \<open>unfurl\<close> in \<^verbatim>\<open>Unfurl\<close> (\<^verbatim>\<open>services/unfurl.go\<close>): every job is accounted
    for. \<^verbatim>\<open>Click_Stream\<close> (\<^verbatim>\<open>services/clickstream.go\<close>): no interleaving sends on a closed channel.
  \<^item> \<^verbatim>\<open>Rate_Limit\<close>, \<^verbatim>\<open>Middleware\<close>, \<^verbatim>\<open>Routes\<close>: \<^verbatim>\<open>middleware/\<close> and the route tables of \<^verbatim>\<open>app.go\<close>. The limiter's map
    holds pointers into a heap of buckets, since a request may still count in a bucket the janitor has
    deleted; a potential per bucket bounds what passes. What a handler writes is a list of actions on
    the response, the mux is Go's pattern matching on path segments.
  \<^item> \<^verbatim>\<open>Config\<close>: \<^verbatim>\<open>config/config.go\<close>, the start and the shutdown order of \<^verbatim>\<open>main.go\<close>, \<^verbatim>\<open>services/tracing.go\<close>.
  \<^item> \<^verbatim>\<open>Server\<close>, \<^verbatim>\<open>Server_Props\<close>, \<^verbatim>\<open>Link_Form\<close>: \<open>buildHandler\<close> of \<^verbatim>\<open>app.go\<close> and the run of the process as a
    sequence of events; what survives any run of a server. The lemmas are proved once in
    \<open>context cleaned_store\<close>; the theorems are for a server started on an empty memory store, and in
    \<^verbatim>\<open>Server_Backends\<close> for processes that succeed each other on the same SQL tables.
  \<^item> \<^verbatim>\<open>Threads\<close>, \<^verbatim>\<open>Interleave\<close>: the handlers that write mappings as threads whose steps are their store calls (run
    alone, each is its handler), and runs of any number of them with the clicks, previews, key calls and
    cleanup passes of the rest of the server in between: what no interleaving can do to a link, and what one can.

  \<^bold>\<open>Interleaving.\<close> In \<^verbatim>\<open>Server\<close> an event is a whole request. The handlers call the store several times
  without holding a lock, so concurrent requests can interleave between the calls; where that
  matters it is modelled on its own: the writes of mappings (\<^verbatim>\<open>Interleave\<close>, where the handlers of
  mappings are threads and the calls of all the others come singly), the click cap under two interleaved redirects
  (\<^verbatim>\<open>Redirect_Props\<close>), \<^verbatim>\<open>Enqueue\<close> against \<^verbatim>\<open>Close\<close> (\<^verbatim>\<open>Webhook\<close>), the sections of the click stream, the lookups
  and writes of the DNS cache, calls of the memory store in any order (\<^verbatim>\<open>Mem_Runs\<close>), the loads and counts of
  requests in the limiter against the janitor's checks and deletions (\<^verbatim>\<open>Rate_Limit\<close>; \<^verbatim>\<open>Server\<close> takes the
  steps of one request, and of one sweep, together). Idealised are the workers of \<^verbatim>\<open>Webhook\<close>, whose turn
  takes an event and delivers it in one step, and the schema statement of \<^verbatim>\<open>Sql_Open\<close>, whose several
  \<^verbatim>\<open>CREATE\<close>s are made together or not at all.

  \<^bold>\<open>Bounds and fuel.\<close> No definition uses fuel: every loop recurses on a list or a counter. The numeric
  constants are those of the source (click and audit caps of 1000, at most five attempts to find
  a free code, three delivery attempts, eight buffered events, and so on). Counters that only ever
  grow by one are not wrapped: they would need 2 to the 63 steps.

  \<^bold>\<open>Parameters.\<close> Code outside the repository is a parameter and is assumed nothing about unless a theorem
  says so: \<^verbatim>\<open>url.Parse\<close>, \<^verbatim>\<open>net.ParseIP\<close>, DNS and the non-ASCII part of lower-casing (\<open>net_env\<close>), SHA-256, HMAC
  and PBKDF2, JSON coding (bodies arrive decoded, \<open>None\<close> being a decoding error or an oversized
  body), the HTML tokenizer, the MaxMind reader, the QR encoder, HTTP clients (their outcomes are
  arguments), SQL drivers. Hypotheses of theorems on them: a fresh key token does not hash to that
  of a live key (\<open>fresh_event\<close>, \<open>admissible\<close>), a token hash is not empty, the requests of a run are
  parsed by one URL parser (\<open>parses_with\<close>).

  \<^bold>\<open>Not modelled.\<close> The JSON and PNG encodings of replies (a reply carries the value that is encoded, the
  password page is spelled out); the file server of the library below \<^verbatim>\<open>/static/\<close> and the contents of
  the embedded files, which are parameters; sockets, TLS and signals (the server's limits and its
  choice of listener are data of \<^verbatim>\<open>Config\<close>, and the write limit is applied to the event stream in \<^verbatim>\<open>Server\<close>);
  the OpenTelemetry objects and spans; the values and the exposition format of the Prometheus
  histograms; log output other than the access log line; the pool settings of the SQL connections;
  the order \<^verbatim>\<open>sort.Slice\<close> gives to mappings created at the same instant. Failing SQL statements are part of
  the runs of the store (\<^verbatim>\<open>Sqlite_Props\<close>), not of those of the server.
\<close>

end
